theory Spec2Isabelle
  imports Complex_Main
begin

section \<open>JavaScript numbers\<close>

text \<open>
  A JavaScript number is an IEEE-754 binary64 value. A finite one is held by its exact
  rational value; the sign of zero is not tracked (both zeros are finite, falsy, and print
  as \<open>0\<close>, and the program never divides by a computed value).
  Every arithmetic result is rounded to the nearest double by \<open>toDouble\<close>, ties to even.
\<close>

datatype jsnum = Fin rat | PosInf | NegInf | NaN

definition pow2 :: "int \<Rightarrow> rat" where
  "pow2 e = (if 0 \<le> e then 2 ^ nat e else 1 / 2 ^ nat (- e))"

definition pow10 :: "int \<Rightarrow> rat" where
  "pow10 e = (if 0 \<le> e then 10 ^ nat e else 1 / 10 ^ nat (- e))"

function bit_length :: "int \<Rightarrow> int" where
  "bit_length k = (if k \<le> 0 then 0 else 1 + bit_length (k div 2))"
  by pat_completeness auto
termination
  by (relation "measure nat") auto

declare bit_length.simps [simp del]

text \<open>The binade of a positive rational \<open>a\<close>: the \<open>e\<close> with \<open>2^e \<le> a < 2^(e+1)\<close>.\<close>

definition binade :: "rat \<Rightarrow> int" where
  "binade a =
     (if 1 \<le> a then bit_length \<lfloor>a\<rfloor> - 1 else - bit_length (\<lceil>1 / a\<rceil> - 1))"

definition round_half_even :: "rat \<Rightarrow> int" where
  "round_half_even x =
     (let f = \<lfloor>x\<rfloor>; r = x - of_int f
      in if r < 1 / 2 then f
         else if 1 / 2 < r then f + 1
         else if even f then f else f + 1)"

text \<open>
  Rounding of a real value to binary64: 53 significant bits, exponents from \<open>-1022\<close>
  (below it the spacing stays \<open>2^-1074\<close>: subnormals). The result overflows to an
  infinity when it reaches \<open>2^1024\<close>: the binade is beyond 1023, or it is 1023 and the
  significand rounds up to \<open>2^53\<close>.
\<close>

definition toDouble :: "rat \<Rightarrow> jsnum" where
  "toDouble q =
     (if q = 0 then Fin 0
      else let a = \<bar>q\<bar>;
               e = max (binade a) (- 1022);
               ulp = pow2 (e - 52);
               m = round_half_even (a / ulp)
           in if 1024 \<le> e \<or> (e = 1023 \<and> m = 2 ^ 53)
              then (if 0 < q then PosInf else NegInf)
              else Fin ((if 0 < q then 1 else - 1) * of_int m * ulp))"

text \<open>\<open>Number.isFinite\<close> on a number.\<close>

fun isFinite :: "jsnum \<Rightarrow> bool" where
  "isFinite (Fin _) = True"
| "isFinite _ = False"

text \<open>
  The \<open>/\<close> operator. A zero divisor gives an infinity whose sign depends on the sign of
  the zero; the program divides only by the literals \<open>4.184\<close> and \<open>1000\<close>, and the model
  takes a zero divisor as \<open>+0\<close>.
\<close>

fun js_div :: "jsnum \<Rightarrow> jsnum \<Rightarrow> jsnum" where
  "js_div NaN _ = NaN"
| "js_div _ NaN = NaN"
| "js_div (Fin a) (Fin b) =
     (if b = 0 then (if a = 0 then NaN else if 0 < a then PosInf else NegInf)
      else toDouble (a / b))"
| "js_div (Fin a) _ = Fin 0"
| "js_div PosInf (Fin b) = (if 0 \<le> b then PosInf else NegInf)"
| "js_div NegInf (Fin b) = (if 0 \<le> b then NegInf else PosInf)"
| "js_div _ _ = NaN"

text \<open>
  \<open>Number(x.toFixed(d))\<close> for a finite \<open>x\<close>. \<open>toFixed\<close> prints the decimal
  \<open>n / 10^d\<close> whose integer \<open>n\<close> is nearest to \<open>x * 10^d\<close> (the larger \<open>n\<close> on a tie,
  taken on the magnitude, the sign put in front), and \<open>Number\<close> reads that decimal back
  as the nearest double. From \<open>10^21\<close> on \<open>toFixed\<close> prints the number as \<open>String\<close>
  does, which \<open>Number\<close> reads back unchanged.
\<close>

definition toFixed_value :: "nat \<Rightarrow> rat \<Rightarrow> rat" where
  "toFixed_value d x =
     (let n = \<lfloor>\<bar>x\<bar> * 10 ^ d + 1 / 2\<rfloor>
      in (if x < 0 then - 1 else 1) * of_int n / 10 ^ d)"

fun Number_toFixed :: "nat \<Rightarrow> jsnum \<Rightarrow> jsnum" where
  "Number_toFixed d (Fin x) =
     (if 10 ^ 21 \<le> \<bar>x\<bar> then Fin x else toDouble (toFixed_value d x))"
| "Number_toFixed d v = v"

section \<open>JavaScript strings\<close>

text \<open>
  A string is a sequence of code units; the model covers the code units below 256
  (ISO-8859-1), on which the definitions below are those of ECMAScript.
\<close>

definition code_unit :: "char \<Rightarrow> int" where
  "code_unit c = of_char c"

text \<open>White space and line terminators below 256: TAB, LF, VT, FF, CR, SP, NBSP.\<close>

definition is_white_space :: "char \<Rightarrow> bool" where
  "is_white_space c = (code_unit c \<in> {9, 10, 11, 12, 13, 32, 160})"

definition is_digit :: "char \<Rightarrow> bool" where
  "is_digit c = (48 \<le> code_unit c \<and> code_unit c \<le> 57)"

definition is_upper :: "char \<Rightarrow> bool" where
  "is_upper c =
     (let n = code_unit c in (65 \<le> n \<and> n \<le> 90) \<or> (192 \<le> n \<and> n \<le> 222 \<and> n \<noteq> 215))"

definition lower_char :: "char \<Rightarrow> char" where
  "lower_char c = (if is_upper c then char_of (code_unit c + 32) else c)"

definition toLowerCase :: "string \<Rightarrow> string" where
  "toLowerCase s = map lower_char s"

definition trim :: "string \<Rightarrow> string" where
  "trim s = rev (dropWhile is_white_space (rev (dropWhile is_white_space s)))"

subsection \<open>Reading a number from a string\<close>

definition digit_value :: "char \<Rightarrow> int" where
  "digit_value c =
     (let n = code_unit c
      in if 48 \<le> n \<and> n \<le> 57 then n - 48
         else if 97 \<le> n \<and> n \<le> 102 then n - 87
         else if 65 \<le> n \<and> n \<le> 70 then n - 55
         else 99)"

definition digits_value :: "int \<Rightarrow> string \<Rightarrow> int" where
  "digits_value b s = foldl (\<lambda>acc c. acc * b + digit_value c) 0 s"

definition all_digits :: "int \<Rightarrow> string \<Rightarrow> bool" where
  "all_digits b s = list_all (\<lambda>c. digit_value c < b) s"

text \<open>An optional sign in front: the sign as a factor, and the rest.\<close>

fun take_sign :: "string \<Rightarrow> int \<times> string" where
  "take_sign (c # s) =
     (if c = CHR ''-'' then (- 1, s) else if c = CHR ''+'' then (1, s) else (1, c # s))"
| "take_sign [] = (1, [])"

text \<open>\<open>ExponentPart\<close> without its \<open>e\<close>: an optional sign and at least one digit.\<close>

definition parse_exponent :: "string \<Rightarrow> int option" where
  "parse_exponent s =
     (let (sg, ds) = take_sign s
      in if ds \<noteq> [] \<and> all_digits 10 ds then Some (sg * digits_value 10 ds) else None)"

text \<open>
  \<open>StrUnsignedDecimalLiteral\<close> apart from \<open>Infinity\<close>: digits, an optional point
  with digits on at least one side, an optional exponent. The result is the exact value
  of the literal.
\<close>

definition parse_unsigned_decimal :: "string \<Rightarrow> rat option" where
  "parse_unsigned_decimal s =
     (let is_e = (\<lambda>c. c = CHR ''e'' \<or> c = CHR ''E'');
          mant = takeWhile (\<lambda>c. \<not> is_e c) s;
          erest = dropWhile (\<lambda>c. \<not> is_e c) s;
          ex = (if erest = [] then Some 0 else parse_exponent (tl erest));
          ip = takeWhile (\<lambda>c. c \<noteq> CHR ''.'') mant;
          prest = dropWhile (\<lambda>c. c \<noteq> CHR ''.'') mant;
          fp = (if prest = [] then [] else tl prest);
          ok = (all_digits 10 ip \<and> all_digits 10 fp \<and>
                (if prest = [] then ip \<noteq> [] else ip \<noteq> [] \<or> fp \<noteq> []))
      in case ex of
           None \<Rightarrow> None
         | Some e \<Rightarrow>
             if ok then Some (of_int (digits_value 10 (ip @ fp)) * pow10 (e - int (length fp)))
             else None)"

text \<open>
  \<open>Number(s)\<close> on a string: white space trimmed, the empty string is \<open>0\<close>, then a
  hexadecimal, octal or binary integer (no sign), or a signed decimal or \<open>Infinity\<close>;
  anything else is \<open>NaN\<close>.
\<close>

definition StringToNumber :: "string \<Rightarrow> jsnum" where
  "StringToNumber s =
     (let t = trim s; p = take 2 t; ds = drop 2 t;
          radix = (if p = ''0x'' \<or> p = ''0X'' then 16
                   else if p = ''0o'' \<or> p = ''0O'' then 8
                   else if p = ''0b'' \<or> p = ''0B'' then 2 else (0::int))
      in if t = [] then Fin 0
         else if radix \<noteq> 0 then
           (if ds \<noteq> [] \<and> all_digits radix ds then toDouble (of_int (digits_value radix ds))
            else NaN)
         else
           (let (sg, u) = take_sign t
            in if u = ''Infinity'' then (if sg < 0 then NegInf else PosInf)
               else case parse_unsigned_decimal u of
                      None \<Rightarrow> NaN
                    | Some q \<Rightarrow> toDouble (of_int sg * q)))"

subsection \<open>Printing a number\<close>

definition digit_char :: "int \<Rightarrow> char" where
  "digit_char k = char_of (48 + k)"

function dec_digits :: "int \<Rightarrow> string" where
  "dec_digits k =
     (if k < 10 then [digit_char k] else dec_digits (k div 10) @ [digit_char (k mod 10)])"
  by pat_completeness auto
termination
  by (relation "measure nat") auto

declare dec_digits.simps [simp del]

text \<open>For a positive \<open>x\<close>, the \<open>n\<close> with \<open>10^(n-1) \<le> x < 10^n\<close>.\<close>

definition decimal_exponent :: "rat \<Rightarrow> int" where
  "decimal_exponent x =
     (if 1 \<le> x then int (length (dec_digits \<lfloor>x\<rfloor>))
      else 1 - int (length (dec_digits (\<lceil>1 / x\<rceil> - 1))))"

text \<open>
  \<open>Number::toString\<close> picks the shortest digit string \<open>s\<close> (\<open>k\<close> digits) and the
  exponent \<open>n\<close> such that \<open>s * 10^(n-k)\<close> reads back as \<open>x\<close>; among several of one
  length, the nearest to \<open>x\<close>. A double needs at most 17 digits; the search stops at
  21 with the truncated digits, which concerns only rationals that are no doubles.
\<close>

fun shortest_digits :: "nat \<Rightarrow> int \<Rightarrow> rat \<Rightarrow> int \<times> int" where
  "shortest_digits fuel k x =
     (let n = decimal_exponent x;
          u = pow10 (n - k);
          lo = \<lfloor>x / u\<rfloor>;
          hi = lo + 1;
          ok_lo = (toDouble (of_int lo * u) = Fin x);
          ok_hi = (toDouble (of_int hi * u) = Fin x);
          dl = x - of_int lo * u;
          dh = of_int hi * u - x;
          norm = (\<lambda>s. if of_int s = pow10 k then (s div 10, n + 1) else (s, n))
      in if ok_lo \<and> ok_hi then
           norm (if dl < dh then lo else if dh < dl then hi else if even lo then lo else hi)
         else if ok_lo then norm lo
         else if ok_hi then norm hi
         else (case fuel of 0 \<Rightarrow> (lo, n) | Suc f \<Rightarrow> shortest_digits f (k + 1) x))"

declare shortest_digits.simps [simp del]

definition format_digits :: "int \<times> int \<Rightarrow> string" where
  "format_digits sn =
     (let (s, n) = sn; ds = dec_digits s; k = int (length ds);
          e = n - 1;
          ex = (if e < 0 then ''-'' else ''+'') @ dec_digits \<bar>e\<bar>
      in if k \<le> n \<and> n \<le> 21 then ds @ replicate (nat (n - k)) CHR ''0''
         else if 0 < n \<and> n \<le> 21 then take (nat n) ds @ ''.'' @ drop (nat n) ds
         else if - 6 < n \<and> n \<le> 0 then ''0.'' @ replicate (nat (- n)) CHR ''0'' @ ds
         else if k = 1 then ds @ ''e'' @ ex
         else take 1 ds @ ''.'' @ drop 1 ds @ ''e'' @ ex)"

fun Number_toString :: "jsnum \<Rightarrow> string" where
  "Number_toString NaN = ''NaN''"
| "Number_toString PosInf = ''Infinity''"
| "Number_toString NegInf = ''-Infinity''"
| "Number_toString (Fin x) =
     (if x = 0 then ''0''
      else if x < 0 then ''-'' @ format_digits (shortest_digits 20 1 (- x))
      else format_digits (shortest_digits 20 1 x))"

section \<open>JavaScript values\<close>

text \<open>
  The values \<open>response.json()\<close> can produce, and \<open>undefined\<close> for a property that is
  not there. An object is the list of its properties, one entry per key.
\<close>

datatype jsval =
    Undefined
  | Null
  | Bool bool
  | Num jsnum
  | Str string
  | Arr "jsval list"
  | Obj "(string \<times> jsval) list"

datatype js_error = TypeError

definition andThen :: "'e + 'a \<Rightarrow> ('a \<Rightarrow> 'e + 'b) \<Rightarrow> 'e + 'b" where
  "andThen m f = (case m of Inl e \<Rightarrow> Inl e | Inr v \<Rightarrow> f v)"

text \<open>
  Reading the property \<open>k\<close> of \<open>v\<close>, for the property names the program reads
  (none of them is inherited from a prototype): a \<open>TypeError\<close> on \<open>null\<close> and
  \<open>undefined\<close>, \<open>undefined\<close> for a missing property and on a primitive.
\<close>

fun get_prop :: "jsval \<Rightarrow> string \<Rightarrow> js_error + jsval" where
  "get_prop Undefined k = Inl TypeError"
| "get_prop Null k = Inl TypeError"
| "get_prop (Obj ps) k = Inr (case map_of ps k of Some v \<Rightarrow> v | None \<Rightarrow> Undefined)"
| "get_prop v k = Inr Undefined"

text \<open>Optional chaining \<open>v?.k\<close>.\<close>

fun get_opt :: "jsval \<Rightarrow> string \<Rightarrow> jsval" where
  "get_opt (Obj ps) k = (case map_of ps k of Some v \<Rightarrow> v | None \<Rightarrow> Undefined)"
| "get_opt v k = Undefined"

fun nullish :: "jsval \<Rightarrow> bool" where
  "nullish Undefined = True"
| "nullish Null = True"
| "nullish v = False"

fun truthy :: "jsval \<Rightarrow> bool" where
  "truthy Undefined = False"
| "truthy Null = False"
| "truthy (Bool b) = b"
| "truthy (Num (Fin x)) = (x \<noteq> 0)"
| "truthy (Num NaN) = False"
| "truthy (Num v) = True"
| "truthy (Str s) = (s \<noteq> [])"
| "truthy v = True"

text \<open>
  \<open>String(v)\<close>. An array joins its elements with commas, \<open>null\<close> and \<open>undefined\<close>
  elements as empty strings. An object prints as \<open>[object Object]\<close>, unless it has a property
  \<open>toString\<close> of its own: that one is no function, so the conversion throws.
\<close>

fun ToString :: "jsval \<Rightarrow> js_error + string"
  and join_elements :: "jsval list \<Rightarrow> js_error + string" where
  "ToString Undefined = Inr ''undefined''"
| "ToString Null = Inr ''null''"
| "ToString (Bool b) = Inr (if b then ''true'' else ''false'')"
| "ToString (Num x) = Inr (Number_toString x)"
| "ToString (Str s) = Inr s"
| "ToString (Arr xs) = join_elements xs"
| "ToString (Obj ps) =
     (if map_of ps ''toString'' = None then Inr ''[object Object]'' else Inl TypeError)"
| "join_elements [] = Inr []"
| "join_elements (x # xs) =
     andThen (if nullish x then Inr [] else ToString x) (\<lambda>a.
       if xs = [] then Inr a
       else andThen (join_elements xs) (\<lambda>b. Inr (a @ '','' @ b)))"

text \<open>\<open>Number(v)\<close>; an array or object is converted through its string.\<close>

fun ToNumber :: "jsval \<Rightarrow> js_error + jsnum" where
  "ToNumber Undefined = Inr NaN"
| "ToNumber Null = Inr (Fin 0)"
| "ToNumber (Bool b) = Inr (Fin (if b then 1 else 0))"
| "ToNumber (Num x) = Inr x"
| "ToNumber (Str s) = Inr (StringToNumber s)"
| "ToNumber v = andThen (ToString v) (\<lambda>s. Inr (StringToNumber s))"

text \<open>The method call \<open>v.toLowerCase()\<close>: only a string has the method.\<close>

fun call_toLowerCase :: "jsval \<Rightarrow> js_error + string" where
  "call_toLowerCase (Str s) = Inr (toLowerCase s)"
| "call_toLowerCase v = Inl TypeError"

section \<open>Nutrient extraction\<close>

subsection \<open>findNutrient\<close>

text \<open>
  The test made on one element \<open>n\<close> of the list: its code is
  \<open>String(n.nutrientNumber ?? n.number ?? '').trim()\<close>, its name
  \<open>String(n.nutrientName ?? n.name ?? '').trim()\<close>, and some key has to equal the code
  or, both in lower case, the name.
\<close>

definition nutrient_text :: "jsval \<Rightarrow> string \<Rightarrow> string \<Rightarrow> js_error + string" where
  "nutrient_text n k1 k2 =
     andThen (get_prop n k1) (\<lambda>a.
     andThen (if nullish a then get_prop n k2 else Inr a) (\<lambda>b.
     andThen (ToString (if nullish b then Str [] else b)) (\<lambda>s.
     Inr (trim s))))"

definition nutrient_matches :: "jsval \<Rightarrow> string list \<Rightarrow> js_error + bool" where
  "nutrient_matches n idsOrNames =
     andThen (nutrient_text n ''nutrientNumber'' ''number'') (\<lambda>number.
     andThen (nutrient_text n ''nutrientName'' ''name'') (\<lambda>name.
     Inr (list_ex (\<lambda>key. key = number \<or> toLowerCase key = toLowerCase name) idsOrNames)))"

fun findNutrient_loop :: "jsval list \<Rightarrow> string list \<Rightarrow> js_error + jsval" where
  "findNutrient_loop [] idsOrNames = Inr Null"
| "findNutrient_loop (n # ns) idsOrNames =
     andThen (nutrient_matches n idsOrNames) (\<lambda>m.
       if m then Inr n else findNutrient_loop ns idsOrNames)"

text \<open>The \<open>catch\<close> clause turns any exception of the loop into \<open>null\<close>.\<close>

definition findNutrient :: "jsval list \<Rightarrow> string list \<Rightarrow> jsval" where
  "findNutrient nutrients idsOrNames =
     (case findNutrient_loop nutrients idsOrNames of Inl e \<Rightarrow> Null | Inr v \<Rightarrow> v)"

subsection \<open>getEnergyKcal and getNutrientGrams\<close>

text \<open>\<open>(match.unitName || match.unit || '').toLowerCase()\<close>\<close>

definition unit_of :: "jsval \<Rightarrow> js_error + string" where
  "unit_of match =
     andThen (get_prop match ''unitName'') (\<lambda>a.
     andThen (if truthy a then Inr a else get_prop match ''unit'') (\<lambda>b.
     call_toLowerCase (if truthy b then b else Str [])))"

text \<open>\<open>typeof match.value === 'number' ? match.value : Number(match.value)\<close>\<close>

definition value_of :: "jsval \<Rightarrow> js_error + jsnum" where
  "value_of match =
     andThen (get_prop match ''value'') (\<lambda>v.
       case v of Num x \<Rightarrow> Inr x | _ \<Rightarrow> ToNumber v)"

definition getEnergyKcal_body :: "jsval list \<Rightarrow> js_error + jsval" where
  "getEnergyKcal_body nutrients =
     (let match = findNutrient nutrients [''1008'', ''Energy'']
      in if \<not> truthy match then Inr Null
         else andThen (unit_of match) (\<lambda>unit.
              andThen (value_of match) (\<lambda>v.
                if \<not> isFinite v then Inr Null
                else if unit = ''kj''
                  then Inr (Num (Number_toFixed 1 (js_div v (toDouble (4184 / 1000)))))
                else Inr (Num (Number_toFixed 1 v)))))"

definition getEnergyKcal :: "jsval list \<Rightarrow> jsval" where
  "getEnergyKcal nutrients =
     (case getEnergyKcal_body nutrients of Inl e \<Rightarrow> Null | Inr r \<Rightarrow> r)"

definition getNutrientGrams_body :: "jsval list \<Rightarrow> string list \<Rightarrow> js_error + jsval" where
  "getNutrientGrams_body nutrients idsOrNames =
     (let match = findNutrient nutrients idsOrNames
      in if \<not> truthy match then Inr Null
         else andThen (unit_of match) (\<lambda>unit.
              andThen (value_of match) (\<lambda>v.
                if \<not> isFinite v then Inr Null
                else if unit = ''mg''
                  then Inr (Num (Number_toFixed 2 (js_div v (Fin 1000))))
                else Inr (Num (Number_toFixed 2 v)))))"

definition getNutrientGrams :: "jsval list \<Rightarrow> string list \<Rightarrow> jsval" where
  "getNutrientGrams nutrients idsOrNames =
     (case getNutrientGrams_body nutrients idsOrNames of Inl e \<Rightarrow> Null | Inr r \<Rightarrow> r)"

subsection \<open>The food record normalizer\<close>

text \<open>The alias lists the normalizer passes for the three macronutrients.\<close>

definition protein_ids :: "string list" where
  "protein_ids = [''1003'', ''Protein'']"

definition fat_ids :: "string list" where
  "fat_ids = [''1004'', ''Total lipid (fat)'', ''Total Fat'']"

definition carbs_ids :: "string list" where
  "carbs_ids = [''1005'', ''Carbohydrate, by difference'', ''Carbohydrate'']"

record macros =
  protein_g :: jsval
  carbs_g :: jsval
  fat_g :: jsval

record NormalizedFood =
  fdcId :: jsval
  description :: jsval
  brandName :: jsval
  servingSize :: jsval
  servingSizeUnit :: jsval
  calories :: jsval
  macros :: macros

text \<open>\<open>a ?? b\<close>\<close>

definition coalesce :: "jsval \<Rightarrow> jsval \<Rightarrow> jsval" where
  "coalesce a b = (if nullish a then b else a)"

text \<open>
  The callback of \<open>foods.map\<close>. Nothing in its \<open>try\<close> block throws (the extractors
  catch their own exceptions, and the item is read with \<open>?.\<close>), so it returns a record
  for every item and the filter that follows removes nothing.
\<close>

text \<open>\<open>Array.isArray(item?.foodNutrients) ? item.foodNutrients : []\<close>\<close>

definition food_nutrients :: "jsval \<Rightarrow> jsval list" where
  "food_nutrients item = (case get_opt item ''foodNutrients'' of Arr xs \<Rightarrow> xs | _ \<Rightarrow> [])"

definition normalize_item :: "jsval \<Rightarrow> NormalizedFood" where
  "normalize_item item =
     (let nutrients = food_nutrients item;
          cal = getEnergyKcal nutrients;
          protein = getNutrientGrams nutrients protein_ids;
          fat = getNutrientGrams nutrients fat_ids;
          carbs = getNutrientGrams nutrients carbs_ids
      in \<lparr> fdcId = coalesce (get_opt item ''fdcId'') Null,
           description = coalesce (get_opt item ''description'') Null,
           brandName = coalesce (coalesce (get_opt item ''brandName'') (get_opt item ''brandOwner'')) Null,
           servingSize = coalesce (get_opt item ''servingSize'') Null,
           servingSizeUnit = coalesce (get_opt item ''servingSizeUnit'') Null,
           calories = cal,
           macros = \<lparr> protein_g = protein, carbs_g = carbs, fat_g = fat \<rparr> \<rparr>)"

section \<open>The handler of GET /foods\<close>

text \<open>
  The model covers the route handler and the error handler behind it. The rate limiter in
  front of the route and the time stamp of an error response are left out.
\<close>

subsection \<open>Errors and responses\<close>

text \<open>
  The error classes of the program, each with the fields its constructor stores.
  \<open>RuntimeError\<close> stands for any other exception, with its message.
\<close>

datatype app_error =
    ValidationError string
  | ConfigurationError string
  | NetworkError string "string option"
  | ParsingError string "string option"
  | UpstreamAPIError string int jsval
  | FoodTypeError string
  | RuntimeError string

fun error_message :: "app_error \<Rightarrow> string" where
  "error_message (ValidationError m) = m"
| "error_message (ConfigurationError m) = m"
| "error_message (NetworkError m orig) = m"
| "error_message (ParsingError m orig) = m"
| "error_message (UpstreamAPIError m s b) = m"
| "error_message (FoodTypeError m) = m"
| "error_message (RuntimeError m) = m"

fun error_name :: "app_error \<Rightarrow> string" where
  "error_name (ValidationError m) = ''ValidationError''"
| "error_name (ConfigurationError m) = ''ConfigurationError''"
| "error_name (NetworkError m orig) = ''NetworkError''"
| "error_name (ParsingError m orig) = ''ParsingError''"
| "error_name (UpstreamAPIError m s b) = ''UpstreamAPIError''"
| "error_name (FoodTypeError m) = ''FoodTypeError''"
| "error_name (RuntimeError m) = ''Error''"

text \<open>The \<open>statusCode\<close> each constructor sets.\<close>

fun statusCode :: "app_error \<Rightarrow> int" where
  "statusCode (ValidationError m) = 400"
| "statusCode (ConfigurationError m) = 500"
| "statusCode (NetworkError m orig) = 503"
| "statusCode (ParsingError m orig) = 422"
| "statusCode (UpstreamAPIError m upstreamStatus b) =
     (if 500 \<le> upstreamStatus then 503 else upstreamStatus)"
| "statusCode (FoodTypeError m) = 400"
| "statusCode (RuntimeError m) = 500"

record error_json =
  err_error :: string
  err_type :: string
  upstream_status :: "int option"
  upstream_details :: "jsval option"
  original_error :: "string option"

record foods_json =
  res_query :: string
  res_limit :: jsnum
  res_count :: nat
  res_foods :: "NormalizedFood list"

text \<open>
  What a response carries: the envelope of the foods, the JSON of an error, nothing at
  all, or the error page that the framework writes by itself.
\<close>

datatype response_body = Foods foods_json | Failure error_json | NoBody | ErrorPage

record response =
  status :: int
  body :: response_body

text \<open>
  \<open>res.status(code).json(b)\<close>. The framework sends no body with the status 204, 205
  or 304, and the HTTP server none with an interim status (100 to 199). A code that is no
  status code (below 100 or above 999) makes the server throw, and the framework's last
  handler answers 500 with its own error page.
\<close>

definition status_json :: "int \<Rightarrow> response_body \<Rightarrow> response" where
  "status_json code b =
     (if code < 100 \<or> 999 < code then \<lparr> status = 500, body = ErrorPage \<rparr>
      else if code \<le> 199 \<or> code = 204 \<or> code = 205 \<or> code = 304
        then \<lparr> status = code, body = NoBody \<rparr>
      else \<lparr> status = code, body = b \<rparr>)"

text \<open>
  The global error handler: a response with the status code of the error and its
  message, its name and the extra fields of its class; any other exception gives 500.
\<close>

fun error_response :: "app_error \<Rightarrow> response" where
  "error_response (RuntimeError m) =
     status_json 500
       (Failure \<lparr> err_error = m, err_type = ''InternalServerError'',
         upstream_status = None, upstream_details = None, original_error = None \<rparr>)"
| "error_response e =
     status_json (statusCode e)
       (Failure \<lparr> err_error = error_message e, err_type = error_name e,
         upstream_status = (case e of UpstreamAPIError m s b \<Rightarrow> Some s | _ \<Rightarrow> None),
         upstream_details =
           (case e of UpstreamAPIError m s b \<Rightarrow> if truthy b then Some b else None | _ \<Rightarrow> None),
         original_error =
           (case e of NetworkError m orig \<Rightarrow> orig | ParsingError m orig \<Rightarrow> orig | _ \<Rightarrow> None) \<rparr>)"

subsection \<open>Validation of the query parameters\<close>

text \<open>
  A request carries the query parameters \<open>type\<close> and \<open>limit\<close>, each absent or a
  string.
\<close>

record request =
  type_param :: "string option"
  limit_param :: "string option"

definition is_letter :: "char \<Rightarrow> bool" where
  "is_letter c =
     (let n = code_unit c in (65 \<le> n \<and> n \<le> 90) \<or> (97 \<le> n \<and> n \<le> 122))"

text \<open>The character classes \<open>\<bslash>w\<close> and \<open>[a-zA-Z0-9\<bslash>s\<bslash>-_]\<close> of the regular expressions.\<close>

definition is_word_char :: "char \<Rightarrow> bool" where
  "is_word_char c = (is_letter c \<or> is_digit c \<or> c = CHR ''_'')"

definition food_type_char :: "char \<Rightarrow> bool" where
  "food_type_char c =
     (is_letter c \<or> is_digit c \<or> is_white_space c \<or> c = CHR ''-'' \<or> c = CHR ''_'')"

text \<open>\<open>/^[a-zA-Z0-9\<bslash>s\<bslash>-_]+$/\<close>\<close>

definition matches_food_type :: "string \<Rightarrow> bool" where
  "matches_food_type s = (s \<noteq> [] \<and> list_all food_type_char s)"

text \<open>The comparison \<open>x <= y\<close> of two numbers, and \<open>Math.min\<close>.\<close>

fun js_le :: "jsnum \<Rightarrow> jsnum \<Rightarrow> bool" where
  "js_le NaN y = False"
| "js_le x NaN = False"
| "js_le NegInf y = True"
| "js_le x PosInf = True"
| "js_le (Fin a) (Fin b) = (a \<le> b)"
| "js_le x y = False"

fun js_min :: "jsnum \<Rightarrow> jsnum \<Rightarrow> jsnum" where
  "js_min NaN y = NaN"
| "js_min x NaN = NaN"
| "js_min x y = (if js_le x y then x else y)"

text \<open>
  The validator \<open>isInt({ min: 1, max: 50 })\<close> of the validation library: the string
  is an optional sign and digits, and as a number it lies between 1 and 50.
\<close>

definition isInt_1_50 :: "string \<Rightarrow> bool" where
  "isInt_1_50 s =
     ((let (sg, ds) = take_sign s in ds \<noteq> [] \<and> list_all is_digit ds) \<and>
      js_le (Fin 1) (StringToNumber s) \<and> js_le (StringToNumber s) (Fin 50))"

definition quoted :: "string \<Rightarrow> string" where
  "quoted s = [CHR 0x27] @ s @ [CHR 0x27]"

fun join_with :: "string \<Rightarrow> string list \<Rightarrow> string" where
  "join_with sep [] = []"
| "join_with sep [x] = x"
| "join_with sep (x # y # ys) = x @ sep @ join_with sep (y # ys)"

text \<open>
  The chain \<open>validateFoodsQuery\<close>, as the validation library runs it: \<open>type\<close> is
  trimmed (a missing one counts as empty) and has to be non-empty, of 1 to 100 characters
  and made of the allowed characters; \<open>limit\<close> is checked only when present. Every
  validator that fails adds its message.
\<close>

definition validateFoodsQuery :: "request \<Rightarrow> string list" where
  "validateFoodsQuery req =
     (let t = trim (case type_param req of None \<Rightarrow> [] | Some s \<Rightarrow> s)
      in (if t = [] then [''Missing required query parameter '' @ quoted ''type''] else []) @
         (if 1 \<le> length t \<and> length t \<le> 100 then []
          else [''Food type must be between 1 and 100 characters'']) @
         (if matches_food_type t then []
          else [''Food type can only contain letters, numbers, spaces, hyphens, and underscores'']) @
         (case limit_param req of
            None \<Rightarrow> []
          | Some l \<Rightarrow>
              if isInt_1_50 l then [] else [''Limit must be a number between 1 and 50'']))"

subsection \<open>The checks of the handler\<close>

text \<open>
  \<open>Number.parseInt(s, 10)\<close>: leading white space is skipped, then an optional sign and
  the longest run of digits are read; without a digit the result is \<open>NaN\<close>.
\<close>

definition parseInt10 :: "string \<Rightarrow> jsnum" where
  "parseInt10 s =
     (let (sg, r) = take_sign (dropWhile is_white_space s);
          ds = takeWhile is_digit r
      in if ds = [] then NaN else toDouble (of_int (sg * digits_value 10 ds)))"

text \<open>The three \<open>problematicPatterns\<close>: only digits, only special characters, reserved words.\<close>

definition only_digits :: "string \<Rightarrow> bool" where
  "only_digits q = (q \<noteq> [] \<and> list_all is_digit q)"

definition only_special :: "string \<Rightarrow> bool" where
  "only_special q = (q \<noteq> [] \<and> list_all (\<lambda>c. \<not> is_word_char c \<and> \<not> is_white_space c) q)"

definition reserved_word :: "string \<Rightarrow> bool" where
  "reserved_word q = (toLowerCase q \<in> set [''test'', ''debug'', ''admin'', ''system''])"

definition problematicPatterns :: "(string \<Rightarrow> bool) list" where
  "problematicPatterns = [only_digits, only_special, reserved_word]"

text \<open>
  The handler up to the call of the upstream API: validation errors, the API key, the
  limit, the food type. It yields the key, the query and the limit, or the error thrown.
\<close>

definition prepare :: "string option \<Rightarrow> request \<Rightarrow> app_error + (string \<times> string \<times> jsnum)" where
  "prepare usdaApiKey req =
     (let errors = validateFoodsQuery req
      in if errors \<noteq> [] then
           Inl (ValidationError (''Invalid request parameters: '' @ join_with '', '' errors))
         else if usdaApiKey = None \<or> usdaApiKey = Some [] then
           Inl (ConfigurationError
             ''Server misconfiguration: USDA API key is not configured. Please contact the administrator.'')
         else
           (case type_param req of
              None \<Rightarrow> Inl (RuntimeError ''Cannot read properties of undefined'')
            | Some t \<Rightarrow>
                (let query = trim t;
                     limitRaw = (case limit_param req of None \<Rightarrow> ''10'' | Some l \<Rightarrow> l);
                     limitParsed = parseInt10 limitRaw
                 in if \<not> isFinite limitParsed \<or> js_le limitParsed (Fin 0) then
                      Inl (ValidationError (''Invalid limit value: '' @ quoted limitRaw @
                        ''. Limit must be a positive number.''))
                    else
                      (let limit = js_min limitParsed (Fin 50)
                       in if query = [] then
                            Inl (FoodTypeError
                              ''Food type cannot be empty. Please provide a valid food type to search for.'')
                          else if length query < 2 then
                            Inl (FoodTypeError
                              ''Food type must be at least 2 characters long for meaningful search results.'')
                          else if list_ex (\<lambda>pattern. pattern query) problematicPatterns then
                            Inl (FoodTypeError (''Invalid food type: '' @ quoted query @
                              ''. Please provide a valid food name.''))
                          else Inr (the usdaApiKey, query, limit)))))"

subsection \<open>The upstream call\<close>

text \<open>
  What \<open>fetch\<close> does is given from outside: it rejects, with an \<open>Error\<close> (name and
  message) or with another value, or it resolves to a response, of which the model keeps
  the status and what \<open>response.json()\<close> gives: the parsed value, or the message of the
  exception it throws.
\<close>

record upstream_response =
  up_status :: int
  up_json :: "string + jsval"

datatype fetch_result = Rejected "(string \<times> string) option" | Resolved upstream_response

text \<open>\<open>response.ok\<close>\<close>

definition ok :: "int \<Rightarrow> bool" where
  "ok s = (200 \<le> s \<and> s \<le> 299)"

text \<open>\<open>s.includes(t)\<close>\<close>

fun string_includes :: "string \<Rightarrow> string \<Rightarrow> bool" where
  "string_includes [] t = (t = [])"
| "string_includes (c # s) t = (take (length t) (c # s) = t \<or> string_includes s t)"

definition network_error :: "(string \<times> string) option \<Rightarrow> app_error" where
  "network_error err =
     (case err of
        None \<Rightarrow>
          NetworkError ''Network error occurred while fetching food data. Please try again later.'' None
      | Some (name, msg) \<Rightarrow>
          if name = ''AbortError'' then
            NetworkError ''Request to USDA API timed out. Please try again later.'' (Some msg)
          else if name = ''TypeError'' \<and> string_includes msg ''fetch'' then
            NetworkError
              ''Failed to connect to USDA API. Please check your internet connection and try again.''
              (Some msg)
          else
            NetworkError ''Network error occurred while fetching food data. Please try again later.''
              (Some msg))"

text \<open>The table \<open>statusMessages\<close>, with the message for a status that is not in it.\<close>

definition statusMessages :: "(int \<times> string) list" where
  "statusMessages =
     [(400, ''Invalid request sent to USDA API''),
      (401, ''USDA API authentication failed''),
      (403, ''Access to USDA API denied''),
      (404, ''USDA API endpoint not found''),
      (429, ''USDA API rate limit exceeded''),
      (500, ''USDA API internal server error''),
      (502, ''USDA API gateway error''),
      (503, ''USDA API service unavailable''),
      (504, ''USDA API gateway timeout'')]"

definition status_message :: "int \<Rightarrow> string" where
  "status_message s =
     (case map_of statusMessages s of Some m \<Rightarrow> m | None \<Rightarrow> ''USDA API error occurred'')"

text \<open>\<open>typeof v\<close>\<close>

fun typeof :: "jsval \<Rightarrow> string" where
  "typeof Undefined = ''undefined''"
| "typeof Null = ''object''"
| "typeof (Bool b) = ''boolean''"
| "typeof (Num x) = ''number''"
| "typeof (Str s) = ''string''"
| "typeof (Arr xs) = ''object''"
| "typeof (Obj ps) = ''object''"

text \<open>\<open>Array.isArray(data?.foods) ? data.foods : []\<close>\<close>

definition response_foods :: "jsval \<Rightarrow> jsval list" where
  "response_foods data = (case get_opt data ''foods'' of Arr xs \<Rightarrow> xs | _ \<Rightarrow> [])"

text \<open>The handler after \<open>fetch\<close> has resolved.\<close>

definition handle_upstream :: "string \<Rightarrow> jsnum \<Rightarrow> upstream_response \<Rightarrow> app_error + foods_json" where
  "handle_upstream query limit r =
     (if \<not> ok (up_status r) then
        Inl (UpstreamAPIError (status_message (up_status r)) (up_status r)
          (case up_json r of
             Inl e \<Rightarrow> Obj [(''message'', Str ''Unknown upstream error'')]
           | Inr errorBody \<Rightarrow> errorBody))
      else
        (case up_json r of
           Inl e \<Rightarrow>
             Inl (ParsingError
               ''Failed to parse response from USDA API. The response format is invalid.'' (Some e))
         | Inr data \<Rightarrow>
             if \<not> truthy data \<or> typeof data \<noteq> ''object'' then
               Inl (ParsingError
                 ''Invalid response format from USDA API. Expected an object but received invalid data.''
                 None)
             else
               (let foods = response_foods data;
                    normalized = map normalize_item foods
                in Inr \<lparr> res_query = query, res_limit = limit,
                         res_count = length normalized, res_foods = normalized \<rparr>)))"

text \<open>
  The route handler with the error handler: \<open>fetch\<close> is called with the API key, the
  query and the page size \<open>String(limit)\<close>.
\<close>

definition foods_handler ::
  "string option \<Rightarrow> (string \<Rightarrow> string \<Rightarrow> string \<Rightarrow> fetch_result) \<Rightarrow> request \<Rightarrow> response" where
  "foods_handler usdaApiKey fetch req =
     (case prepare usdaApiKey req of
        Inl e \<Rightarrow> error_response e
      | Inr (key, query, limit) \<Rightarrow>
          (case fetch key query (Number_toString limit) of
             Rejected err \<Rightarrow> error_response (network_error err)
           | Resolved r \<Rightarrow>
               (case handle_upstream query limit r of
                  Inl e \<Rightarrow> error_response e
                | Inr result \<Rightarrow> status_json 200 (Foods result))))"

section \<open>The specification's reading of a nutrient record\<close>

text \<open>
  A raw nutrient record is an object whose code and name (\<open>nutrientNumber\<close> or
  \<open>number\<close>, \<open>nutrientName\<close> or \<open>name\<close>) and whose \<open>value\<close> are primitive
  or absent, and whose unit (\<open>unitName\<close> or \<open>unit\<close>) is a string, \<open>null\<close> or absent.
\<close>

fun primitive :: "jsval \<Rightarrow> bool" where
  "primitive (Arr xs) = False"
| "primitive (Obj ps) = False"
| "primitive v = True"

fun string_or_absent :: "jsval \<Rightarrow> bool" where
  "string_or_absent Undefined = True"
| "string_or_absent Null = True"
| "string_or_absent (Str s) = True"
| "string_or_absent v = False"

fun nutrient_record :: "jsval \<Rightarrow> bool" where
  "nutrient_record (Obj ps) =
     (primitive (get_opt (Obj ps) ''nutrientNumber'') \<and> primitive (get_opt (Obj ps) ''number'') \<and>
      primitive (get_opt (Obj ps) ''nutrientName'') \<and> primitive (get_opt (Obj ps) ''name'') \<and>
      string_or_absent (get_opt (Obj ps) ''unitName'') \<and>
      string_or_absent (get_opt (Obj ps) ''unit'') \<and>
      primitive (get_opt (Obj ps) ''value''))"
| "nutrient_record v = False"

definition text_of :: "jsval \<Rightarrow> string" where
  "text_of v = (case ToString v of Inr s \<Rightarrow> s | Inl e \<Rightarrow> [])"

text \<open>The trimmed code and the trimmed name of a record.\<close>

definition record_code :: "jsval \<Rightarrow> string" where
  "record_code n =
     trim (text_of (coalesce (coalesce (get_opt n ''nutrientNumber'') (get_opt n ''number'')) (Str [])))"

definition record_name :: "jsval \<Rightarrow> string" where
  "record_name n =
     trim (text_of (coalesce (coalesce (get_opt n ''nutrientName'') (get_opt n ''name'')) (Str [])))"

text \<open>
  A record matches a set of identifiers when its code equals one of them exactly or its
  name equals one of them up to case.
\<close>

definition record_matches :: "string list \<Rightarrow> jsval \<Rightarrow> bool" where
  "record_matches ids n =
     (\<exists>key \<in> set ids. key = record_code n \<or> toLowerCase key = toLowerCase (record_name n))"

text \<open>
  The unit of a record: \<open>unitName\<close>, else \<open>unit\<close>, else the empty string.
  Its value: the \<open>value\<close> field as a number.
\<close>

definition record_unit :: "jsval \<Rightarrow> string" where
  "record_unit n =
     (let a = get_opt n ''unitName'';
          b = (if truthy a then a else get_opt n ''unit'')
      in case b of Str s \<Rightarrow> s | _ \<Rightarrow> [])"

definition record_value :: "jsval \<Rightarrow> jsnum" where
  "record_value n =
     (case get_opt n ''value'' of
        Num x \<Rightarrow> x
      | v \<Rightarrow> (case ToNumber v of Inr x \<Rightarrow> x | Inl e \<Rightarrow> NaN))"

text \<open>
  A number that comes out of \<open>response.json()\<close> is a double: finite ones lie below
  \<open>2^1024\<close> in magnitude. \<open>double_value n\<close> says so of the \<open>value\<close> of a record.
\<close>

definition double_limit :: rat where
  "double_limit = 2 ^ 1024"

definition double_value :: "jsval \<Rightarrow> bool" where
  "double_value n =
     (case get_opt n ''value'' of Num (Fin a) \<Rightarrow> \<bar>a\<bar> < double_limit | _ \<Rightarrow> True)"

text \<open>
  A field of the normalized food that is \<open>null\<close> or a finite number rounded to \<open>d\<close>
  decimal places: the double nearest to a decimal \<open>k / 10^d\<close>, or a double from
  \<open>10^21\<close> on, which has no fractional part and which \<open>toFixed\<close> leaves as it is.
\<close>

definition rounded_or_null :: "nat \<Rightarrow> jsval \<Rightarrow> bool" where
  "rounded_or_null d v =
     (v = Null \<or>
      (\<exists>r. v = Num (Fin r) \<and> ((\<exists>k::int. toDouble (of_int k / 10 ^ d) = Fin r) \<or> 10 ^ 21 \<le> \<bar>r\<bar>)))"

text \<open>The record \<open>m\<close> with its \<open>value\<close> replaced by \<open>v\<close>.\<close>

fun with_value :: "jsval \<Rightarrow> jsval \<Rightarrow> jsval" where
  "with_value (Obj ps) v = Obj ((''value'', v) # filter (\<lambda>p. fst p \<noteq> ''value'') ps)"
| "with_value m v = m"

text \<open>The limit of a request that has passed validation: 10 when none is given.\<close>

definition limit_of :: "request \<Rightarrow> jsnum" where
  "limit_of req = (case limit_param req of None \<Rightarrow> Fin 10 | Some l \<Rightarrow> StringToNumber l)"

text \<open>
  An object in the sense of JSON, and a value that the test of the handler lets pass:
  \<open>typeof\<close> calls it an object and it is not \<open>null\<close>, so it is a JSON object or
  a JSON array.
\<close>

fun json_object :: "jsval \<Rightarrow> bool" where
  "json_object (Obj ps) = True"
| "json_object v = False"

fun object_or_array :: "jsval \<Rightarrow> bool" where
  "object_or_array (Arr xs) = True"
| "object_or_array (Obj ps) = True"
| "object_or_array v = False"

text \<open>The \<open>type\<close> of an error response; none for any other response.\<close>

definition response_error_type :: "response \<Rightarrow> string option" where
  "response_error_type r = (case body r of Failure ej \<Rightarrow> Some (err_type ej) | _ \<Rightarrow> None)"

text \<open>
  Two strings are equal up to case when they have the same length and, place by place,
  the same character or a capital letter and its small letter (32 code units above).
\<close>

definition same_letter :: "char \<Rightarrow> char \<Rightarrow> bool" where
  "same_letter a b =
     (a = b \<or> (is_upper a \<and> code_unit b = code_unit a + 32) \<or>
      (is_upper b \<and> code_unit a = code_unit b + 32))"

definition equal_ignoring_case :: "string \<Rightarrow> string \<Rightarrow> bool" where
  "equal_ignoring_case s t = list_all2 same_letter s t"

text \<open>White space only, and a text with no white space at either end.\<close>

definition blank :: "string \<Rightarrow> bool" where
  "blank s = list_all is_white_space s"

definition tight :: "string \<Rightarrow> bool" where
  "tight s = (s = [] \<or> (\<not> is_white_space (hd s) \<and> \<not> is_white_space (last s)))"
section \<open>Example records\<close>

definition energy_100_kJ :: jsval where
  "energy_100_kJ =
     Obj [(''nutrientNumber'', Str ''1008''), (''nutrientName'', Str ''Energy''),
          (''unitName'', Str ''kJ''), (''value'', Num (Fin 100))]"

definition protein_500_mg :: jsval where
  "protein_500_mg =
     Obj [(''nutrientNumber'', Str ''1003''), (''nutrientName'', Str ''Protein''),
          (''unitName'', Str ''mg''), (''value'', Num (Fin 500))]"

definition fiber_2_g :: jsval where
  "fiber_2_g =
     Obj [(''number'', Str ''1079''), (''name'', Str ''Fiber, total dietary''),
          (''unit'', Str ''g''), (''value'', Num (Fin 2))]"

definition energy_95_text :: jsval where
  "energy_95_text =
     Obj [(''nutrientName'', Str ''Energy''), (''unitName'', Str ''kcal''),
          (''value'', Str ''95'')]"

definition energy_no_number :: jsval where
  "energy_no_number =
     Obj [(''nutrientName'', Str ''Energy''), (''unitName'', Str ''kcal''),
          (''value'', Str ''n/a'')]"

definition protein_500_text :: jsval where
  "protein_500_text =
     Obj [(''number'', Str ''1003''), (''unit'', Str ''MG''), (''value'', Str ''500'')]"

definition protein_no_number :: jsval where
  "protein_no_number =
     Obj [(''number'', Str ''1003''), (''unit'', Str ''g''), (''value'', Str ''trace'')]"

definition energy_418_KJ :: jsval where
  "energy_418_KJ =
     Obj [(''name'', Str ''energy''), (''unitName'', Str ''''), (''unit'', Str ''KJ''),
          (''value'', Num (Fin 418))]"

text \<open>
  A record whose code and name stand between white space (a tab and blanks), the name in
  capitals; a record whose code is a number; a record whose code is a name in small
  letters.
\<close>

definition protein_padded :: jsval where
  "protein_padded =
     Obj [(''nutrientNumber'', Str (CHR 0x09 # '' 1003  '')),
          (''nutrientName'', Str (''  PROTEIN '' @ [CHR 0x0A])),
          (''unitName'', Str ''g''), (''value'', Num (Fin 12))]"

definition fat_numeric_code :: jsval where
  "fat_numeric_code =
     Obj [(''number'', Num (Fin 1004)), (''name'', Str ''total LIPID (fat)''),
          (''unitName'', Str ''G''), (''value'', Num (Fin (19 / 8)))]"

definition code_in_small_letters :: jsval where
  "code_in_small_letters =
     Obj [(''nutrientNumber'', Str ''protein''), (''unitName'', Str ''g''),
          (''value'', Num (Fin 1))]"

definition carbs_1234_mg :: jsval where
  "carbs_1234_mg =
     Obj [(''nutrientNumber'', Str ''1005''), (''nutrientName'', Str ''Carbohydrate, by difference''),
          (''unitName'', Str ''MG''), (''value'', Num (Fin 1234))]"

definition food_without_macros :: jsval where
  "food_without_macros =
     Obj [(''fdcId'', Num (Fin 7)), (''description'', Str ''Water''),
          (''foodNutrients'', Arr [fiber_2_g])]"

definition food_with_energy :: jsval where
  "food_with_energy =
     Obj [(''fdcId'', Num (Fin 8)), (''description'', Str ''Bar''),
          (''foodNutrients'', Arr [energy_100_kJ, protein_500_mg])]"

text \<open>An upstream that answers every call with the given status and body.\<close>

definition upstream_answers :: "int \<Rightarrow> string + jsval \<Rightarrow> string \<Rightarrow> string \<Rightarrow> string \<Rightarrow> fetch_result" where
  "upstream_answers s b key query pageSize = Resolved \<lparr> up_status = s, up_json = b \<rparr>"

definition apple_foods :: jsval where
  "apple_foods = Obj [(''foods'', Arr [food_with_energy, food_without_macros])]"

definition apple_request :: request where
  "apple_request = \<lparr> type_param = Some ''apple'', limit_param = None \<rparr>"

definition apple_result :: foods_json where
  "apple_result =
     \<lparr> res_query = ''apple'', res_limit = Fin 10, res_count = 2,
       res_foods = [normalize_item food_with_energy, normalize_item food_without_macros] \<rparr>"

section \<open>Numbers: rounding stays in the range of the doubles\<close>

lemma pow2_power_int: "pow2 e = 2 powi e"
  by (simp add: pow2_def power_int_def field_simps)

lemma pow2_pos: "0 < pow2 e"
  by (simp add: pow2_power_int zero_less_power_int)

lemma pow2_mono: "e \<le> f \<Longrightarrow> pow2 e \<le> pow2 f"
  by (simp add: pow2_power_int power_int_increasing)

lemma pow2_diff: "pow2 (e - f) = pow2 e / pow2 f"
  by (simp add: pow2_power_int power_int_diff)

lemma bit_length_nonneg: "0 \<le> bit_length k"
proof (induction k rule: bit_length.induct)
  case (1 k)
  show ?case
  proof (cases "k \<le> 0")
    case True
    then show ?thesis by (simp add: bit_length.simps)
  next
    case False
    with "1.IH" have "0 \<le> bit_length (k div 2)" by simp
    with False show ?thesis by (simp add: bit_length.simps [of k])
  qed
qed

lemma bit_length_pos: "0 < k \<Longrightarrow> 0 < bit_length k"
  using bit_length_nonneg [of "k div 2"] by (simp add: bit_length.simps [of k])

lemma bit_length_upper: "0 < k \<Longrightarrow> k < 2 ^ nat (bit_length k)"
proof (induction k rule: bit_length.induct)
  case (1 k)
  from "1.prems" have eq: "bit_length k = 1 + bit_length (k div 2)"
    by (simp add: bit_length.simps [of k])
  have nn: "0 \<le> bit_length (k div 2)" by (rule bit_length_nonneg)
  have pw: "(2::int) ^ nat (1 + bit_length (k div 2)) = 2 * 2 ^ nat (bit_length (k div 2))"
    using nn by (simp add: nat_add_distrib)
  show ?case
  proof (cases "0 < k div 2")
    case True
    with "1.IH" "1.prems" have "k div 2 < 2 ^ nat (bit_length (k div 2))" by simp
    then have "k < 2 * 2 ^ nat (bit_length (k div 2))" by linarith
    then show ?thesis by (simp only: eq pw)
  next
    case False
    with "1.prems" have "k = 1" by linarith
    then show ?thesis by (simp add: bit_length.simps [of 1] bit_length.simps [of 0])
  qed
qed

lemma bit_length_lower: "0 < k \<Longrightarrow> 2 ^ nat (bit_length k - 1) \<le> k"
proof (induction k rule: bit_length.induct)
  case (1 k)
  from "1.prems" have eq: "bit_length k = 1 + bit_length (k div 2)"
    by (simp add: bit_length.simps [of k])
  show ?case
  proof (cases "0 < k div 2")
    case True
    with "1.IH" "1.prems" have ih: "2 ^ nat (bit_length (k div 2) - 1) \<le> k div 2" by simp
    from True have "0 < bit_length (k div 2)" by (rule bit_length_pos)
    then have "nat (bit_length (k div 2)) = Suc (nat (bit_length (k div 2) - 1))" by simp
    then have "(2::int) ^ nat (bit_length (k div 2)) = 2 * 2 ^ nat (bit_length (k div 2) - 1)"
      by simp
    also have "\<dots> \<le> 2 * (k div 2)" using ih by simp
    also have "\<dots> \<le> k" by linarith
    finally show ?thesis by (simp add: eq)
  next
    case False
    with "1.prems" have "k = 1" by linarith
    then show ?thesis by (simp add: bit_length.simps [of 1] bit_length.simps [of 0])
  qed
qed

lemma bit_length_le: "k < 2 ^ n \<Longrightarrow> bit_length k \<le> int n"
proof (induction n arbitrary: k)
  case 0
  then show ?case by (simp add: bit_length.simps [of k])
next
  case (Suc n)
  show ?case
  proof (cases "k \<le> 0")
    case True
    then show ?thesis by (simp add: bit_length.simps [of k])
  next
    case False
    from Suc.prems have "k div 2 < 2 ^ n" by simp
    then have "bit_length (k div 2) \<le> int n" by (rule Suc.IH)
    with False show ?thesis by (simp add: bit_length.simps [of k])
  qed
qed

lemma binade_less:
  assumes "0 < a" "a < 2 ^ n" "0 < n"
  shows "binade a < int n"
proof (cases "1 \<le> a")
  case True
  from assms(2) have "\<lfloor>a\<rfloor> < 2 ^ n" by (simp add: floor_less_iff)
  then have "bit_length \<lfloor>a\<rfloor> \<le> int n" by (rule bit_length_le)
  with True show ?thesis by (simp add: binade_def)
next
  case False
  have "0 \<le> bit_length (\<lceil>1 / a\<rceil> - 1)" by (rule bit_length_nonneg)
  with False assms(3) show ?thesis by (simp add: binade_def)
qed

lemma binade_upper:
  assumes "0 < a"
  shows "a < pow2 (binade a + 1)"
proof (cases "1 \<le> a")
  case True
  then have f: "0 < \<lfloor>a\<rfloor>" by simp
  from bit_length_upper [OF f] have "\<lfloor>a\<rfloor> + 1 \<le> 2 ^ nat (bit_length \<lfloor>a\<rfloor>)" by simp
  then have "(of_int (\<lfloor>a\<rfloor> + 1) :: rat) \<le> of_int (2 ^ nat (bit_length \<lfloor>a\<rfloor>))"
    by (simp only: of_int_le_iff)
  moreover have "a < of_int (\<lfloor>a\<rfloor> + 1)" by (rule floor_correct [THEN conjunct2])
  ultimately have "a < 2 ^ nat (bit_length \<lfloor>a\<rfloor>)" by simp
  moreover have "pow2 (binade a + 1) = 2 ^ nat (bit_length \<lfloor>a\<rfloor>)"
    using True bit_length_nonneg [of "\<lfloor>a\<rfloor>"] by (simp add: binade_def pow2_def)
  ultimately show ?thesis by simp
next
  case False
  let ?k = "\<lceil>1 / a\<rceil> - 1"
  let ?b = "bit_length ?k"
  from False assms have "1 < 1 / a" by simp
  then have k: "0 < ?k" by (simp add: less_ceiling_iff)
  then have b: "0 < ?b" by (rule bit_length_pos)
  from bit_length_lower [OF k] have "(of_int (2 ^ nat (?b - 1)) :: rat) \<le> of_int ?k"
    by (simp only: of_int_le_iff)
  moreover have "of_int ?k < 1 / a"
    using ceiling_correct [of "1 / a"] by simp
  ultimately have "2 ^ nat (?b - 1) < 1 / a" by simp
  then have "a * 2 ^ nat (?b - 1) < 1" using assms by (simp add: field_simps)
  then have "a < 1 / 2 ^ nat (?b - 1)" by (simp add: field_simps)
  moreover have "pow2 (binade a + 1) = 1 / 2 ^ nat (?b - 1)"
  proof (cases "?b = 1")
    case True
    with False show ?thesis by (simp add: binade_def pow2_def)
  next
    case ne: False
    with b have "1 < ?b" by simp
    with False show ?thesis
      by (simp add: binade_def pow2_def)
  qed
  ultimately show ?thesis by simp
qed

lemma round_half_even_nonneg: "0 \<le> x \<Longrightarrow> 0 \<le> round_half_even x"
  by (simp add: round_half_even_def Let_def)

lemma round_half_even_le:
  assumes "x \<le> of_int N"
  shows "round_half_even x \<le> N"
proof (cases "x = of_int N")
  case True
  then show ?thesis by (simp add: round_half_even_def Let_def)
next
  case False
  with assms have "x < of_int N" by simp
  then have "\<lfloor>x\<rfloor> < N" by (simp add: floor_less_iff)
  then show ?thesis by (simp add: round_half_even_def Let_def)
qed

text \<open>The finite results of the rounding lie below \<open>2^1024\<close>.\<close>

lemma toDouble_below_2_1024:
  assumes "toDouble q = Fin r"
  shows "\<bar>r\<bar> < 2 ^ 1024"
proof (cases "q = 0")
  case True
  with assms show ?thesis by (simp add: toDouble_def)
next
  case False
  define a where "a = \<bar>q\<bar>"
  define e where "e = max (binade a) (- 1022)"
  define ulp where "ulp = pow2 (e - 52)"
  define m where "m = round_half_even (a / ulp)"
  from False have a: "0 < a" by (simp add: a_def)
  have ulp: "0 < ulp" by (simp add: ulp_def pow2_pos)
  from assms False have no: "\<not> (1024 \<le> e \<or> (e = 1023 \<and> m = 2 ^ 53))"
    and r: "r = (if 0 < q then 1 else - 1) * of_int m * ulp"
    by (auto simp add: toDouble_def Let_def a_def e_def ulp_def m_def split: if_splits)
  have m0: "0 \<le> m" using a ulp by (simp add: m_def round_half_even_nonneg)
  have "a < pow2 (binade a + 1)" using a by (rule binade_upper)
  also have "\<dots> \<le> pow2 (e + 1)" by (rule pow2_mono) (simp add: e_def)
  also have "\<dots> = 2 ^ 53 * ulp"
  proof -
    have "pow2 (e - 52) = pow2 (e + 1) / pow2 53"
      using pow2_diff [of "e + 1" 53] by simp
    then show ?thesis by (simp add: ulp_def pow2_def)
  qed
  finally have "a / ulp < 2 ^ 53" using ulp by (simp add: field_simps)
  then have "a / ulp \<le> of_int (2 ^ 53)" by simp
  then have m53: "m \<le> 2 ^ 53" unfolding m_def by (rule round_half_even_le)
  have abs_r: "\<bar>r\<bar> = of_int m * ulp"
    using m0 ulp by (simp add: r abs_mult)
  show ?thesis
  proof (cases "e = 1023")
    case True
    with no m53 have "m < 2 ^ 53" by simp
    then have "(of_int m :: rat) < of_int (2 ^ 53)" by (simp only: of_int_less_iff)
    then have "of_int m * ulp < 2 ^ 53 * ulp" using ulp by simp
    also have "\<dots> = 2 ^ 1024" using True by (simp add: ulp_def pow2_def)
    finally show ?thesis by (simp add: abs_r)
  next
    case ne: False
    with no have e: "e \<le> 1022" by simp
    from m53 have "(of_int m :: rat) \<le> of_int (2 ^ 53)" by (simp only: of_int_le_iff)
    then have "of_int m * ulp \<le> 2 ^ 53 * ulp" using ulp by simp
    also have "\<dots> = pow2 (e + 1)"
    proof -
      have "pow2 (e - 52) = pow2 (e + 1) / pow2 53"
        using pow2_diff [of "e + 1" 53] by simp
      then show ?thesis by (simp add: ulp_def pow2_def)
    qed
    also have "\<dots> \<le> pow2 1023" by (rule pow2_mono) (use e in simp)
    also have "\<dots> < 2 ^ 1024" by (simp add: pow2_def)
    finally show ?thesis by (simp add: abs_r)
  qed
qed

lemma double_limit_pos: "0 < double_limit" "1 < double_limit"
  by (simp_all add: double_limit_def)

lemma toDouble_range: "toDouble q = Fin r \<Longrightarrow> \<bar>r\<bar> < double_limit"
  using toDouble_below_2_1024 [of q r] by (simp add: double_limit_def)

lemma toDouble_finite:
  assumes "\<bar>q\<bar> < 2 ^ 1023"
  shows "\<exists>r. toDouble q = Fin r"
proof (cases "q = 0")
  case True
  then show ?thesis by (simp add: toDouble_def)
next
  case False
  then have "0 < \<bar>q\<bar>" by simp
  from binade_less [OF this assms] have "binade \<bar>q\<bar> < 1023" by simp
  then have e: "max (binade \<bar>q\<bar>) (- 1022) \<le> 1022" by simp
  show ?thesis
  proof (cases "0 < q")
    case True
    with e show ?thesis by (simp add: toDouble_def Let_def max_def split: if_splits)
  next
    case neg: False
    with False e show ?thesis by (simp add: toDouble_def Let_def max_def split: if_splits)
  qed
qed

lemma toFixed_value_bound: "\<bar>toFixed_value d x\<bar> \<le> \<bar>x\<bar> + 1 / 2"
proof -
  let ?p = "(10::rat) ^ d"
  have p: "0 < ?p" by simp
  have p1: "1 \<le> ?p" by simp
  have n0: "0 \<le> \<lfloor>\<bar>x\<bar> * ?p + 1 / 2\<rfloor>" by simp
  have "of_int \<lfloor>\<bar>x\<bar> * ?p + 1 / 2\<rfloor> \<le> \<bar>x\<bar> * ?p + 1 / 2" by (rule of_int_floor_le)
  then have "of_int \<lfloor>\<bar>x\<bar> * ?p + 1 / 2\<rfloor> / ?p \<le> (\<bar>x\<bar> * ?p + 1 / 2) / ?p"
    using p by (simp add: divide_right_mono)
  also have "\<dots> = \<bar>x\<bar> + (1 / 2) / ?p" using p by (simp add: add_divide_distrib)
  also have "\<dots> \<le> \<bar>x\<bar> + 1 / 2" using p1 by (simp add: field_simps)
  finally have b: "of_int \<lfloor>\<bar>x\<bar> * ?p + 1 / 2\<rfloor> / ?p \<le> \<bar>x\<bar> + 1 / 2" .
  have "\<bar>toFixed_value d x\<bar> = of_int \<lfloor>\<bar>x\<bar> * ?p + 1 / 2\<rfloor> / ?p"
    using n0 by (simp add: toFixed_value_def Let_def abs_mult)
  with b show ?thesis by simp
qed

lemma Number_toFixed_finite: "\<exists>r. Number_toFixed d (Fin x) = Fin r"
proof (cases "10 ^ 21 \<le> \<bar>x\<bar>")
  case True
  then show ?thesis by simp
next
  case False
  have "(10::rat) ^ 21 + 1 < 2 ^ 1023" by simp
  with False have "\<bar>toFixed_value d x\<bar> < 2 ^ 1023"
    using toFixed_value_bound [of d x] by linarith
  from toDouble_finite [OF this] False show ?thesis by simp
qed

lemma js_div_finite:
  assumes "\<bar>a\<bar> < double_limit" "2 \<le> c"
  shows "\<exists>r. js_div (Fin a) (Fin c) = Fin r"
proof -
  from assms(2) have c: "0 < c" by simp
  have "\<bar>a / c\<bar> = \<bar>a\<bar> / c" using c by simp
  also have "\<dots> \<le> \<bar>a\<bar> / 2" by (rule divide_left_mono) (use assms(2) in simp_all)
  also have "\<dots> < 2 ^ 1023" using assms(1) by (simp add: double_limit_def)
  finally have "\<bar>a / c\<bar> < 2 ^ 1023" .
  from toDouble_finite [OF this] c show ?thesis by simp
qed

section \<open>The locator on nutrient records\<close>

lemma ToString_primitive: "primitive v \<Longrightarrow> ToString v = Inr (text_of v)"
  by (cases v) (simp_all add: text_of_def)

lemma get_prop_Obj: "get_prop (Obj ps) k = Inr (get_opt (Obj ps) k)"
  by simp

lemma primitive_coalesce: "primitive a \<Longrightarrow> primitive b \<Longrightarrow> primitive (coalesce a b)"
  by (simp add: coalesce_def)

lemma nutrient_text_record:
  assumes "primitive (get_opt (Obj ps) k1)" "primitive (get_opt (Obj ps) k2)"
  shows "nutrient_text (Obj ps) k1 k2 =
    Inr (trim (text_of (coalesce (coalesce (get_opt (Obj ps) k1) (get_opt (Obj ps) k2)) (Str []))))"
proof -
  let ?a = "get_opt (Obj ps) k1" and ?b = "get_opt (Obj ps) k2"
  have p: "primitive (coalesce (coalesce ?a ?b) (Str []))"
    using assms by (simp add: primitive_coalesce)
  have "nutrient_text (Obj ps) k1 k2 =
      andThen (ToString (coalesce (coalesce ?a ?b) (Str []))) (\<lambda>s. Inr (trim s))"
    unfolding nutrient_text_def get_prop_Obj andThen_def coalesce_def
    by (simp del: get_opt.simps)
  also have "\<dots> = Inr (trim (text_of (coalesce (coalesce ?a ?b) (Str []))))"
    unfolding ToString_primitive [OF p] andThen_def by simp
  finally show ?thesis .
qed

lemma nutrient_matches_record:
  assumes "nutrient_record n"
  shows "nutrient_matches n ids = Inr (record_matches ids n)"
proof -
  from assms obtain ps where n: "n = Obj ps" by (cases n) simp_all
  from assms have c: "primitive (get_opt (Obj ps) ''nutrientNumber'')" "primitive (get_opt (Obj ps) ''number'')"
    and m: "primitive (get_opt (Obj ps) ''nutrientName'')" "primitive (get_opt (Obj ps) ''name'')"
    unfolding n by simp_all
  show ?thesis
    unfolding n nutrient_matches_def nutrient_text_record [OF c] nutrient_text_record [OF m]
    by (simp add: andThen_def record_matches_def record_code_def record_name_def list_ex_iff
        del: get_opt.simps)
qed

lemma findNutrient_loop_records:
  assumes "\<forall>n \<in> set ns. nutrient_record n"
  shows "findNutrient_loop ns ids =
    Inr (case find (record_matches ids) ns of Some n \<Rightarrow> n | None \<Rightarrow> Null)"
  using assms
  by (induction ns) (simp_all add: nutrient_matches_record andThen_def)

lemma findNutrient_records:
  assumes "\<forall>n \<in> set ns. nutrient_record n"
  shows "findNutrient ns ids = (case find (record_matches ids) ns of Some n \<Rightarrow> n | None \<Rightarrow> Null)"
  by (simp add: findNutrient_def findNutrient_loop_records [OF assms])

lemma unit_of_record:
  assumes "nutrient_record m"
  shows "unit_of m = Inr (toLowerCase (record_unit m))"
proof -
  from assms obtain ps where n: "m = Obj ps" by (cases m) simp_all
  from assms have u: "string_or_absent (get_opt (Obj ps) ''unitName'')"
    "string_or_absent (get_opt (Obj ps) ''unit'')"
    unfolding n by simp_all
  let ?a = "get_opt (Obj ps) ''unitName''" and ?b = "get_opt (Obj ps) ''unit''"
  have "unit_of m = call_toLowerCase (let b = (if truthy ?a then ?a else ?b) in if truthy b then b else Str [])"
    unfolding n unit_of_def get_prop_Obj by (simp add: andThen_def Let_def del: get_opt.simps)
  also have "\<dots> = Inr (toLowerCase (record_unit m))"
    using u unfolding n record_unit_def Let_def
    by (cases ?a; cases ?b) (simp_all add: toLowerCase_def del: get_opt.simps)
  finally show ?thesis .
qed

lemma value_of_record:
  assumes "nutrient_record m"
  shows "value_of m = Inr (record_value m)"
proof -
  from assms obtain ps where n: "m = Obj ps" by (cases m) simp_all
  from assms have v: "primitive (get_opt (Obj ps) ''value'')"
    unfolding n by simp
  show ?thesis
    using v unfolding n value_of_def record_value_def get_prop_Obj
    by (cases "get_opt (Obj ps) ''value''") (simp_all add: andThen_def del: get_opt.simps)
qed

section \<open>The extractors on nutrient records\<close>

lemma find_Some_set: "find P xs = Some x \<Longrightarrow> x \<in> set xs \<and> P x"
  by (induction xs) (auto split: if_splits)

lemma nutrient_record_truthy: "nutrient_record m \<Longrightarrow> truthy m"
  by (cases m) simp_all

lemma literal_4184: "toDouble (4184 / 1000) = Fin (4710765210229539 / 1125899906842624)"
  by code_simp

lemma getEnergyKcal_records:
  assumes "\<forall>n \<in> set ns. nutrient_record n"
  shows "getEnergyKcal ns =
    (case find (record_matches [''1008'', ''Energy'']) ns of
       None \<Rightarrow> Null
     | Some m \<Rightarrow>
         (case record_value m of
            Fin x \<Rightarrow>
              if toLowerCase (record_unit m) = ''kj''
              then Num (Number_toFixed 1 (js_div (Fin x) (toDouble (4184 / 1000))))
              else Num (Number_toFixed 1 (Fin x))
          | _ \<Rightarrow> Null))"
proof (cases "find (record_matches [''1008'', ''Energy'']) ns")
  case None
  then show ?thesis
    by (simp add: getEnergyKcal_def getEnergyKcal_body_def findNutrient_records [OF assms])
next
  case (Some m)
  then have "m \<in> set ns" by (simp add: find_Some_set)
  with assms have r: "nutrient_record m" by blast
  have f: "findNutrient ns [''1008'', ''Energy''] = m"
    by (simp add: findNutrient_records [OF assms] Some)
  show ?thesis
    unfolding getEnergyKcal_def getEnergyKcal_body_def f Let_def
    by (cases "record_value m")
      (simp_all add: Some nutrient_record_truthy [OF r] unit_of_record [OF r]
        value_of_record [OF r] andThen_def)
qed

lemma getNutrientGrams_records:
  assumes "\<forall>n \<in> set ns. nutrient_record n"
  shows "getNutrientGrams ns ids =
    (case find (record_matches ids) ns of
       None \<Rightarrow> Null
     | Some m \<Rightarrow>
         (case record_value m of
            Fin x \<Rightarrow>
              if toLowerCase (record_unit m) = ''mg''
              then Num (Number_toFixed 2 (js_div (Fin x) (Fin 1000)))
              else Num (Number_toFixed 2 (Fin x))
          | _ \<Rightarrow> Null))"
proof (cases "find (record_matches ids) ns")
  case None
  then show ?thesis
    by (simp add: getNutrientGrams_def getNutrientGrams_body_def findNutrient_records [OF assms])
next
  case (Some m)
  then have "m \<in> set ns" by (simp add: find_Some_set)
  with assms have r: "nutrient_record m" by blast
  have f: "findNutrient ns ids = m"
    by (simp add: findNutrient_records [OF assms] Some)
  show ?thesis
    unfolding getNutrientGrams_def getNutrientGrams_body_def f Let_def
    by (cases "record_value m")
      (simp_all add: Some nutrient_record_truthy [OF r] unit_of_record [OF r]
        value_of_record [OF r] andThen_def)
qed

lemma energy_100_kJ_rounded:
  "Number_toFixed 1 (js_div (Fin 100) (toDouble (4184 / 1000))) = toDouble (239 / 10)"
  by code_simp

lemma mass_500_mg_rounded:
  "Number_toFixed 2 (js_div (Fin 500) (Fin 1000)) = toDouble (5 / 10)"
  by code_simp

lemma double_0_5: "toDouble (5 / 10) = Fin (1 / 2)"
  by code_simp

section \<open>The extractors on arbitrary input\<close>

lemma get_prop_get_opt: "get_prop n k = Inr v \<Longrightarrow> get_opt n k = v"
  by (cases n) auto

lemma nutrient_text_Inr:
  assumes "nutrient_text n k1 k2 = Inr t"
  shows "t = trim (text_of (coalesce (coalesce (get_opt n k1) (get_opt n k2)) (Str [])))"
proof -
  from assms obtain a where a: "get_prop n k1 = Inr a"
    by (cases "get_prop n k1") (simp_all add: nutrient_text_def andThen_def)
  from assms a obtain b where b: "(if nullish a then get_prop n k2 else Inr a) = Inr b"
    by (cases "if nullish a then get_prop n k2 else Inr a")
      (simp_all add: nutrient_text_def andThen_def)
  from assms a b obtain s where s: "ToString (if nullish b then Str [] else b) = Inr s"
    and t: "t = trim s"
    by (cases "ToString (if nullish b then Str [] else b)")
      (auto simp add: nutrient_text_def andThen_def)
  have ga: "get_opt n k1 = a" using a by (rule get_prop_get_opt)
  have "coalesce (get_opt n k1) (get_opt n k2) = b"
  proof (cases "nullish a")
    case True
    with b have "get_prop n k2 = Inr b" by simp
    then have "get_opt n k2 = b" by (rule get_prop_get_opt)
    with True ga show ?thesis by (simp add: coalesce_def)
  next
    case False
    with b ga show ?thesis by (simp add: coalesce_def)
  qed
  then have "coalesce (coalesce (get_opt n k1) (get_opt n k2)) (Str []) =
      (if nullish b then Str [] else b)"
    by (simp add: coalesce_def)
  with s t show ?thesis by (simp add: text_of_def)
qed

lemma nutrient_matches_Inr:
  assumes "nutrient_matches n ids = Inr b"
  shows "b = record_matches ids n"
proof -
  from assms obtain number where c: "nutrient_text n ''nutrientNumber'' ''number'' = Inr number"
    by (cases "nutrient_text n ''nutrientNumber'' ''number''")
      (simp_all add: nutrient_matches_def andThen_def)
  from assms c obtain name where m: "nutrient_text n ''nutrientName'' ''name'' = Inr name"
    by (cases "nutrient_text n ''nutrientName'' ''name''")
      (simp_all add: nutrient_matches_def andThen_def)
  from assms c m have "b = list_ex (\<lambda>key. key = number \<or> toLowerCase key = toLowerCase name) ids"
    by (simp add: nutrient_matches_def andThen_def)
  then show ?thesis
    unfolding nutrient_text_Inr [OF c] nutrient_text_Inr [OF m]
    by (simp add: record_matches_def record_code_def record_name_def list_ex_iff
        del: get_opt.simps)
qed

lemma findNutrient_loop_no_match:
  assumes "\<forall>n \<in> set ns. \<not> record_matches ids n"
  shows "findNutrient_loop ns ids = Inr Null \<or> (\<exists>e. findNutrient_loop ns ids = Inl e)"
  using assms
proof (induction ns)
  case Nil
  then show ?case by simp
next
  case (Cons n ns)
  show ?case
  proof (cases "nutrient_matches n ids")
    case (Inl e)
    then show ?thesis by (simp add: andThen_def)
  next
    case (Inr b)
    from nutrient_matches_Inr [OF this] Cons.prems have "\<not> b" by simp
    with Inr Cons show ?thesis by (simp add: andThen_def)
  qed
qed

lemma findNutrient_no_match:
  assumes "\<forall>n \<in> set ns. \<not> record_matches ids n"
  shows "findNutrient ns ids = Null"
  using findNutrient_loop_no_match [OF assms] by (auto simp add: findNutrient_def)

lemma findNutrient_loop_member:
  "findNutrient_loop ns ids = Inr v \<Longrightarrow> v = Null \<or> v \<in> set ns"
proof (induction ns)
  case Nil
  then show ?case by simp
next
  case (Cons n ns)
  then show ?case
    by (cases "nutrient_matches n ids") (auto simp add: andThen_def split: if_splits)
qed

lemma findNutrient_member: "findNutrient ns ids = Null \<or> findNutrient ns ids \<in> set ns"
  using findNutrient_loop_member [of ns ids]
  by (cases "findNutrient_loop ns ids") (auto simp add: findNutrient_def)

lemma StringToNumber_range: "StringToNumber s = Fin a \<Longrightarrow> \<bar>a\<bar> < double_limit"
  by (auto simp add: StringToNumber_def Let_def double_limit_pos
      split: if_splits prod.splits option.splits dest: toDouble_range)

lemma ToNumber_range:
  assumes "ToNumber v = Inr (Fin a)" "\<forall>x. v \<noteq> Num x"
  shows "\<bar>a\<bar> < double_limit"
proof (cases v)
  case (Str s)
  with assms show ?thesis by (simp add: StringToNumber_range)
next
  case (Arr xs)
  with assms show ?thesis
    by (cases "join_elements xs") (auto simp add: andThen_def dest: StringToNumber_range)
next
  case (Obj ps)
  with assms show ?thesis
    by (auto simp add: andThen_def dest: StringToNumber_range split: if_splits)
qed (use assms in \<open>auto simp add: double_limit_pos split: if_splits\<close>)

lemma value_of_range:
  assumes "value_of m = Inr (Fin a)" "double_value m"
  shows "\<bar>a\<bar> < double_limit"
proof -
  from assms(1) obtain v where g: "get_prop m ''value'' = Inr v"
    by (cases "get_prop m ''value''") (simp_all add: value_of_def andThen_def)
  then have o: "get_opt m ''value'' = v" by (rule get_prop_get_opt)
  show ?thesis
  proof (cases "\<exists>x. v = Num x")
    case True
    then obtain x where x: "v = Num x" by blast
    with assms(1) g have "x = Fin a" by (simp add: value_of_def andThen_def)
    with assms(2) o x show ?thesis by (simp add: double_value_def)
  next
    case False
    with assms(1) g have "ToNumber v = Inr (Fin a)"
      by (cases v) (simp_all add: value_of_def andThen_def)
    with False show ?thesis by (simp add: ToNumber_range)
  qed
qed

lemma Number_toFixed_rounded:
  "\<exists>r. Number_toFixed d (Fin x) = Fin r \<and>
       ((\<exists>k::int. toDouble (of_int k / 10 ^ d) = Fin r) \<or> 10 ^ 21 \<le> \<bar>r\<bar>)"
proof (cases "10 ^ 21 \<le> \<bar>x\<bar>")
  case True
  then show ?thesis by simp
next
  case False
  from Number_toFixed_finite [of d x] obtain r where r: "Number_toFixed d (Fin x) = Fin r"
    by blast
  let ?k = "(if x < 0 then - 1 else 1) * \<lfloor>\<bar>x\<bar> * 10 ^ d + 1 / 2\<rfloor>"
  have "toFixed_value d x = of_int ?k / 10 ^ d"
    by (simp add: toFixed_value_def Let_def)
  with r False have "toDouble (of_int ?k / 10 ^ d) = Fin r" by simp
  with r show ?thesis by blast
qed

lemma Number_toFixed_nearest:
  assumes "\<bar>x\<bar> < 10 ^ 21"
  shows "\<exists>k::int. Number_toFixed d (Fin x) = toDouble (of_int k / 10 ^ d) \<and>
    \<bar>of_int k - x * 10 ^ d\<bar> \<le> 1 / 2"
proof -
  let ?y = "\<bar>x\<bar> * 10 ^ d"
  let ?n = "\<lfloor>?y + 1 / 2\<rfloor>"
  let ?k = "(if x < 0 then - 1 else 1) * ?n"
  have v: "toFixed_value d x = of_int ?k / 10 ^ d"
    by (simp add: toFixed_value_def Let_def)
  have "of_int ?n \<le> ?y + 1 / 2" "?y + 1 / 2 < of_int ?n + 1"
    by linarith+
  then have n: "\<bar>of_int ?n - ?y\<bar> \<le> 1 / 2"
    by linarith
  have "\<bar>of_int ?k - x * 10 ^ d\<bar> = \<bar>of_int ?n - ?y\<bar>"
    by (cases "x < 0") (simp_all add: abs_mult)
  with n have "\<bar>of_int ?k - x * 10 ^ d\<bar> \<le> 1 / 2" by simp
  moreover from assms v have "Number_toFixed d (Fin x) = toDouble (of_int ?k / 10 ^ d)"
    by simp
  ultimately show ?thesis by blast
qed

lemma rounded_or_null_toFixed: "rounded_or_null d (Num (Number_toFixed d (Fin x)))"
  using Number_toFixed_rounded [of d x] by (auto simp add: rounded_or_null_def)

lemma extract_rounded:
  assumes "double_value m" "2 \<le> c"
  shows "rounded_or_null d
    (case andThen (unit_of m) (\<lambda>unit. andThen (value_of m) (\<lambda>v.
        if \<not> isFinite v then Inr Null
        else if unit = u then Inr (Num (Number_toFixed d (js_div v (Fin c))))
        else Inr (Num (Number_toFixed d v)))) of Inl e \<Rightarrow> Null | Inr r \<Rightarrow> r)"
proof (cases "unit_of m")
  case (Inl e)
  then show ?thesis by (simp add: andThen_def rounded_or_null_def)
next
  case (Inr unit)
  show ?thesis
  proof (cases "value_of m")
    case (Inl e)
    with Inr show ?thesis by (simp add: andThen_def rounded_or_null_def)
  next
    case v: (Inr v)
    show ?thesis
    proof (cases v)
      case (Fin a)
      with v assms(1) have "\<bar>a\<bar> < double_limit" by (simp add: value_of_range)
      from js_div_finite [OF this assms(2)] obtain y where "js_div (Fin a) (Fin c) = Fin y"
        by blast
      with Inr v Fin show ?thesis
        by (simp add: andThen_def rounded_or_null_toFixed
            del: Number_toFixed.simps js_div.simps)
    qed (use Inr v in \<open>simp_all add: andThen_def rounded_or_null_def\<close>)
  qed
qed

lemma getEnergyKcal_rounded:
  assumes "\<forall>n \<in> set ns. double_value n"
  shows "rounded_or_null 1 (getEnergyKcal ns)"
proof (cases "truthy (findNutrient ns [''1008'', ''Energy''])")
  case False
  then show ?thesis
    by (simp add: getEnergyKcal_def getEnergyKcal_body_def rounded_or_null_def)
next
  case True
  then have "findNutrient ns [''1008'', ''Energy''] \<noteq> Null" by auto
  with findNutrient_member [of ns "[''1008'', ''Energy'']"] assms
  have d: "double_value (findNutrient ns [''1008'', ''Energy''])" by auto
  have c: "(2::rat) \<le> 4710765210229539 / 1125899906842624" by simp
  show ?thesis
    unfolding getEnergyKcal_def getEnergyKcal_body_def Let_def literal_4184
    using extract_rounded [OF d c, of 1 "''kj''"] True
    by simp
qed

lemma getNutrientGrams_rounded:
  assumes "\<forall>n \<in> set ns. double_value n"
  shows "rounded_or_null 2 (getNutrientGrams ns ids)"
proof (cases "truthy (findNutrient ns ids)")
  case False
  then show ?thesis
    by (simp add: getNutrientGrams_def getNutrientGrams_body_def rounded_or_null_def)
next
  case True
  then have "findNutrient ns ids \<noteq> Null" by auto
  with findNutrient_member [of ns ids] assms
  have d: "double_value (findNutrient ns ids)" by auto
  have c: "(2::rat) \<le> 1000" by simp
  show ?thesis
    unfolding getNutrientGrams_def getNutrientGrams_body_def Let_def
    using extract_rounded [OF d c, of 2 "''mg''"] True
    by simp
qed

section \<open>Records that differ in their value only\<close>

lemma map_of_filter_key:
  "map_of (filter (\<lambda>p. fst p \<noteq> key) ps) k = (if k = key then None else map_of ps k)"
  by (induction ps) auto

lemma get_prop_with_value:
  "k \<noteq> ''value'' \<Longrightarrow> get_prop (with_value m v) k = get_prop m k"
  by (cases m) (simp_all add: map_of_filter_key)

lemma nutrient_matches_with_value:
  "nutrient_matches (with_value m v) ids = nutrient_matches m ids"
  by (simp add: nutrient_matches_def nutrient_text_def get_prop_with_value cong: if_cong)

lemma unit_of_with_value: "unit_of (with_value m v) = unit_of m"
  by (simp add: unit_of_def get_prop_with_value cong: if_cong)

lemma value_of_string:
  assumes "get_opt m ''value'' = Str s"
  shows "value_of m = Inr (StringToNumber s)"
    and "value_of (with_value m (Num (StringToNumber s))) = Inr (StringToNumber s)"
proof -
  from assms obtain ps where m: "m = Obj ps" by (cases m) simp_all
  from assms show "value_of m = Inr (StringToNumber s)"
    by (simp add: m value_of_def andThen_def)
  show "value_of (with_value m (Num (StringToNumber s))) = Inr (StringToNumber s)"
    by (simp add: m value_of_def andThen_def)
qed

lemma truthy_with_value: "truthy (with_value m v) = truthy m"
  by (cases m) simp_all

lemma findNutrient_loop_pair:
  assumes "nutrient_matches a ids = nutrient_matches b ids"
  shows "(findNutrient_loop (pre @ a # post) ids = Inr a \<and>
          findNutrient_loop (pre @ b # post) ids = Inr b) \<or>
         findNutrient_loop (pre @ a # post) ids = findNutrient_loop (pre @ b # post) ids"
proof (induction pre)
  case Nil
  show ?case
  proof (cases "nutrient_matches b ids")
    case (Inl e)
    with assms show ?thesis by (simp add: andThen_def)
  next
    case (Inr t)
    with assms show ?thesis by (simp add: andThen_def)
  qed
next
  case (Cons n pre)
  show ?case
  proof (cases "nutrient_matches n ids")
    case (Inl e)
    then show ?thesis by (simp add: andThen_def)
  next
    case (Inr t)
    with Cons show ?thesis by (simp add: andThen_def)
  qed
qed

lemma findNutrient_pair:
  assumes "nutrient_matches a ids = nutrient_matches b ids"
  shows "(findNutrient (pre @ a # post) ids = a \<and> findNutrient (pre @ b # post) ids = b) \<or>
         findNutrient (pre @ a # post) ids = findNutrient (pre @ b # post) ids"
  using findNutrient_loop_pair [OF assms, of pre post]
  by (auto simp add: findNutrient_def)

lemma getEnergyKcal_with_value:
  assumes "get_opt m ''value'' = Str s"
  shows "getEnergyKcal (pre @ m # post) =
    getEnergyKcal (pre @ with_value m (Num (StringToNumber s)) # post)"
proof -
  let ?m' = "with_value m (Num (StringToNumber s))"
  have "nutrient_matches m [''1008'', ''Energy''] = nutrient_matches ?m' [''1008'', ''Energy'']"
    by (simp add: nutrient_matches_with_value)
  from findNutrient_pair [OF this, of pre post] show ?thesis
  proof
    assume "findNutrient (pre @ m # post) [''1008'', ''Energy''] = m \<and>
      findNutrient (pre @ ?m' # post) [''1008'', ''Energy''] = ?m'"
    then show ?thesis
      by (simp add: getEnergyKcal_def getEnergyKcal_body_def Let_def truthy_with_value
          unit_of_with_value value_of_string [OF assms])
  next
    assume "findNutrient (pre @ m # post) [''1008'', ''Energy''] =
      findNutrient (pre @ ?m' # post) [''1008'', ''Energy'']"
    then show ?thesis
      by (simp add: getEnergyKcal_def getEnergyKcal_body_def)
  qed
qed

lemma getNutrientGrams_with_value:
  assumes "get_opt m ''value'' = Str s"
  shows "getNutrientGrams (pre @ m # post) ids =
    getNutrientGrams (pre @ with_value m (Num (StringToNumber s)) # post) ids"
proof -
  let ?m' = "with_value m (Num (StringToNumber s))"
  have "nutrient_matches m ids = nutrient_matches ?m' ids"
    by (simp add: nutrient_matches_with_value)
  from findNutrient_pair [OF this, of pre post] show ?thesis
  proof
    assume "findNutrient (pre @ m # post) ids = m \<and> findNutrient (pre @ ?m' # post) ids = ?m'"
    then show ?thesis
      by (simp add: getNutrientGrams_def getNutrientGrams_body_def Let_def truthy_with_value
          unit_of_with_value value_of_string [OF assms])
  next
    assume "findNutrient (pre @ m # post) ids = findNutrient (pre @ ?m' # post) ids"
    then show ?thesis
      by (simp add: getNutrientGrams_def getNutrientGrams_body_def)
  qed
qed

lemma extract_not_finite:
  assumes "get_opt m ''value'' = Str s" "\<not> isFinite (StringToNumber s)"
  shows "(case andThen (unit_of m) (\<lambda>unit. andThen (value_of m) (\<lambda>v.
        if \<not> isFinite v then Inr Null else f unit v)) of Inl e \<Rightarrow> Null | Inr r \<Rightarrow> r) = Null"
  using assms(2)
  by (cases "unit_of m") (simp_all add: andThen_def value_of_string(1) [OF assms(1)])

section \<open>Lower case\<close>

lemma code_unit_range: "0 \<le> code_unit c \<and> code_unit c < 256"
  unfolding code_unit_def by (simp add: of_char_def)

lemma code_unit_inj: "code_unit c = code_unit d \<longleftrightarrow> c = d"
  by (simp add: code_unit_def)

lemma code_unit_char_of: "code_unit (char_of n) = n mod 256"
  by (simp add: code_unit_def of_char_of)

lemma code_unit_lower_char:
  "code_unit (lower_char c) = (if is_upper c then code_unit c + 32 else code_unit c)"
proof -
  have "is_upper c \<Longrightarrow> (code_unit c + 32) mod 256 = code_unit c + 32"
    using code_unit_range [of c] by (auto simp add: is_upper_def Let_def)
  then show ?thesis by (simp add: lower_char_def code_unit_char_of)
qed

lemma lower_char_eq_small:
  assumes "97 \<le> code_unit t" "code_unit t \<le> 122"
  shows "lower_char c = t \<longleftrightarrow> code_unit c = code_unit t \<or> code_unit c = code_unit t - 32"
proof -
  have "lower_char c = t \<longleftrightarrow> code_unit (lower_char c) = code_unit t"
    by (simp add: code_unit_inj)
  also have "\<dots> \<longleftrightarrow> code_unit c = code_unit t \<or> code_unit c = code_unit t - 32"
    using assms by (auto simp add: code_unit_lower_char is_upper_def Let_def)
  finally show ?thesis .
qed

lemma code_unit_letters:
  "code_unit CHR ''k'' = 107" "code_unit CHR ''j'' = 106"
  "code_unit CHR ''K'' = 75" "code_unit CHR ''J'' = 74"
  "code_unit CHR ''m'' = 109" "code_unit CHR ''g'' = 103"
  "code_unit CHR ''M'' = 77" "code_unit CHR ''G'' = 71"
  by (simp_all add: code_unit_def)

lemma char_eq_code: "c = d \<longleftrightarrow> code_unit c = code_unit d"
  by (simp add: code_unit_inj)

lemma lower_k: "lower_char c = CHR ''k'' \<longleftrightarrow> c = CHR ''k'' \<or> c = CHR ''K''"
  unfolding char_eq_code [of c "CHR ''k''"] char_eq_code [of c "CHR ''K''"]
  using lower_char_eq_small [of "CHR ''k''" c] by (simp add: code_unit_letters)

lemma lower_j: "lower_char c = CHR ''j'' \<longleftrightarrow> c = CHR ''j'' \<or> c = CHR ''J''"
  unfolding char_eq_code [of c "CHR ''j''"] char_eq_code [of c "CHR ''J''"]
  using lower_char_eq_small [of "CHR ''j''" c] by (simp add: code_unit_letters)

lemma lower_m: "lower_char c = CHR ''m'' \<longleftrightarrow> c = CHR ''m'' \<or> c = CHR ''M''"
  unfolding char_eq_code [of c "CHR ''m''"] char_eq_code [of c "CHR ''M''"]
  using lower_char_eq_small [of "CHR ''m''" c] by (simp add: code_unit_letters)

lemma lower_g: "lower_char c = CHR ''g'' \<longleftrightarrow> c = CHR ''g'' \<or> c = CHR ''G''"
  unfolding char_eq_code [of c "CHR ''g''"] char_eq_code [of c "CHR ''G''"]
  using lower_char_eq_small [of "CHR ''g''" c] by (simp add: code_unit_letters)

lemma map_two: "map f u = [a, b] \<longleftrightarrow> (\<exists>x y. u = [x, y] \<and> f x = a \<and> f y = b)"
  by (auto simp add: map_eq_Cons_conv)

lemma lower_kj: "toLowerCase u = ''kj'' \<longleftrightarrow> u \<in> {''kj'', ''kJ'', ''Kj'', ''KJ''}"
proof -
  have "toLowerCase u = ''kj'' \<longleftrightarrow>
      (\<exists>x y. u = [x, y] \<and> lower_char x = CHR ''k'' \<and> lower_char y = CHR ''j'')"
    unfolding toLowerCase_def by (rule map_two)
  also have "\<dots> \<longleftrightarrow> (\<exists>x y. u = [x, y] \<and> (x = CHR ''k'' \<or> x = CHR ''K'') \<and>
      (y = CHR ''j'' \<or> y = CHR ''J''))"
    by (simp only: lower_k lower_j)
  also have "\<dots> \<longleftrightarrow> u \<in> {''kj'', ''kJ'', ''Kj'', ''KJ''}"
    by blast
  finally show ?thesis .
qed

lemma lower_mg: "toLowerCase u = ''mg'' \<longleftrightarrow> u \<in> {''mg'', ''mG'', ''Mg'', ''MG''}"
proof -
  have "toLowerCase u = ''mg'' \<longleftrightarrow>
      (\<exists>x y. u = [x, y] \<and> lower_char x = CHR ''m'' \<and> lower_char y = CHR ''g'')"
    unfolding toLowerCase_def by (rule map_two)
  also have "\<dots> \<longleftrightarrow> (\<exists>x y. u = [x, y] \<and> (x = CHR ''m'' \<or> x = CHR ''M'') \<and>
      (y = CHR ''g'' \<or> y = CHR ''G''))"
    by (simp only: lower_m lower_g)
  also have "\<dots> \<longleftrightarrow> u \<in> {''mg'', ''mG'', ''Mg'', ''MG''}"
    by blast
  finally show ?thesis .
qed

lemma record_unit_cases:
  "(get_opt m ''unitName'' = Str u \<and> u \<noteq> [] \<longrightarrow> record_unit m = u) \<and>
   (get_opt m ''unitName'' \<in> {Undefined, Null, Str []} \<and> get_opt m ''unit'' = Str u
      \<longrightarrow> record_unit m = u) \<and>
   (get_opt m ''unitName'' \<in> {Undefined, Null, Str []} \<and>
    get_opt m ''unit'' \<in> {Undefined, Null} \<longrightarrow> record_unit m = [])"
  by (auto simp add: record_unit_def Let_def simp del: get_opt.simps)

lemma lower_char_eq_iff: "lower_char a = lower_char b \<longleftrightarrow> same_letter a b"
proof -
  have "lower_char a = lower_char b \<longleftrightarrow> code_unit (lower_char a) = code_unit (lower_char b)"
    by (simp add: code_unit_inj)
  also have "\<dots> \<longleftrightarrow> same_letter a b"
    unfolding same_letter_def char_eq_code [of a b] code_unit_lower_char
    using code_unit_range [of a] code_unit_range [of b]
    by (auto simp add: is_upper_def Let_def)
  finally show ?thesis .
qed

lemma toLowerCase_eq_iff: "toLowerCase s = toLowerCase t \<longleftrightarrow> equal_ignoring_case s t"
proof -
  have "toLowerCase s = toLowerCase t \<longleftrightarrow> list_all2 (=) (map lower_char s) (map lower_char t)"
    by (simp add: toLowerCase_def list.rel_eq)
  also have "\<dots> \<longleftrightarrow> list_all2 (\<lambda>a b. lower_char a = lower_char b) s t"
    by (simp only: list.rel_map)
  finally show ?thesis
    by (simp add: equal_ignoring_case_def lower_char_eq_iff)
qed

section \<open>White space at the ends\<close>

lemma trim_padded:
  assumes "blank ws1" "blank ws2" "tight c"
  shows "trim (ws1 @ c @ ws2) = c"
proof (cases "c = []")
  case True
  with assms(1,2) have "\<forall>x \<in> set (ws1 @ c @ ws2). is_white_space x"
    by (auto simp add: blank_def list_all_iff)
  then have d: "dropWhile is_white_space (ws1 @ c @ ws2) = []"
    unfolding dropWhile_eq_Nil_conv .
  show ?thesis
    unfolding trim_def d using True by simp
next
  case False
  with assms(3) have h: "\<not> is_white_space (hd c)" and l: "\<not> is_white_space (last c)"
    by (simp_all add: tight_def)
  from assms(1) have "dropWhile is_white_space (ws1 @ c @ ws2) = dropWhile is_white_space (c @ ws2)"
    by (simp add: blank_def list_all_iff dropWhile_append2)
  also from False h have "\<dots> = c @ ws2"
    by (cases c) simp_all
  finally have a: "dropWhile is_white_space (ws1 @ c @ ws2) = c @ ws2" .
  from assms(2) have "\<And>x. x \<in> set (rev ws2) \<Longrightarrow> is_white_space x"
    by (simp add: blank_def list_all_iff)
  then have "dropWhile is_white_space (rev ws2 @ rev c) = dropWhile is_white_space (rev c)"
    by (rule dropWhile_append2)
  then have "dropWhile is_white_space (rev (c @ ws2)) = dropWhile is_white_space (rev c)"
    by simp
  also from False l have "\<dots> = rev c"
    by (cases "rev c") (simp_all add: last_rev [symmetric] hd_rev)
  finally show ?thesis
    by (simp add: trim_def a)
qed

lemma record_code_trimmed:
  assumes "get_opt r ''nutrientNumber'' = Str (ws1 @ c @ ws2) \<or>
      (get_opt r ''nutrientNumber'' \<in> {Undefined, Null} \<and>
       get_opt r ''number'' = Str (ws1 @ c @ ws2))"
    and "blank ws1" "blank ws2" "tight c"
  shows "record_code r = c"
proof -
  from assms(1) have "coalesce (coalesce (get_opt r ''nutrientNumber'') (get_opt r ''number''))
      (Str []) = Str (ws1 @ c @ ws2)"
    by (auto simp add: coalesce_def)
  then show ?thesis
    by (simp only: record_code_def text_of_def ToString.simps sum.case trim_padded [OF assms(2-4)])
qed

lemma record_name_trimmed:
  assumes "get_opt r ''nutrientName'' = Str (ws1 @ c @ ws2) \<or>
      (get_opt r ''nutrientName'' \<in> {Undefined, Null} \<and>
       get_opt r ''name'' = Str (ws1 @ c @ ws2))"
    and "blank ws1" "blank ws2" "tight c"
  shows "record_name r = c"
proof -
  from assms(1) have "coalesce (coalesce (get_opt r ''nutrientName'') (get_opt r ''name''))
      (Str []) = Str (ws1 @ c @ ws2)"
    by (auto simp add: coalesce_def)
  then show ?thesis
    by (simp only: record_name_def text_of_def ToString.simps sum.case trim_padded [OF assms(2-4)])
qed

lemma record_matches_up_to_case:
  "record_matches ids r =
     list_ex (\<lambda>key. key = record_code r \<or> equal_ignoring_case key (record_name r)) ids"
  by (simp add: record_matches_def list_ex_iff toLowerCase_eq_iff)

section \<open>The limit\<close>

lemma round_half_even_ge: "x - 1 / 2 \<le> of_int (round_half_even x)"
proof -
  have "x < of_int \<lfloor>x\<rfloor> + 1" by linarith
  then show ?thesis
    by (auto simp add: round_half_even_def Let_def)
qed

lemma binade_lower_ge_1:
  assumes "1 \<le> a"
  shows "0 \<le> binade a" and "pow2 (binade a) \<le> a"
proof -
  from assms have f: "0 < \<lfloor>a\<rfloor>" by simp
  from bit_length_pos [OF f] assms show "0 \<le> binade a"
    by (simp add: binade_def)
  from bit_length_lower [OF f]
  have "(of_int (2 ^ nat (bit_length \<lfloor>a\<rfloor> - 1)) :: rat) \<le> of_int \<lfloor>a\<rfloor>"
    by (simp only: of_int_le_iff)
  also have "\<dots> \<le> a" by simp
  finally have "2 ^ nat (bit_length \<lfloor>a\<rfloor> - 1) \<le> a" by simp
  moreover have "pow2 (binade a) = 2 ^ nat (bit_length \<lfloor>a\<rfloor> - 1)"
    using assms bit_length_pos [OF f] by (simp add: binade_def pow2_def)
  ultimately show "pow2 (binade a) \<le> a" by simp
qed

text \<open>Rounding a value of at least 1 loses less than one part in \<open>2^53\<close>.\<close>

lemma toDouble_lower:
  assumes "1 \<le> a" "toDouble a = Fin r"
  shows "a - a / 2 ^ 53 \<le> r"
proof -
  define e where "e = binade a"
  define ulp where "ulp = pow2 (e - 52)"
  define m where "m = round_half_even (a / ulp)"
  from assms(1) have e0: "0 \<le> e" and ea: "pow2 e \<le> a"
    by (simp_all add: e_def binade_lower_ge_1)
  have ulp: "0 < ulp" by (simp add: ulp_def pow2_pos)
  from e0 have mx: "max (binade a) (- 1022) = e" by (simp add: e_def)
  from assms have r: "r = of_int m * ulp"
    by (auto simp add: toDouble_def Let_def mx ulp_def [symmetric] m_def [symmetric]
        split: if_splits)
  have "ulp = pow2 e / 2 ^ 52"
    using pow2_diff [of e 52] by (simp add: ulp_def pow2_def)
  with ea have u: "ulp \<le> a / 2 ^ 52" by (simp add: divide_right_mono)
  have "a / ulp - 1 / 2 \<le> of_int m" unfolding m_def by (rule round_half_even_ge)
  then have "(a / ulp - 1 / 2) * ulp \<le> of_int m * ulp"
    using ulp by (simp only: mult_le_cancel_right_pos)
  moreover have "(a / ulp - 1 / 2) * ulp = a - ulp / 2"
    using ulp by (simp add: left_diff_distrib)
  ultimately have "a - ulp / 2 \<le> r" by (simp only: r)
  moreover from u have "ulp / 2 \<le> a / 2 ^ 53" by simp
  ultimately show ?thesis by linarith
qed

lemma toDouble_above_50:
  assumes "51 \<le> a"
  shows "\<not> js_le (toDouble a) (Fin 50)"
proof (cases "toDouble a")
  case (Fin r)
  from assms have "1 \<le> a" by simp
  from toDouble_lower [OF this Fin] have "a - a / 2 ^ 53 \<le> r" .
  moreover have "50 < a - a / 2 ^ 53" using assms by (simp add: field_simps)
  ultimately show ?thesis using Fin by simp
next
  case PosInf
  then show ?thesis by simp
next
  case NegInf
  with assms show ?thesis by (simp add: toDouble_def Let_def split: if_splits)
next
  case NaN
  then show ?thesis by simp
qed

subsection \<open>Strings of digits\<close>

lemma is_digit_value: "is_digit c \<Longrightarrow> digit_value c < 10"
  by (auto simp add: is_digit_def digit_value_def Let_def)

lemma is_digit_not_space: "is_digit c \<Longrightarrow> \<not> is_white_space c"
  by (auto simp add: is_digit_def is_white_space_def)

lemma is_digit_chars:
  assumes "is_digit c"
  shows "c \<noteq> CHR ''e''" "c \<noteq> CHR ''E''" "c \<noteq> CHR ''.''" "c \<noteq> CHR ''x''" "c \<noteq> CHR ''X''"
    "c \<noteq> CHR ''o''" "c \<noteq> CHR ''O''" "c \<noteq> CHR ''b''" "c \<noteq> CHR ''B''" "c \<noteq> CHR ''I''"
    "c \<noteq> CHR ''-''" "c \<noteq> CHR ''+''"
  using assms by (auto simp add: is_digit_def code_unit_def)

lemma sign_not_space: "\<not> is_white_space CHR ''-''" "\<not> is_white_space CHR ''+''"
  by (simp_all add: is_white_space_def code_unit_def)

lemma digits_all: "list_all is_digit ds \<Longrightarrow> all_digits 10 ds"
  by (induction ds) (simp_all add: all_digits_def is_digit_value)

lemma parse_digits:
  assumes "ds \<noteq> []" "list_all is_digit ds"
  shows "parse_unsigned_decimal ds = Some (of_int (digits_value 10 ds))"
proof -
  have e: "takeWhile (\<lambda>c. \<not> (c = CHR ''e'' \<or> c = CHR ''E'')) ds = ds"
    "dropWhile (\<lambda>c. \<not> (c = CHR ''e'' \<or> c = CHR ''E'')) ds = []"
    using assms(2) by (auto simp add: list_all_iff is_digit_chars)
  have p: "takeWhile (\<lambda>c. c \<noteq> CHR ''.'') ds = ds" "dropWhile (\<lambda>c. c \<noteq> CHR ''.'') ds = []"
    using assms(2) by (auto simp add: list_all_iff is_digit_chars)
  show ?thesis
    unfolding parse_unsigned_decimal_def Let_def e p
    using assms digits_all [OF assms(2)] digits_all [of "[]"] by (simp add: pow10_def)
qed

lemma trim_no_space:
  assumes "s \<noteq> []" "\<not> is_white_space (hd s)" "\<not> is_white_space (last s)"
  shows "trim s = s"
proof -
  from assms(1,2) have "dropWhile is_white_space s = s"
    by (cases s) simp_all
  moreover from assms(1,3) have "dropWhile is_white_space (rev s) = rev s"
    by (cases "rev s") (simp_all add: hd_rev)
  ultimately show ?thesis by (simp add: trim_def)
qed

text \<open>A signed string of digits is read alike by \<open>Number\<close> and by \<open>parseInt\<close>.\<close>

lemma integer_literal:
  assumes "take_sign l = (sg, ds)" "ds \<noteq> []" "list_all is_digit ds"
  shows "StringToNumber l = toDouble (of_int (sg * digits_value 10 ds))"
    and "parseInt10 l = toDouble (of_int (sg * digits_value 10 ds))"
proof -
  from assms have l: "l \<noteq> []" by (cases l) auto
  from assms have last_digit: "is_digit (last l)"
    by (cases l) (auto simp add: list_all_iff split: if_splits)
  from assms have hd_l: "\<not> is_white_space (hd l)"
    by (cases l) (auto simp add: sign_not_space is_digit_not_space split: if_splits)
  have t: "trim l = l"
    using l hd_l last_digit by (simp add: trim_no_space is_digit_not_space)
  have d: "dropWhile is_white_space l = l"
    using l hd_l by (cases l) simp_all
  have tw: "takeWhile is_digit ds = ds"
    using assms(3) by (simp add: list_all_iff)
  from assms(2) show "parseInt10 l = toDouble (of_int (sg * digits_value 10 ds))"
    by (simp add: parseInt10_def d assms(1) tw Let_def)
  have chars: "\<forall>c \<in> set l. is_digit c \<or> c = CHR ''-'' \<or> c = CHR ''+''"
    using assms by (cases l) (auto simp add: list_all_iff split: if_splits)
  have no_radix: "take 2 l \<notin> {''0x'', ''0X'', ''0o'', ''0O'', ''0b'', ''0B''}"
  proof
    assume a: "take 2 l \<in> {''0x'', ''0X'', ''0o'', ''0O'', ''0b'', ''0B''}"
    then obtain c rest where "l = CHR ''0'' # c # rest"
      and c: "c \<in> {CHR ''x'', CHR ''X'', CHR ''o'', CHR ''O'', CHR ''b'', CHR ''B''}"
      by (cases l; cases "tl l") auto
    with chars have "is_digit c \<or> c = CHR ''-'' \<or> c = CHR ''+''" by simp
    with c show False by (auto simp add: is_digit_def code_unit_def)
  qed
  have inf: "ds \<noteq> ''Infinity''"
    using assms(3) by (auto simp add: is_digit_def code_unit_def)
  from no_radix inf l show "StringToNumber l = toDouble (of_int (sg * digits_value 10 ds))"
    by (simp add: StringToNumber_def Let_def t assms(1) parse_digits [OF assms(2,3)])
qed

lemma isInt_1_50_parse:
  assumes "isInt_1_50 l"
  shows "\<exists>x. parseInt10 l = Fin x \<and> 0 < x \<and> x \<le> 50 \<and> StringToNumber l = Fin x"
proof -
  obtain sg ds where s: "take_sign l = (sg, ds)" by (cases "take_sign l")
  with assms have ds: "ds \<noteq> []" "list_all is_digit ds"
    and lo: "js_le (Fin 1) (StringToNumber l)" and hi: "js_le (StringToNumber l) (Fin 50)"
    by (simp_all add: isInt_1_50_def)
  from integer_literal [OF s ds] have eq: "parseInt10 l = StringToNumber l" by simp
  from lo hi obtain x where x: "StringToNumber l = Fin x" "1 \<le> x" "x \<le> 50"
    by (cases "StringToNumber l") simp_all
  with eq show ?thesis by auto
qed

lemma default_limit: "parseInt10 ''10'' = Fin 10"
  by code_simp

section \<open>The handler\<close>

lemma validation_passed:
  assumes "validateFoodsQuery req = []"
  shows "\<exists>t. type_param req = Some t \<and> trim t \<noteq> [] \<and> matches_food_type (trim t)"
    and "limit_param req = None \<or> (\<exists>l. limit_param req = Some l \<and> isInt_1_50 l)"
proof -
  from assms show "\<exists>t. type_param req = Some t \<and> trim t \<noteq> [] \<and> matches_food_type (trim t)"
    by (cases "type_param req")
      (auto simp add: validateFoodsQuery_def Let_def trim_def split: if_splits)
  from assms show "limit_param req = None \<or> (\<exists>l. limit_param req = Some l \<and> isInt_1_50 l)"
    by (cases "limit_param req")
      (auto simp add: validateFoodsQuery_def Let_def split: if_splits)
qed

lemma limit_parsed:
  assumes "validateFoodsQuery req = []"
  shows "\<exists>x. parseInt10 (case limit_param req of None \<Rightarrow> ''10'' | Some l \<Rightarrow> l) = Fin x \<and>
    0 < x \<and> x \<le> 50 \<and> limit_of req = Fin x"
proof (cases "limit_param req")
  case None
  then show ?thesis by (simp add: default_limit limit_of_def)
next
  case (Some l)
  with validation_passed(2) [OF assms] have "isInt_1_50 l" by simp
  from isInt_1_50_parse [OF this] Some show ?thesis by (auto simp add: limit_of_def)
qed

lemma prepare_valid:
  assumes "validateFoodsQuery req = []" "usdaApiKey = Some key" "key \<noteq> []"
    "type_param req = Some t"
  shows "prepare usdaApiKey req =
    (if length (trim t) < 2 then
       Inl (FoodTypeError
         ''Food type must be at least 2 characters long for meaningful search results.'')
     else if only_digits (trim t) \<or> only_special (trim t) \<or> reserved_word (trim t) then
       Inl (FoodTypeError (''Invalid food type: '' @ quoted (trim t) @
         ''. Please provide a valid food name.''))
     else Inr (key, trim t, limit_of req))"
proof -
  from validation_passed(1) [OF assms(1)] assms(4) have t: "trim t \<noteq> []" by simp
  from limit_parsed [OF assms(1)] obtain x
    where x: "parseInt10 (case limit_param req of None \<Rightarrow> ''10'' | Some l \<Rightarrow> l) = Fin x"
      "0 < x" "x \<le> 50" "limit_of req = Fin x"
    by blast
  show ?thesis
    using assms t x
    by (simp add: prepare_def Let_def problematicPatterns_def)
qed

lemma prepare_Inr_limit:
  assumes "prepare usdaApiKey req = Inr (key, query, limit)"
  shows "js_le limit (Fin 50) \<and> \<not> js_le limit (Fin 0)"
proof -
  let ?p = "parseInt10 (case limit_param req of None \<Rightarrow> ''10'' | Some l \<Rightarrow> l)"
  from assms have f: "isFinite ?p" and pos: "\<not> js_le ?p (Fin 0)" and l: "limit = js_min ?p (Fin 50)"
    by (auto simp add: prepare_def Let_def split: if_splits option.splits)
  from f obtain x where "?p = Fin x" by (cases ?p) simp_all
  with pos l show ?thesis by auto
qed

lemma prepare_Inr_validated:
  assumes "prepare usdaApiKey req = Inr (key, query, limit)"
  shows "validateFoodsQuery req = []"
  using assms by (auto simp add: prepare_def Let_def split: if_splits)

lemma prepare_default_limit:
  assumes "limit_param req = None" "prepare usdaApiKey req = Inr (key, query, limit)"
  shows "limit = Fin 10"
proof -
  from limit_parsed [OF prepare_Inr_validated [OF assms(2)]] assms(1) obtain x
    where x: "parseInt10 ''10'' = Fin x" "0 < x" "x \<le> 50" by auto
  with default_limit have "x = 10" by simp
  with assms x show ?thesis
    by (auto simp add: prepare_def Let_def split: if_splits option.splits)
qed

lemma page_size_10: "Number_toString (Fin 10) = ''10''"
  by code_simp

lemma error_response_no_foods: "body (error_response e) \<noteq> Foods fj"
  by (cases e) (simp_all add: status_json_def)

lemma foods_handler_success:
  assumes "body (foods_handler usdaApiKey fetch req) = Foods fj"
  shows "\<exists>key query limit. prepare usdaApiKey req = Inr (key, query, limit) \<and> res_limit fj = limit"
proof (cases "prepare usdaApiKey req")
  case (Inl e)
  with assms error_response_no_foods [of e fj] show ?thesis
    by (simp add: foods_handler_def)
next
  case (Inr p)
  obtain key query limit where p: "p = (key, query, limit)" by (cases p)
  show ?thesis
  proof (cases "fetch key query (Number_toString limit)")
    case (Rejected err)
    with assms Inr p error_response_no_foods [of "network_error err" fj] show ?thesis
      by (simp add: foods_handler_def)
  next
    case (Resolved r)
    show ?thesis
    proof (cases "handle_upstream query limit r")
      case (Inl e)
      with assms Inr p Resolved error_response_no_foods [of e fj] show ?thesis
        by (simp add: foods_handler_def)
    next
      case res: (Inr result)
      then have "res_limit result = limit"
        by (auto simp add: handle_upstream_def Let_def split: if_splits sum.splits)
      with assms Inr p Resolved res show ?thesis
        by (simp add: foods_handler_def status_json_def)
    qed
  qed
qed

lemma object_or_array_iff: "truthy v \<and> typeof v = ''object'' \<longleftrightarrow> object_or_array v"
  by (cases v) simp_all

section \<open>Rounding to two decimal places\<close>

lemma getNutrientGrams_nearest:
  assumes r: "\<forall>n \<in> set ns. nutrient_record n"
    and f: "find (record_matches ids) ns = Some m"
    and v: "record_value m = Fin x"
  shows "record_unit m \<in> {''mg'', ''mG'', ''Mg'', ''MG''} \<Longrightarrow> toDouble (x / 1000) = Fin v \<Longrightarrow>
      (if \<bar>v\<bar> < 10 ^ 21
       then \<exists>k::int. getNutrientGrams ns ids = Num (toDouble (of_int k / 100)) \<and>
              \<bar>of_int k - v * 100\<bar> \<le> 1 / 2
       else getNutrientGrams ns ids = Num (Fin v))"
    and "record_unit m \<notin> {''mg'', ''mG'', ''Mg'', ''MG''} \<Longrightarrow>
      (if \<bar>x\<bar> < 10 ^ 21
       then \<exists>k::int. getNutrientGrams ns ids = Num (toDouble (of_int k / 100)) \<and>
              \<bar>of_int k - x * 100\<bar> \<le> 1 / 2
       else getNutrientGrams ns ids = Num (Fin x))"
proof -
  have g: "getNutrientGrams ns ids =
      (if record_unit m \<in> {''mg'', ''mG'', ''Mg'', ''MG''}
       then Num (Number_toFixed 2 (js_div (Fin x) (Fin 1000)))
       else Num (Number_toFixed 2 (Fin x)))"
    by (simp only: getNutrientGrams_records [OF r] f option.case v jsnum.case lower_mg)
  have n: "(if \<bar>y\<bar> < 10 ^ 21
       then \<exists>k::int. Num (Number_toFixed 2 (Fin y)) = Num (toDouble (of_int k / 100)) \<and>
              \<bar>of_int k - y * 100\<bar> \<le> 1 / 2
       else Num (Number_toFixed 2 (Fin y)) = Num (Fin y))" for y
  proof (cases "\<bar>y\<bar> < 10 ^ 21")
    case True
    from Number_toFixed_nearest [OF True, of 2] True show ?thesis by simp
  next
    case False
    then show ?thesis by simp
  qed
  {
    assume u: "record_unit m \<in> {''mg'', ''mG'', ''Mg'', ''MG''}" and d: "toDouble (x / 1000) = Fin v"
    from d have j: "js_div (Fin x) (Fin 1000) = Fin v" by simp
    from g u have e: "getNutrientGrams ns ids = Num (Number_toFixed 2 (Fin v))"
      by (simp only: j if_True)
    show "(if \<bar>v\<bar> < 10 ^ 21
       then \<exists>k::int. getNutrientGrams ns ids = Num (toDouble (of_int k / 100)) \<and>
              \<bar>of_int k - v * 100\<bar> \<le> 1 / 2
       else getNutrientGrams ns ids = Num (Fin v))"
      unfolding e by (rule n)
  }
  {
    assume u: "record_unit m \<notin> {''mg'', ''mG'', ''Mg'', ''MG''}"
    from g u have e: "getNutrientGrams ns ids = Num (Number_toFixed 2 (Fin x))"
      by (simp only: if_False)
    show "(if \<bar>x\<bar> < 10 ^ 21
       then \<exists>k::int. getNutrientGrams ns ids = Num (toDouble (of_int k / 100)) \<and>
              \<bar>of_int k - x * 100\<bar> \<le> 1 / 2
       else getNutrientGrams ns ids = Num (Fin x))"
      unfolding e by (rule n)
  }
qed

section \<open>The nutrient locator\<close>

text \<open>
  Claim C3. On a list of raw nutrient records and any identifiers, \<open>findNutrient\<close>
  returns the first record of the list whose trimmed code equals an identifier exactly or
  whose trimmed name equals an identifier up to case, and \<open>null\<close> when no record
  matches. A record with code \<open>1003\<close> and name \<open>Protein\<close> is what both the lookup by
  the code and the lookup by the name return.

  The trimmed code of a record is the text of its \<open>nutrientNumber\<close>, or else of its
  \<open>number\<close>, without the white space around it; likewise the trimmed name with
  \<open>nutrientName\<close> and \<open>name\<close>. Equality up to case is equality place by place
  up to capital and small letters. The examples: a code and a name between tabs, blanks
  and a line feed, identifiers in another case, a numeric code, the second pair of field
  names, a code that differs from the identifier in case only, and no match.
\<close>

theorem findNutrient_first_match:
  "((\<forall>n \<in> set ns. nutrient_record n) \<longrightarrow>
      findNutrient ns ids =
        (case find (record_matches ids) ns of Some n \<Rightarrow> n | None \<Rightarrow> Null)) \<and>
   (nutrient_record r \<and> record_code r = ''1003'' \<and> record_name r = ''Protein'' \<longrightarrow>
      findNutrient (r # rest) [''1003''] = r \<and> findNutrient (r # rest) [''Protein''] = r) \<and>
   record_matches ids r =
     list_ex (\<lambda>key. key = record_code r \<or> equal_ignoring_case key (record_name r)) ids \<and>
   ((get_opt r ''nutrientNumber'' = Str (ws1 @ c @ ws2) \<or>
     (get_opt r ''nutrientNumber'' \<in> {Undefined, Null} \<and>
      get_opt r ''number'' = Str (ws1 @ c @ ws2))) \<and>
    blank ws1 \<and> blank ws2 \<and> tight c \<longrightarrow> record_code r = c) \<and>
   ((get_opt r ''nutrientName'' = Str (ws1 @ c @ ws2) \<or>
     (get_opt r ''nutrientName'' \<in> {Undefined, Null} \<and>
      get_opt r ''name'' = Str (ws1 @ c @ ws2))) \<and>
    blank ws1 \<and> blank ws2 \<and> tight c \<longrightarrow> record_name r = c) \<and>
   findNutrient [fiber_2_g, protein_padded, protein_500_mg] [''1003''] = protein_padded \<and>
   findNutrient [fiber_2_g, protein_padded, protein_500_mg] [''pRoTeIn''] = protein_padded \<and>
   findNutrient [fiber_2_g, fat_numeric_code] [''1004''] = fat_numeric_code \<and>
   findNutrient [fiber_2_g, fat_numeric_code] fat_ids = fat_numeric_code \<and>
   findNutrient [protein_500_mg, fiber_2_g] [''1079''] = fiber_2_g \<and>
   findNutrient [protein_500_mg, fiber_2_g] [''FIBER, total Dietary''] = fiber_2_g \<and>
   findNutrient [code_in_small_letters, protein_500_mg] [''Protein''] = protein_500_mg \<and>
   findNutrient [code_in_small_letters, fiber_2_g] [''Protein''] = Null"
proof -
  have a: "findNutrient ns ids =
        (case find (record_matches ids) ns of Some n \<Rightarrow> n | None \<Rightarrow> Null)"
    if "\<forall>n \<in> set ns. nutrient_record n"
    using that by (rule findNutrient_records)
  have b: "findNutrient (r # rest) [''1003''] = r \<and> findNutrient (r # rest) [''Protein''] = r"
    if h: "nutrient_record r \<and> record_code r = ''1003'' \<and> record_name r = ''Protein''"
  proof -
    from h have m: "nutrient_matches r ids' = Inr (record_matches ids' r)" for ids'
      by (simp add: nutrient_matches_record)
    from h have "record_matches [''1003''] r" "record_matches [''Protein''] r"
      by (simp_all add: record_matches_def)
    with m show ?thesis
      by (simp add: findNutrient_def andThen_def)
  qed
  have c: "record_matches ids r =
     list_ex (\<lambda>key. key = record_code r \<or> equal_ignoring_case key (record_name r)) ids"
    by (rule record_matches_up_to_case)
  have d: "record_code r = c"
    if "(get_opt r ''nutrientNumber'' = Str (ws1 @ c @ ws2) \<or>
        (get_opt r ''nutrientNumber'' \<in> {Undefined, Null} \<and>
         get_opt r ''number'' = Str (ws1 @ c @ ws2))) \<and>
      blank ws1 \<and> blank ws2 \<and> tight c"
    using that by (blast intro: record_code_trimmed)
  have e: "record_name r = c"
    if "(get_opt r ''nutrientName'' = Str (ws1 @ c @ ws2) \<or>
        (get_opt r ''nutrientName'' \<in> {Undefined, Null} \<and>
         get_opt r ''name'' = Str (ws1 @ c @ ws2))) \<and>
      blank ws1 \<and> blank ws2 \<and> tight c"
    using that by (blast intro: record_name_trimmed)
  have i1: "findNutrient [fiber_2_g, protein_padded, protein_500_mg] [''1003''] = protein_padded"
    by code_simp
  have i2: "findNutrient [fiber_2_g, protein_padded, protein_500_mg] [''pRoTeIn'']
      = protein_padded"
    by code_simp
  have i3: "findNutrient [fiber_2_g, fat_numeric_code] [''1004''] = fat_numeric_code"
    by code_simp
  have i4: "findNutrient [fiber_2_g, fat_numeric_code] fat_ids = fat_numeric_code"
    by code_simp
  have i5: "findNutrient [protein_500_mg, fiber_2_g] [''1079''] = fiber_2_g"
    by code_simp
  have i6: "findNutrient [protein_500_mg, fiber_2_g] [''FIBER, total Dietary''] = fiber_2_g"
    by code_simp
  have i7: "findNutrient [code_in_small_letters, protein_500_mg] [''Protein''] = protein_500_mg"
    by code_simp
  have i8: "findNutrient [code_in_small_letters, fiber_2_g] [''Protein''] = Null"
    by code_simp
  from a b c d e i1 i2 i3 i4 i5 i6 i7 i8 show ?thesis
    by blast
qed

theorem findNutrient_first_match_witness:
  "nutrient_record fiber_2_g \<and> nutrient_record protein_500_mg \<and>
   nutrient_record energy_100_kJ \<and> nutrient_record protein_padded \<and>
   findNutrient [fiber_2_g, protein_500_mg, energy_100_kJ] [''1008'', ''Energy''] = energy_100_kJ \<and>
   find (record_matches [''1008'', ''Energy'']) [fiber_2_g, protein_500_mg, energy_100_kJ]
     = Some energy_100_kJ \<and>
   record_code protein_500_mg = ''1003'' \<and> record_name protein_500_mg = ''Protein'' \<and>
   findNutrient [protein_500_mg, fiber_2_g] [''1003''] = protein_500_mg \<and>
   findNutrient [protein_500_mg, fiber_2_g] [''Protein''] = protein_500_mg \<and>
   get_opt protein_padded ''nutrientNumber'' = Str ([CHR 0x09, CHR 0x20] @ ''1003'' @ ''  '') \<and>
   blank [CHR 0x09, CHR 0x20] \<and> blank ''  '' \<and> tight ''1003'' \<and>
   record_code protein_padded = ''1003'' \<and>
   get_opt protein_padded ''nutrientName'' = Str (''  '' @ ''PROTEIN'' @ [CHR 0x20, CHR 0x0A]) \<and>
   blank [CHR 0x20, CHR 0x0A] \<and> tight ''PROTEIN'' \<and>
   record_name protein_padded = ''PROTEIN'' \<and>
   equal_ignoring_case ''pRoTeIn'' ''PROTEIN'' \<and> \<not> equal_ignoring_case ''protein'' ''proteins'' \<and>
   record_matches [''pRoTeIn''] protein_padded \<and>
   find (record_matches [''pRoTeIn'']) [fiber_2_g, protein_padded, protein_500_mg]
     = Some protein_padded \<and>
   findNutrient [fiber_2_g, protein_padded, protein_500_mg] [''pRoTeIn''] = protein_padded \<and>
   findNutrient [fiber_2_g, protein_padded, protein_500_mg] [''1003''] = protein_padded"
proof -
  have h1: "nutrient_record fiber_2_g \<and> nutrient_record protein_500_mg \<and>
      nutrient_record energy_100_kJ \<and> nutrient_record protein_padded"
    by code_simp
  have h2: "find (record_matches [''1008'', ''Energy'']) [fiber_2_g, protein_500_mg, energy_100_kJ]
     = Some energy_100_kJ"
    by code_simp
  have h3: "nutrient_record protein_500_mg \<and> record_code protein_500_mg = ''1003'' \<and>
      record_name protein_500_mg = ''Protein''"
    by code_simp
  from h1 have h0: "\<forall>n \<in> set [fiber_2_g, protein_500_mg, energy_100_kJ]. nutrient_record n"
    by simp
  have c: "findNutrient [fiber_2_g, protein_500_mg, energy_100_kJ] [''1008'', ''Energy'']
        = energy_100_kJ \<and>
      findNutrient [protein_500_mg, fiber_2_g] [''1003''] = protein_500_mg \<and>
      findNutrient [protein_500_mg, fiber_2_g] [''Protein''] = protein_500_mg"
    using findNutrient_first_match
      [where ns = "[fiber_2_g, protein_500_mg, energy_100_kJ]" and ids = "[''1008'', ''Energy'']"
        and r = protein_500_mg and rest = "[fiber_2_g]"] h0 h1 h2 h3
    by simp
  have p1: "get_opt protein_padded ''nutrientNumber''
      = Str ([CHR 0x09, CHR 0x20] @ ''1003'' @ ''  '')"
    by code_simp
  have p2: "get_opt protein_padded ''nutrientName''
      = Str (''  '' @ ''PROTEIN'' @ [CHR 0x20, CHR 0x0A])"
    by code_simp
  have w: "blank [CHR 0x09, CHR 0x20]" "blank ''  ''" "tight ''1003''"
    "blank [CHR 0x20, CHR 0x0A]" "tight ''PROTEIN''"
    by code_simp+
  have q: "equal_ignoring_case ''pRoTeIn'' ''PROTEIN''"
    "\<not> equal_ignoring_case ''protein'' ''proteins''"
    by code_simp+
  have rc: "record_code protein_padded = ''1003''"
    using findNutrient_first_match
      [where r = protein_padded and ?ws1.0 = "[CHR 0x09, CHR 0x20]" and c = "''1003''"
        and ?ws2.0 = "''  ''"] p1 w
    by blast
  have rn: "record_name protein_padded = ''PROTEIN''"
    using findNutrient_first_match
      [where r = protein_padded and ?ws1.0 = "''  ''" and c = "''PROTEIN''"
        and ?ws2.0 = "[CHR 0x20, CHR 0x0A]"] p2 w
    by blast
  have rm: "record_matches [''pRoTeIn''] protein_padded"
    using findNutrient_first_match [where ids = "[''pRoTeIn'']" and r = protein_padded] rn q
    by simp
  have nm: "\<not> record_matches [''pRoTeIn''] fiber_2_g"
    by code_simp
  from rm nm have fd: "find (record_matches [''pRoTeIn''])
      [fiber_2_g, protein_padded, protein_500_mg] = Some protein_padded"
    by simp
  from h1 have h4: "\<forall>n \<in> set [fiber_2_g, protein_padded, protein_500_mg]. nutrient_record n"
    by simp
  have f1: "findNutrient [fiber_2_g, protein_padded, protein_500_mg] [''pRoTeIn'']
      = protein_padded"
    using findNutrient_first_match
      [where ns = "[fiber_2_g, protein_padded, protein_500_mg]" and ids = "[''pRoTeIn'']"]
      h4 fd
    by simp
  have f2: "findNutrient [fiber_2_g, protein_padded, protein_500_mg] [''1003'']
      = protein_padded"
    using findNutrient_first_match by blast
  from h1 h2 h3 c p1 p2 w q rc rn rm fd f1 f2 show ?thesis by blast
qed

section \<open>Energy and mass extraction\<close>

text \<open>
  Claim C1. On a list of raw nutrient records, \<open>getEnergyKcal\<close> locates a record with the
  identifiers \<open>1008\<close> and \<open>Energy\<close>. When the unit of that record is kilojoules, its
  value is divided by 4.184 and the quotient rounded to one decimal place; otherwise the
  value itself is rounded to one decimal place. With no such record, or a value that is not
  finite, the result is \<open>null\<close>. A record of 100 kJ gives 23.9.
\<close>

theorem getEnergyKcal_spec:
  "((\<forall>n \<in> set ns. nutrient_record n) \<longrightarrow>
      getEnergyKcal ns =
        (case find (record_matches [''1008'', ''Energy'']) ns of
           None \<Rightarrow> Null
         | Some m \<Rightarrow>
             (case record_value m of
                Fin x \<Rightarrow>
                  if toLowerCase (record_unit m) = ''kj''
                  then Num (Number_toFixed 1 (js_div (Fin x) (toDouble (4184 / 1000))))
                  else Num (Number_toFixed 1 (Fin x))
              | _ \<Rightarrow> Null))) \<and>
   ((\<forall>n \<in> set ns. nutrient_record n) \<and>
    find (record_matches [''1008'', ''Energy'']) ns = Some m \<and>
    toLowerCase (record_unit m) = ''kj'' \<and> record_value m = Fin 100 \<longrightarrow>
      getEnergyKcal ns = Num (toDouble (239 / 10)))"
proof (intro conjI impI)
  assume "\<forall>n \<in> set ns. nutrient_record n"
  then show "getEnergyKcal ns =
      (case find (record_matches [''1008'', ''Energy'']) ns of
         None \<Rightarrow> Null
       | Some m \<Rightarrow>
           (case record_value m of
              Fin x \<Rightarrow>
                if toLowerCase (record_unit m) = ''kj''
                then Num (Number_toFixed 1 (js_div (Fin x) (toDouble (4184 / 1000))))
                else Num (Number_toFixed 1 (Fin x))
            | _ \<Rightarrow> Null))"
    by (rule getEnergyKcal_records)
next
  assume h: "(\<forall>n \<in> set ns. nutrient_record n) \<and>
    find (record_matches [''1008'', ''Energy'']) ns = Some m \<and>
    toLowerCase (record_unit m) = ''kj'' \<and> record_value m = Fin 100"
  then have "getEnergyKcal ns =
      Num (Number_toFixed 1 (js_div (Fin 100) (toDouble (4184 / 1000))))"
    by (simp add: getEnergyKcal_records)
  then show "getEnergyKcal ns = Num (toDouble (239 / 10))"
    by (simp only: energy_100_kJ_rounded)
qed

theorem getEnergyKcal_spec_witness:
  "nutrient_record fiber_2_g \<and> nutrient_record energy_100_kJ \<and>
   find (record_matches [''1008'', ''Energy'']) [fiber_2_g, energy_100_kJ] = Some energy_100_kJ \<and>
   toLowerCase (record_unit energy_100_kJ) = ''kj'' \<and>
   record_value energy_100_kJ = Fin 100 \<and>
   getEnergyKcal [fiber_2_g, energy_100_kJ] = Num (toDouble (239 / 10)) \<and>
   toDouble (239 / 10) = Fin (3363625971692339 / 140737488355328)"
proof -
  have h1: "nutrient_record fiber_2_g \<and> nutrient_record energy_100_kJ"
    by code_simp
  have h2: "find (record_matches [''1008'', ''Energy'']) [fiber_2_g, energy_100_kJ]
      = Some energy_100_kJ"
    by code_simp
  have h3: "toLowerCase (record_unit energy_100_kJ) = ''kj'' \<and>
      record_value energy_100_kJ = Fin 100"
    by code_simp
  have h4: "toDouble (239 / 10) = Fin (3363625971692339 / 140737488355328)"
    by code_simp
  from h1 have h0: "\<forall>n \<in> set [fiber_2_g, energy_100_kJ]. nutrient_record n"
    by simp
  have c: "getEnergyKcal [fiber_2_g, energy_100_kJ] = Num (toDouble (239 / 10))"
    using getEnergyKcal_spec [of "[fiber_2_g, energy_100_kJ]" energy_100_kJ] h0 h2 h3
    by blast
  from h1 h2 h3 h4 c show ?thesis by blast
qed


text \<open>
  Claim C2. For protein, fat and carbohydrates (the three alias lists the normalizer
  passes) and on a list of raw nutrient records, \<open>getNutrientGrams\<close> locates a record
  with the alias list of the nutrient. When the unit of that record is milligrams its value
  is divided by 1000; the result is rounded to two decimal places. With no such record, or
  a value that is not finite, the result is \<open>null\<close>. A record of 500 mg gives 0.5.

  Rounded to two decimal places: the result is the double nearest to \<open>k / 100\<close> for
  an integer \<open>k\<close> that lies within one half of a hundred times the value (the
  value after the division, itself a double); a value from \<open>10^21\<close> on is left as it
  is. A record of 1234 mg gives 1.23, and one of 2.375 g gives 2.38.
\<close>

theorem getNutrientGrams_spec:
  "((\<forall>n \<in> set ns. nutrient_record n) \<longrightarrow>
      getNutrientGrams ns ids =
        (case find (record_matches ids) ns of
           None \<Rightarrow> Null
         | Some m \<Rightarrow>
             (case record_value m of
                Fin x \<Rightarrow>
                  if toLowerCase (record_unit m) = ''mg''
                  then Num (Number_toFixed 2 (js_div (Fin x) (Fin 1000)))
                  else Num (Number_toFixed 2 (Fin x))
              | _ \<Rightarrow> Null))) \<and>
   ((\<forall>n \<in> set ns. nutrient_record n) \<and> find (record_matches ids) ns = Some m \<and>
    record_unit m \<in> {''mg'', ''mG'', ''Mg'', ''MG''} \<and> record_value m = Fin x \<and>
    toDouble (x / 1000) = Fin v \<longrightarrow>
      (if \<bar>v\<bar> < 10 ^ 21
       then \<exists>k::int. getNutrientGrams ns ids = Num (toDouble (of_int k / 100)) \<and>
              \<bar>of_int k - v * 100\<bar> \<le> 1 / 2
       else getNutrientGrams ns ids = Num (Fin v))) \<and>
   ((\<forall>n \<in> set ns. nutrient_record n) \<and> find (record_matches ids) ns = Some m \<and>
    record_unit m \<notin> {''mg'', ''mG'', ''Mg'', ''MG''} \<and> record_value m = Fin x \<longrightarrow>
      (if \<bar>x\<bar> < 10 ^ 21
       then \<exists>k::int. getNutrientGrams ns ids = Num (toDouble (of_int k / 100)) \<and>
              \<bar>of_int k - x * 100\<bar> \<le> 1 / 2
       else getNutrientGrams ns ids = Num (Fin x))) \<and>
   ((\<forall>n \<in> set ns. nutrient_record n) \<and> find (record_matches ids) ns = Some m \<and>
    toLowerCase (record_unit m) = ''mg'' \<and> record_value m = Fin 500 \<longrightarrow>
      getNutrientGrams ns ids = Num (Fin (1 / 2))) \<and>
   ((\<forall>n \<in> set ns. nutrient_record n) \<and> find (record_matches ids) ns = Some m \<and>
    record_unit m \<in> {''mg'', ''mG'', ''Mg'', ''MG''} \<and> record_value m = Fin 1234 \<longrightarrow>
      getNutrientGrams ns ids = Num (toDouble (123 / 100))) \<and>
   ((\<forall>n \<in> set ns. nutrient_record n) \<and> find (record_matches ids) ns = Some m \<and>
    record_unit m \<notin> {''mg'', ''mG'', ''Mg'', ''MG''} \<and> record_value m = Fin (19 / 8) \<longrightarrow>
      getNutrientGrams ns ids = Num (toDouble (238 / 100))) \<and>
   macros (normalize_item item) =
     \<lparr> protein_g = getNutrientGrams (food_nutrients item) protein_ids,
       carbs_g = getNutrientGrams (food_nutrients item) carbs_ids,
       fat_g = getNutrientGrams (food_nutrients item) fat_ids \<rparr>"
proof -
  have a: "getNutrientGrams ns ids =
        (case find (record_matches ids) ns of
           None \<Rightarrow> Null
         | Some m \<Rightarrow>
             (case record_value m of
                Fin x \<Rightarrow>
                  if toLowerCase (record_unit m) = ''mg''
                  then Num (Number_toFixed 2 (js_div (Fin x) (Fin 1000)))
                  else Num (Number_toFixed 2 (Fin x))
              | _ \<Rightarrow> Null))"
    if "\<forall>n \<in> set ns. nutrient_record n"
    using that by (rule getNutrientGrams_records)
  have b: "(if \<bar>v\<bar> < 10 ^ 21
       then \<exists>k::int. getNutrientGrams ns ids = Num (toDouble (of_int k / 100)) \<and>
              \<bar>of_int k - v * 100\<bar> \<le> 1 / 2
       else getNutrientGrams ns ids = Num (Fin v))"
    if "(\<forall>n \<in> set ns. nutrient_record n) \<and> find (record_matches ids) ns = Some m \<and>
      record_unit m \<in> {''mg'', ''mG'', ''Mg'', ''MG''} \<and> record_value m = Fin x \<and>
      toDouble (x / 1000) = Fin v"
    using that by (blast intro: getNutrientGrams_nearest(1))
  have c: "(if \<bar>x\<bar> < 10 ^ 21
       then \<exists>k::int. getNutrientGrams ns ids = Num (toDouble (of_int k / 100)) \<and>
              \<bar>of_int k - x * 100\<bar> \<le> 1 / 2
       else getNutrientGrams ns ids = Num (Fin x))"
    if "(\<forall>n \<in> set ns. nutrient_record n) \<and> find (record_matches ids) ns = Some m \<and>
      record_unit m \<notin> {''mg'', ''mG'', ''Mg'', ''MG''} \<and> record_value m = Fin x"
    using that by (blast intro: getNutrientGrams_nearest(2))
  have d: "getNutrientGrams ns ids = Num (Fin (1 / 2))"
    if h: "(\<forall>n \<in> set ns. nutrient_record n) \<and> find (record_matches ids) ns = Some m \<and>
      toLowerCase (record_unit m) = ''mg'' \<and> record_value m = Fin 500"
  proof -
    from h have "getNutrientGrams ns ids = Num (Number_toFixed 2 (js_div (Fin 500) (Fin 1000)))"
      by (simp add: getNutrientGrams_records)
    then show ?thesis
      by (simp only: mass_500_mg_rounded double_0_5)
  qed
  have e: "getNutrientGrams ns ids = Num (toDouble (123 / 100))"
    if h: "(\<forall>n \<in> set ns. nutrient_record n) \<and> find (record_matches ids) ns = Some m \<and>
      record_unit m \<in> {''mg'', ''mG'', ''Mg'', ''MG''} \<and> record_value m = Fin 1234"
  proof -
    from h have r: "\<forall>n \<in> set ns. nutrient_record n"
      and f: "find (record_matches ids) ns = Some m"
      and u: "record_unit m \<in> {''mg'', ''mG'', ''Mg'', ''MG''}"
      and v: "record_value m = Fin 1234"
      by blast+
    have "getNutrientGrams ns ids =
        (if record_unit m \<in> {''mg'', ''mG'', ''Mg'', ''MG''}
         then Num (Number_toFixed 2 (js_div (Fin 1234) (Fin 1000)))
         else Num (Number_toFixed 2 (Fin 1234)))"
      by (simp only: getNutrientGrams_records [OF r] f option.case v jsnum.case lower_mg)
    moreover have "Number_toFixed 2 (js_div (Fin 1234) (Fin 1000)) = toDouble (123 / 100)"
      by code_simp
    ultimately show ?thesis
      using u by (simp only: if_True)
  qed
  have g: "getNutrientGrams ns ids = Num (toDouble (238 / 100))"
    if h: "(\<forall>n \<in> set ns. nutrient_record n) \<and> find (record_matches ids) ns = Some m \<and>
      record_unit m \<notin> {''mg'', ''mG'', ''Mg'', ''MG''} \<and> record_value m = Fin (19 / 8)"
  proof -
    from h have r: "\<forall>n \<in> set ns. nutrient_record n"
      and f: "find (record_matches ids) ns = Some m"
      and u: "record_unit m \<notin> {''mg'', ''mG'', ''Mg'', ''MG''}"
      and v: "record_value m = Fin (19 / 8)"
      by blast+
    have "getNutrientGrams ns ids =
        (if record_unit m \<in> {''mg'', ''mG'', ''Mg'', ''MG''}
         then Num (Number_toFixed 2 (js_div (Fin (19 / 8)) (Fin 1000)))
         else Num (Number_toFixed 2 (Fin (19 / 8))))"
      by (simp only: getNutrientGrams_records [OF r] f option.case v jsnum.case lower_mg)
    moreover have "Number_toFixed 2 (Fin (19 / 8)) = toDouble (238 / 100)"
      by code_simp
    ultimately show ?thesis
      using u by (simp only: if_False)
  qed
  have m: "macros (normalize_item item) =
     \<lparr> protein_g = getNutrientGrams (food_nutrients item) protein_ids,
       carbs_g = getNutrientGrams (food_nutrients item) carbs_ids,
       fat_g = getNutrientGrams (food_nutrients item) fat_ids \<rparr>"
    by (simp add: normalize_item_def Let_def)
  from a b c d e g m show ?thesis
    by blast
qed

theorem getNutrientGrams_spec_witness:
  "nutrient_record fiber_2_g \<and> nutrient_record protein_500_mg \<and>
   nutrient_record carbs_1234_mg \<and> nutrient_record fat_numeric_code \<and>
   find (record_matches protein_ids) [fiber_2_g, protein_500_mg] = Some protein_500_mg \<and>
   toLowerCase (record_unit protein_500_mg) = ''mg'' \<and>
   record_value protein_500_mg = Fin 500 \<and>
   getNutrientGrams [fiber_2_g, protein_500_mg] protein_ids = Num (Fin (1 / 2)) \<and>
   find (record_matches carbs_ids) [fiber_2_g, carbs_1234_mg] = Some carbs_1234_mg \<and>
   record_unit carbs_1234_mg = ''MG'' \<and> record_value carbs_1234_mg = Fin 1234 \<and>
   getNutrientGrams [fiber_2_g, carbs_1234_mg] carbs_ids = Num (toDouble (123 / 100)) \<and>
   toDouble (123 / 100) = Fin (2769713770832855 / 2251799813685248) \<and>
   find (record_matches fat_ids) [fiber_2_g, fat_numeric_code] = Some fat_numeric_code \<and>
   record_unit fat_numeric_code = ''G'' \<and> record_value fat_numeric_code = Fin (19 / 8) \<and>
   getNutrientGrams [fiber_2_g, fat_numeric_code] fat_ids = Num (toDouble (238 / 100)) \<and>
   toDouble (238 / 100) = Fin (2679641778285445 / 1125899906842624) \<and>
   getNutrientGrams [fiber_2_g] protein_ids = Null \<and>
   normalize_item (Obj [(''foodNutrients'', Arr [carbs_1234_mg, fat_numeric_code])]) =
     \<lparr> fdcId = Null, description = Null, brandName = Null, servingSize = Null,
       servingSizeUnit = Null, calories = Null,
       macros = \<lparr> protein_g = Null,
         carbs_g = Num (Fin (2769713770832855 / 2251799813685248)),
         fat_g = Num (Fin (2679641778285445 / 1125899906842624)) \<rparr> \<rparr>"
proof -
  have h1: "nutrient_record fiber_2_g \<and> nutrient_record protein_500_mg \<and>
      nutrient_record carbs_1234_mg \<and> nutrient_record fat_numeric_code"
    by code_simp
  have h2: "find (record_matches protein_ids) [fiber_2_g, protein_500_mg] = Some protein_500_mg"
    by code_simp
  have h3: "toLowerCase (record_unit protein_500_mg) = ''mg'' \<and>
      record_value protein_500_mg = Fin 500"
    by code_simp
  have h4: "find (record_matches carbs_ids) [fiber_2_g, carbs_1234_mg] = Some carbs_1234_mg \<and>
      record_unit carbs_1234_mg = ''MG'' \<and> record_value carbs_1234_mg = Fin 1234"
    by code_simp
  have h5: "find (record_matches fat_ids) [fiber_2_g, fat_numeric_code] = Some fat_numeric_code \<and>
      record_unit fat_numeric_code = ''G'' \<and> record_value fat_numeric_code = Fin (19 / 8)"
    by code_simp
  have h6: "find (record_matches protein_ids) [fiber_2_g] = None"
    by code_simp
  have d: "toDouble (123 / 100) = Fin (2769713770832855 / 2251799813685248)"
    "toDouble (238 / 100) = Fin (2679641778285445 / 1125899906842624)"
    by code_simp+
  from h1 have r1: "\<forall>n \<in> set [fiber_2_g, protein_500_mg]. nutrient_record n"
    and r2: "\<forall>n \<in> set [fiber_2_g, carbs_1234_mg]. nutrient_record n"
    and r3: "\<forall>n \<in> set [fiber_2_g, fat_numeric_code]. nutrient_record n"
    and r4: "\<forall>n \<in> set [fiber_2_g]. nutrient_record n"
    by simp_all
  have c1: "getNutrientGrams [fiber_2_g, protein_500_mg] protein_ids = Num (Fin (1 / 2))"
    using getNutrientGrams_spec
      [where ns = "[fiber_2_g, protein_500_mg]" and ids = protein_ids and m = protein_500_mg]
      r1 h2 h3
    by blast
  have u2: "record_unit carbs_1234_mg \<in> {''mg'', ''mG'', ''Mg'', ''MG''}"
    using h4 by simp
  have c2: "getNutrientGrams [fiber_2_g, carbs_1234_mg] carbs_ids = Num (toDouble (123 / 100))"
    using getNutrientGrams_spec
      [where ns = "[fiber_2_g, carbs_1234_mg]" and ids = carbs_ids and m = carbs_1234_mg]
      r2 h4 u2
    by blast
  have u: "record_unit fat_numeric_code \<notin> {''mg'', ''mG'', ''Mg'', ''MG''}"
    using h5 by simp
  have c3: "getNutrientGrams [fiber_2_g, fat_numeric_code] fat_ids = Num (toDouble (238 / 100))"
    using getNutrientGrams_spec
      [where ns = "[fiber_2_g, fat_numeric_code]" and ids = fat_ids and m = fat_numeric_code]
      r3 h5 u
    by blast
  have "getNutrientGrams [fiber_2_g] protein_ids =
      (case find (record_matches protein_ids) [fiber_2_g] of
         None \<Rightarrow> Null
       | Some m \<Rightarrow>
           (case record_value m of
              Fin x \<Rightarrow>
                if toLowerCase (record_unit m) = ''mg''
                then Num (Number_toFixed 2 (js_div (Fin x) (Fin 1000)))
                else Num (Number_toFixed 2 (Fin x))
            | _ \<Rightarrow> Null))"
    using getNutrientGrams_spec [where ns = "[fiber_2_g]" and ids = protein_ids] r4
    by blast
  then have c4: "getNutrientGrams [fiber_2_g] protein_ids = Null"
    by (simp only: h6 option.case)
  have ev: "normalize_item (Obj [(''foodNutrients'', Arr [carbs_1234_mg, fat_numeric_code])]) =
     \<lparr> fdcId = Null, description = Null, brandName = Null, servingSize = Null,
       servingSizeUnit = Null, calories = Null,
       macros = \<lparr> protein_g = Null,
         carbs_g = Num (Fin (2769713770832855 / 2251799813685248)),
         fat_g = Num (Fin (2679641778285445 / 1125899906842624)) \<rparr> \<rparr>"
    by code_simp
  from h1 h2 h3 h4 h5 d c1 c2 c3 c4 ev show ?thesis by blast
qed

section \<open>Values given as strings\<close>

text \<open>
  Claim C9. When the \<open>value\<close> of a nutrient record is a string \<open>s\<close>, both extractors
  use \<open>Number(s)\<close>: the result is the one obtained from the same record with the number
  \<open>Number(s)\<close> as its value, so a numeric string such as \<open>95\<close> is converted and
  rounded like the number 95. When \<open>Number(s)\<close> is not finite and the record is the one
  located, the result is \<open>null\<close>.
\<close>

theorem string_value_coerced:
  "(get_opt m ''value'' = Str s \<longrightarrow>
      getEnergyKcal (pre @ m # post) =
        getEnergyKcal (pre @ with_value m (Num (StringToNumber s)) # post) \<and>
      getNutrientGrams (pre @ m # post) ids =
        getNutrientGrams (pre @ with_value m (Num (StringToNumber s)) # post) ids) \<and>
   StringToNumber ''95'' = Fin 95 \<and>
   (get_opt (findNutrient ns [''1008'', ''Energy'']) ''value'' = Str s \<and>
    \<not> isFinite (StringToNumber s) \<longrightarrow> getEnergyKcal ns = Null) \<and>
   (get_opt (findNutrient ns ids) ''value'' = Str s \<and>
    \<not> isFinite (StringToNumber s) \<longrightarrow> getNutrientGrams ns ids = Null)"
proof (intro conjI impI)
  assume "get_opt m ''value'' = Str s"
  then show "getEnergyKcal (pre @ m # post) =
      getEnergyKcal (pre @ with_value m (Num (StringToNumber s)) # post)"
    by (rule getEnergyKcal_with_value)
next
  assume "get_opt m ''value'' = Str s"
  then show "getNutrientGrams (pre @ m # post) ids =
      getNutrientGrams (pre @ with_value m (Num (StringToNumber s)) # post) ids"
    by (rule getNutrientGrams_with_value)
next
  show "StringToNumber ''95'' = Fin 95"
    by code_simp
next
  assume h: "get_opt (findNutrient ns [''1008'', ''Energy'']) ''value'' = Str s \<and>
    \<not> isFinite (StringToNumber s)"
  then show "getEnergyKcal ns = Null"
    using extract_not_finite [of "findNutrient ns [''1008'', ''Energy'']" s]
    by (simp add: getEnergyKcal_def getEnergyKcal_body_def Let_def)
next
  assume h: "get_opt (findNutrient ns ids) ''value'' = Str s \<and> \<not> isFinite (StringToNumber s)"
  then show "getNutrientGrams ns ids = Null"
    using extract_not_finite [of "findNutrient ns ids" s]
    by (simp add: getNutrientGrams_def getNutrientGrams_body_def Let_def)
qed

theorem string_value_coerced_witness:
  "get_opt energy_95_text ''value'' = Str ''95'' \<and>
   getEnergyKcal [fiber_2_g, energy_95_text] =
     getEnergyKcal [fiber_2_g, with_value energy_95_text (Num (Fin 95))] \<and>
   getEnergyKcal [fiber_2_g, energy_95_text] = Num (Fin 95) \<and>
   get_opt protein_500_text ''value'' = Str ''500'' \<and>
   getNutrientGrams [fiber_2_g, protein_500_text] protein_ids =
     getNutrientGrams [fiber_2_g, with_value protein_500_text (Num (Fin 500))] protein_ids \<and>
   getNutrientGrams [fiber_2_g, protein_500_text] protein_ids = Num (Fin (1 / 2)) \<and>
   get_opt (findNutrient [energy_no_number] [''1008'', ''Energy'']) ''value'' = Str ''n/a'' \<and>
   StringToNumber ''n/a'' = NaN \<and>
   getEnergyKcal [energy_no_number] = Null \<and>
   get_opt (findNutrient [protein_no_number] protein_ids) ''value'' = Str ''trace'' \<and>
   StringToNumber ''trace'' = NaN \<and>
   getNutrientGrams [protein_no_number] protein_ids = Null"
proof -
  have v1: "get_opt energy_95_text ''value'' = Str ''95''"
    by code_simp
  have v2: "get_opt protein_500_text ''value'' = Str ''500''"
    by code_simp
  have n1: "StringToNumber ''95'' = Fin 95" "StringToNumber ''500'' = Fin 500"
    by code_simp+
  have e1: "getEnergyKcal [fiber_2_g, with_value energy_95_text (Num (Fin 95))] = Num (Fin 95)"
    by code_simp
  have g1: "getNutrientGrams [fiber_2_g, with_value protein_500_text (Num (Fin 500))] protein_ids
      = Num (Fin (1 / 2))"
    by code_simp
  have c1: "getEnergyKcal [fiber_2_g, energy_95_text] =
      getEnergyKcal [fiber_2_g, with_value energy_95_text (Num (Fin 95))]"
    using string_value_coerced [of energy_95_text "''95''" "[fiber_2_g]" "[]"] v1 n1
    by simp
  have c2: "getNutrientGrams [fiber_2_g, protein_500_text] protein_ids =
      getNutrientGrams [fiber_2_g, with_value protein_500_text (Num (Fin 500))] protein_ids"
    using string_value_coerced [of protein_500_text "''500''" "[fiber_2_g]" "[]" protein_ids]
      v2 n1
    by simp
  have v3: "get_opt (findNutrient [energy_no_number] [''1008'', ''Energy'']) ''value''
      = Str ''n/a''"
    by code_simp
  have v4: "get_opt (findNutrient [protein_no_number] protein_ids) ''value'' = Str ''trace''"
    by code_simp
  have n3: "StringToNumber ''n/a'' = NaN" "StringToNumber ''trace'' = NaN"
    by code_simp+
  have c3: "getEnergyKcal [energy_no_number] = Null"
    using string_value_coerced [where s = "''n/a''" and ns = "[energy_no_number]"] v3 n3
    by simp
  have c4: "getNutrientGrams [protein_no_number] protein_ids = Null"
    using string_value_coerced
      [where s = "''trace''" and ns = "[protein_no_number]" and ids = protein_ids] v4 n3
    by simp
  from v1 v2 e1 g1 c1 c2 v3 v4 n3 c3 c4 show ?thesis by simp
qed

section \<open>The unit of the located record\<close>

text \<open>
  Claim C10. The unit of the located record is its \<open>unitName\<close>, or else its \<open>unit\<close>,
  and it is compared in lower case: the energy is converted from kilojoules exactly when
  the unit is \<open>kJ\<close>, \<open>KJ\<close>, \<open>kj\<close> or \<open>Kj\<close>, the mass from milligrams exactly
  when it is \<open>mg\<close> in any casing. With any other unit string, or no unit, the value is
  only rounded.
\<close>

theorem unit_compared_in_lower_case:
  "((\<forall>n \<in> set ns. nutrient_record n) \<and>
    find (record_matches [''1008'', ''Energy'']) ns = Some m \<and> record_value m = Fin x \<longrightarrow>
      getEnergyKcal ns =
        (if record_unit m \<in> {''kj'', ''kJ'', ''Kj'', ''KJ''}
         then Num (Number_toFixed 1 (js_div (Fin x) (toDouble (4184 / 1000))))
         else Num (Number_toFixed 1 (Fin x)))) \<and>
   ((\<forall>n \<in> set ns. nutrient_record n) \<and>
    find (record_matches ids) ns = Some m \<and> record_value m = Fin x \<longrightarrow>
      getNutrientGrams ns ids =
        (if record_unit m \<in> {''mg'', ''mG'', ''Mg'', ''MG''}
         then Num (Number_toFixed 2 (js_div (Fin x) (Fin 1000)))
         else Num (Number_toFixed 2 (Fin x)))) \<and>
   (nutrient_record m \<longrightarrow> unit_of m = Inr (toLowerCase (record_unit m))) \<and>
   (get_opt m ''unitName'' = Str u \<and> u \<noteq> [] \<longrightarrow> record_unit m = u) \<and>
   (get_opt m ''unitName'' \<in> {Undefined, Null, Str []} \<and> get_opt m ''unit'' = Str u
      \<longrightarrow> record_unit m = u) \<and>
   (get_opt m ''unitName'' \<in> {Undefined, Null, Str []} \<and>
    get_opt m ''unit'' \<in> {Undefined, Null} \<longrightarrow> record_unit m = [])"
proof -
  have e: "getEnergyKcal ns =
        (if record_unit m \<in> {''kj'', ''kJ'', ''Kj'', ''KJ''}
         then Num (Number_toFixed 1 (js_div (Fin x) (toDouble (4184 / 1000))))
         else Num (Number_toFixed 1 (Fin x)))"
    if "(\<forall>n \<in> set ns. nutrient_record n) \<and>
      find (record_matches [''1008'', ''Energy'']) ns = Some m \<and> record_value m = Fin x"
  proof -
    from that have r: "\<forall>n \<in> set ns. nutrient_record n"
      and f: "find (record_matches [''1008'', ''Energy'']) ns = Some m"
      and v: "record_value m = Fin x"
      by blast+
    show ?thesis
      by (simp only: getEnergyKcal_records [OF r] f option.case v jsnum.case lower_kj)
  qed
  have g: "getNutrientGrams ns ids =
        (if record_unit m \<in> {''mg'', ''mG'', ''Mg'', ''MG''}
         then Num (Number_toFixed 2 (js_div (Fin x) (Fin 1000)))
         else Num (Number_toFixed 2 (Fin x)))"
    if "(\<forall>n \<in> set ns. nutrient_record n) \<and>
      find (record_matches ids) ns = Some m \<and> record_value m = Fin x"
  proof -
    from that have r: "\<forall>n \<in> set ns. nutrient_record n"
      and f: "find (record_matches ids) ns = Some m"
      and v: "record_value m = Fin x"
      by blast+
    show ?thesis
      by (simp only: getNutrientGrams_records [OF r] f option.case v jsnum.case lower_mg)
  qed
  from e g unit_of_record [of m] record_unit_cases [of m u] show ?thesis
    by blast
qed

theorem unit_compared_in_lower_case_witness:
  "nutrient_record fiber_2_g \<and> nutrient_record energy_418_KJ \<and>
   find (record_matches [''1008'', ''Energy'']) [fiber_2_g, energy_418_KJ] = Some energy_418_KJ \<and>
   record_value energy_418_KJ = Fin 418 \<and>
   get_opt energy_418_KJ ''unitName'' = Str [] \<and> get_opt energy_418_KJ ''unit'' = Str ''KJ'' \<and>
   record_unit energy_418_KJ = ''KJ'' \<and>
   unit_of energy_418_KJ = Inr ''kj'' \<and>
   getEnergyKcal [fiber_2_g, energy_418_KJ] = Num (toDouble (999 / 10)) \<and>
   nutrient_record protein_500_mg \<and>
   find (record_matches protein_ids) [fiber_2_g, protein_500_mg] = Some protein_500_mg \<and>
   getNutrientGrams [fiber_2_g, protein_500_mg] protein_ids = Num (Fin (1 / 2)) \<and>
   find (record_matches [''1079'']) [fiber_2_g, protein_500_mg] = Some fiber_2_g \<and>
   record_unit fiber_2_g = ''g'' \<and>
   getNutrientGrams [fiber_2_g, protein_500_mg] [''1079''] = Num (Fin 2)"
proof -
  have r: "nutrient_record fiber_2_g \<and> nutrient_record energy_418_KJ \<and>
      nutrient_record protein_500_mg"
    by code_simp
  then have r1: "\<forall>n \<in> set [fiber_2_g, energy_418_KJ]. nutrient_record n"
    and r2: "\<forall>n \<in> set [fiber_2_g, protein_500_mg]. nutrient_record n"
    by simp_all
  have f1: "find (record_matches [''1008'', ''Energy'']) [fiber_2_g, energy_418_KJ]
      = Some energy_418_KJ \<and> record_value energy_418_KJ = Fin 418"
    by code_simp
  have u1: "get_opt energy_418_KJ ''unitName'' = Str [] \<and>
      get_opt energy_418_KJ ''unit'' = Str ''KJ''"
    by code_simp
  have f2: "find (record_matches protein_ids) [fiber_2_g, protein_500_mg] = Some protein_500_mg \<and>
      record_value protein_500_mg = Fin 500 \<and> record_unit protein_500_mg = ''mg''"
    by code_simp
  have f3: "find (record_matches [''1079'']) [fiber_2_g, protein_500_mg] = Some fiber_2_g \<and>
      record_value fiber_2_g = Fin 2 \<and> record_unit fiber_2_g = ''g''"
    by code_simp
  have n1: "Number_toFixed 1 (js_div (Fin 418) (toDouble (4184 / 1000))) = toDouble (999 / 10)"
    by code_simp
  have n2: "Number_toFixed 2 (Fin 2) = Fin 2"
    by code_simp
  have ru: "record_unit energy_418_KJ = ''KJ''"
    using unit_compared_in_lower_case [of "[]" energy_418_KJ 0 "[]" "''KJ''"] u1
    by simp
  have uo: "unit_of energy_418_KJ = Inr ''kj''"
    by code_simp
  have c1: "getEnergyKcal [fiber_2_g, energy_418_KJ] = Num (toDouble (999 / 10))"
    using unit_compared_in_lower_case [of "[fiber_2_g, energy_418_KJ]" energy_418_KJ 418]
      r1 f1 ru n1
    by simp
  have c2: "getNutrientGrams [fiber_2_g, protein_500_mg] protein_ids = Num (Fin (1 / 2))"
    using unit_compared_in_lower_case
      [of "[fiber_2_g, protein_500_mg]" protein_500_mg 500 protein_ids]
      r2 f2 mass_500_mg_rounded double_0_5
    by simp
  have c3: "getNutrientGrams [fiber_2_g, protein_500_mg] [''1079''] = Num (Fin 2)"
    using unit_compared_in_lower_case
      [of "[fiber_2_g, protein_500_mg]" fiber_2_g 2 "[''1079'']"]
      r2 f3 n2
    by simp
  from r f1 u1 f2 f3 ru uo c1 c2 c3 show ?thesis by blast
qed

section \<open>The normalized food\<close>

lemma rounded_or_null_proper:
  "rounded_or_null d v \<Longrightarrow>
     v \<noteq> Undefined \<and> v \<noteq> Num NaN \<and> v \<noteq> Num PosInf \<and> v \<noteq> Num NegInf"
  by (auto simp add: rounded_or_null_def)

text \<open>
  Claim C4. In a normalized food, \<open>calories\<close> is \<open>null\<close> or a finite number rounded
  to one decimal place, and each of \<open>protein_g\<close>, \<open>carbs_g\<close> and \<open>fat_g\<close> is
  \<open>null\<close> or a finite number rounded to two decimal places; none is \<open>NaN\<close> or
  \<open>undefined\<close>. When no nutrient of the item matches a sought nutrient, all four
  are \<open>null\<close>. The normalizer is a total function: it has no exception to raise.
\<close>

theorem normalize_item_fields:
  "((\<forall>n \<in> set (food_nutrients item). double_value n) \<longrightarrow>
      rounded_or_null 1 (calories (normalize_item item)) \<and>
      rounded_or_null 2 (protein_g (macros (normalize_item item))) \<and>
      rounded_or_null 2 (carbs_g (macros (normalize_item item))) \<and>
      rounded_or_null 2 (fat_g (macros (normalize_item item))) \<and>
      list_all (\<lambda>v. v \<noteq> Undefined \<and> v \<noteq> Num NaN)
        [calories (normalize_item item), protein_g (macros (normalize_item item)),
         carbs_g (macros (normalize_item item)), fat_g (macros (normalize_item item))]) \<and>
   ((\<forall>n \<in> set (food_nutrients item).
        \<not> record_matches [''1008'', ''Energy''] n \<and> \<not> record_matches protein_ids n \<and>
        \<not> record_matches fat_ids n \<and> \<not> record_matches carbs_ids n) \<longrightarrow>
      calories (normalize_item item) = Null \<and>
      macros (normalize_item item) = \<lparr> protein_g = Null, carbs_g = Null, fat_g = Null \<rparr>)"
proof (intro conjI impI)
  assume d: "\<forall>n \<in> set (food_nutrients item). double_value n"
  show c: "rounded_or_null 1 (calories (normalize_item item))"
    using getEnergyKcal_rounded [OF d] by (simp add: normalize_item_def Let_def)
  show p: "rounded_or_null 2 (protein_g (macros (normalize_item item)))"
    using getNutrientGrams_rounded [OF d] by (simp add: normalize_item_def Let_def)
  show b: "rounded_or_null 2 (carbs_g (macros (normalize_item item)))"
    using getNutrientGrams_rounded [OF d] by (simp add: normalize_item_def Let_def)
  show f: "rounded_or_null 2 (fat_g (macros (normalize_item item)))"
    using getNutrientGrams_rounded [OF d] by (simp add: normalize_item_def Let_def)
  from c p b f show "list_all (\<lambda>v. v \<noteq> Undefined \<and> v \<noteq> Num NaN)
        [calories (normalize_item item), protein_g (macros (normalize_item item)),
         carbs_g (macros (normalize_item item)), fat_g (macros (normalize_item item))]"
    by (simp add: rounded_or_null_proper)
next
  assume n: "\<forall>n \<in> set (food_nutrients item).
        \<not> record_matches [''1008'', ''Energy''] n \<and> \<not> record_matches protein_ids n \<and>
        \<not> record_matches fat_ids n \<and> \<not> record_matches carbs_ids n"
  then have "findNutrient (food_nutrients item) [''1008'', ''Energy''] = Null"
    by (simp add: findNutrient_no_match)
  then show "calories (normalize_item item) = Null"
    by (simp add: normalize_item_def Let_def getEnergyKcal_def getEnergyKcal_body_def)
next
  assume n: "\<forall>n \<in> set (food_nutrients item).
        \<not> record_matches [''1008'', ''Energy''] n \<and> \<not> record_matches protein_ids n \<and>
        \<not> record_matches fat_ids n \<and> \<not> record_matches carbs_ids n"
  then have "findNutrient (food_nutrients item) protein_ids = Null"
    and "findNutrient (food_nutrients item) fat_ids = Null"
    and "findNutrient (food_nutrients item) carbs_ids = Null"
    by (simp_all add: findNutrient_no_match)
  then show "macros (normalize_item item) = \<lparr> protein_g = Null, carbs_g = Null, fat_g = Null \<rparr>"
    by (simp add: normalize_item_def Let_def getNutrientGrams_def getNutrientGrams_body_def)
qed

theorem normalize_item_fields_witness:
  "food_nutrients food_without_macros = [fiber_2_g] \<and> double_value fiber_2_g \<and>
   \<not> record_matches [''1008'', ''Energy''] fiber_2_g \<and> \<not> record_matches protein_ids fiber_2_g \<and>
   \<not> record_matches fat_ids fiber_2_g \<and> \<not> record_matches carbs_ids fiber_2_g \<and>
   calories (normalize_item food_without_macros) = Null \<and>
   macros (normalize_item food_without_macros)
     = \<lparr> protein_g = Null, carbs_g = Null, fat_g = Null \<rparr> \<and>
   rounded_or_null 1 (calories (normalize_item food_without_macros)) \<and>
   food_nutrients food_with_energy = [energy_100_kJ, protein_500_mg] \<and>
   double_value energy_100_kJ \<and> double_value protein_500_mg \<and>
   rounded_or_null 1 (calories (normalize_item food_with_energy)) \<and>
   calories (normalize_item food_with_energy) = Num (toDouble (239 / 10)) \<and>
   rounded_or_null 2 (protein_g (macros (normalize_item food_with_energy))) \<and>
   protein_g (macros (normalize_item food_with_energy)) = Num (Fin (1 / 2))"
proof -
  have a1: "food_nutrients food_without_macros = [fiber_2_g]"
    by code_simp
  have a2: "food_nutrients food_with_energy = [energy_100_kJ, protein_500_mg]"
    by code_simp
  have d: "double_value fiber_2_g \<and> double_value energy_100_kJ \<and> double_value protein_500_mg"
    by (simp add: double_value_def double_limit_def fiber_2_g_def energy_100_kJ_def
        protein_500_mg_def)
  have m: "\<not> record_matches [''1008'', ''Energy''] fiber_2_g \<and>
      \<not> record_matches protein_ids fiber_2_g \<and>
      \<not> record_matches fat_ids fiber_2_g \<and> \<not> record_matches carbs_ids fiber_2_g"
    by code_simp
  have e: "calories (normalize_item food_with_energy) = Num (toDouble (239 / 10))"
    by code_simp
  have p: "protein_g (macros (normalize_item food_with_energy)) = Num (Fin (1 / 2))"
    by code_simp
  have c1: "calories (normalize_item food_without_macros) = Null \<and>
      macros (normalize_item food_without_macros)
        = \<lparr> protein_g = Null, carbs_g = Null, fat_g = Null \<rparr> \<and>
      rounded_or_null 1 (calories (normalize_item food_without_macros))"
  proof -
    have h1: "\<forall>n \<in> set (food_nutrients food_without_macros). double_value n"
      using a1 d by simp
    have h2: "\<forall>n \<in> set (food_nutrients food_without_macros).
        \<not> record_matches [''1008'', ''Energy''] n \<and> \<not> record_matches protein_ids n \<and>
        \<not> record_matches fat_ids n \<and> \<not> record_matches carbs_ids n"
      using a1 m by simp
    from normalize_item_fields [of food_without_macros] h1 h2 show ?thesis by blast
  qed
  have c2: "rounded_or_null 1 (calories (normalize_item food_with_energy)) \<and>
      rounded_or_null 2 (protein_g (macros (normalize_item food_with_energy)))"
  proof -
    have h1: "\<forall>n \<in> set (food_nutrients food_with_energy). double_value n"
      using a2 d by simp
    from normalize_item_fields [of food_with_energy] h1 show ?thesis by blast
  qed
  from a1 a2 d m e p c1 c2 show ?thesis by blast
qed

section \<open>The limit of a request\<close>

text \<open>
  Claim C5, as stated, fails: a request with \<open>type=apple\<close> and \<open>limit=51\<close> is not
  served with the limit clamped to 50. The validation chain rejects it and the response is
  400 with a \<open>ValidationError\<close>.
\<close>

theorem limit_51_rejected:
  "foods_handler (Some ''key'') (upstream_answers 200 (Inr apple_foods))
     \<lparr> type_param = Some ''apple'', limit_param = Some ''51'' \<rparr> =
   \<lparr> status = 400,
     body = Failure
       \<lparr> err_error = ''Invalid request parameters: Limit must be a number between 1 and 50'',
         err_type = ''ValidationError'', upstream_status = None, upstream_details = None,
         original_error = None \<rparr> \<rparr>"
  by code_simp

text \<open>
  Claim C5, amended. For every request to \<open>/foods\<close>: when the limit is omitted, the
  handler works with the limit 10 (the page size it asks of the upstream API is \<open>10\<close>,
  and a successful response echoes 10); the limit echoed in any successful response is
  at most 50 (and positive); and an integer limit greater than 50 is rejected with a
  \<open>ValidationError\<close> and HTTP 400 rather than clamped.
\<close>

theorem limit_default_bound_rejection:
  "(limit_param req = None \<and> prepare usdaApiKey req = Inr (key, query, limit) \<longrightarrow>
      limit = Fin 10 \<and> Number_toString limit = ''10'') \<and>
   (limit_param req = None \<and> body (foods_handler usdaApiKey fetch req) = Foods fj \<longrightarrow>
      res_limit fj = Fin 10) \<and>
   (body (foods_handler usdaApiKey fetch req) = Foods fj \<longrightarrow>
      js_le (res_limit fj) (Fin 50) \<and> \<not> js_le (res_limit fj) (Fin 0)) \<and>
   (limit_param req = Some l \<and> take_sign l = (sg, ds) \<and> ds \<noteq> [] \<and> list_all is_digit ds \<and>
    50 < sg * digits_value 10 ds \<longrightarrow>
      foods_handler usdaApiKey fetch req =
        \<lparr> status = 400,
          body = Failure
            \<lparr> err_error = ''Invalid request parameters: '' @
                 join_with '', '' (validateFoodsQuery req),
              err_type = ''ValidationError'', upstream_status = None, upstream_details = None,
              original_error = None \<rparr> \<rparr>)"
proof -
  have d: "limit = Fin 10 \<and> Number_toString limit = ''10''"
    if h: "limit_param req = None \<and> prepare usdaApiKey req = Inr (key, query, limit)"
  proof -
    from h have "limit = Fin 10"
      by (blast intro: prepare_default_limit)
    then show ?thesis
      by (simp only: page_size_10)
  qed
  have a: "res_limit fj = Fin 10"
    if h: "limit_param req = None \<and> body (foods_handler usdaApiKey fetch req) = Foods fj"
  proof -
    from h foods_handler_success [of usdaApiKey fetch req fj] obtain key' query' limit'
      where p: "prepare usdaApiKey req = Inr (key', query', limit')"
        and l: "res_limit fj = limit'"
      by blast
    from h p have "limit' = Fin 10"
      by (blast intro: prepare_default_limit)
    with l show "res_limit fj = Fin 10" by simp
  qed
  have b: "js_le (res_limit fj) (Fin 50) \<and> \<not> js_le (res_limit fj) (Fin 0)"
    if h: "body (foods_handler usdaApiKey fetch req) = Foods fj"
  proof -
    from h foods_handler_success [of usdaApiKey fetch req fj] obtain key query limit
      where p: "prepare usdaApiKey req = Inr (key, query, limit)" and l: "res_limit fj = limit"
      by blast
    from prepare_Inr_limit [OF p] l show ?thesis by simp
  qed
  have c: "foods_handler usdaApiKey fetch req =
        \<lparr> status = 400,
          body = Failure
            \<lparr> err_error = ''Invalid request parameters: '' @
                 join_with '', '' (validateFoodsQuery req),
              err_type = ''ValidationError'', upstream_status = None, upstream_details = None,
              original_error = None \<rparr> \<rparr>"
    if h: "limit_param req = Some l \<and> take_sign l = (sg, ds) \<and> ds \<noteq> [] \<and>
      list_all is_digit ds \<and> 50 < sg * digits_value 10 ds"
  proof -
  from h have n: "StringToNumber l = toDouble (of_int (sg * digits_value 10 ds))"
    by (simp add: integer_literal(1))
  from h have "(51::rat) \<le> of_int (sg * digits_value 10 ds)"
    by (metis of_int_le_iff of_int_numeral zless_imp_add1_zle numeral_plus_one
        semiring_norm(5) semiring_norm(8) add.commute one_add_one numeral_Bit0 numeral_Bit1)
  from toDouble_above_50 [OF this] n have "\<not> isInt_1_50 l"
    by (simp add: isInt_1_50_def)
  with h have "validateFoodsQuery req \<noteq> []"
    by (simp add: validateFoodsQuery_def Let_def)
  then show ?thesis
    by (simp add: foods_handler_def prepare_def Let_def status_json_def)
  qed
  from d a b c show ?thesis by blast
qed

theorem limit_default_bound_rejection_witness:
  "limit_param apple_request = None \<and>
   prepare (Some ''key'') apple_request = Inr (''key'', ''apple'', Fin 10) \<and>
   Number_toString (Fin 10) = ''10'' \<and>
   body (foods_handler (Some ''key'') (upstream_answers 200 (Inr apple_foods)) apple_request)
     = Foods apple_result \<and>
   res_limit apple_result = Fin 10 \<and>
   js_le (res_limit apple_result) (Fin 50) \<and>
   limit_param (apple_request \<lparr> limit_param := Some ''+0051'' \<rparr>) = Some ''+0051'' \<and>
   take_sign ''+0051'' = (1, ''0051'') \<and> list_all is_digit ''0051'' \<and>
   50 < 1 * digits_value 10 ''0051'' \<and>
   status (foods_handler (Some ''key'') (upstream_answers 200 (Inr apple_foods))
     (apple_request \<lparr> limit_param := Some ''+0051'' \<rparr>)) = 400"
proof -
  have a: "limit_param apple_request = None"
    by code_simp
  have p: "prepare (Some ''key'') apple_request = Inr (''key'', ''apple'', Fin 10)"
    by code_simp
  have b: "body (foods_handler (Some ''key'') (upstream_answers 200 (Inr apple_foods))
      apple_request) = Foods apple_result"
    by code_simp
  have c: "limit_param (apple_request \<lparr> limit_param := Some ''+0051'' \<rparr>) = Some ''+0051'' \<and>
      take_sign ''+0051'' = (1, ''0051'') \<and> ''0051'' \<noteq> [] \<and> list_all is_digit ''0051'' \<and>
      50 < 1 * digits_value 10 ''0051''"
    by code_simp
  have r0: "Number_toString (Fin 10) = ''10''"
    using limit_default_bound_rejection
      [where req = apple_request and usdaApiKey = "Some ''key''" and key = "''key''"
        and query = "''apple''" and limit = "Fin 10"]
      a p
    by blast
  have r1: "res_limit apple_result = Fin 10 \<and> js_le (res_limit apple_result) (Fin 50)"
    using limit_default_bound_rejection
      [where req = apple_request and usdaApiKey = "Some ''key''"
        and fetch = "upstream_answers 200 (Inr apple_foods)" and fj = apple_result]
      a b
    by blast
  have r2: "status (foods_handler (Some ''key'') (upstream_answers 200 (Inr apple_foods))
      (apple_request \<lparr> limit_param := Some ''+0051'' \<rparr>)) = 400"
    using limit_default_bound_rejection
      [where req = "apple_request \<lparr> limit_param := Some ''+0051'' \<rparr>"
        and usdaApiKey = "Some ''key''" and fetch = "upstream_answers 200 (Inr apple_foods)"
        and l = "''+0051''" and sg = 1 and ds = "''0051''"]
      c
    by simp
  from a p b c r0 r1 r2 show ?thesis by blast
qed

section \<open>The food type checks\<close>

text \<open>
  Claim C6, as stated, fails: the query \<open>- -\<close> passes validation and contains no word
  character, and the handler does not reject it; it calls the upstream API and answers 200.
\<close>

theorem query_without_word_character_accepted:
  "validateFoodsQuery \<lparr> type_param = Some ''- -'', limit_param = None \<rparr> = [] \<and>
   \<not> list_ex is_word_char ''- -'' \<and>
   status (foods_handler (Some ''key'') (upstream_answers 200 (Inr apple_foods))
     \<lparr> type_param = Some ''- -'', limit_param = None \<rparr>) = 200"
  by code_simp

text \<open>
  Claim C6, amended. When a request has passed validation and the API key is configured,
  a query (the trimmed \<open>type\<close>) that has fewer than 2 characters, consists of digits
  only, consists only of characters that are neither word characters nor white space, or
  is one of the reserved words \<open>test\<close>, \<open>debug\<close>, \<open>admin\<close>, \<open>system\<close> up to
  case, is rejected with a \<open>FoodTypeError\<close> and HTTP 400. No other query is rejected at
  this stage.
\<close>

theorem food_type_rejected:
  "validateFoodsQuery req = [] \<and> usdaApiKey = Some key \<and> key \<noteq> [] \<and>
   type_param req = Some t \<longrightarrow>
     (if length (trim t) < 2 \<or> only_digits (trim t) \<or> only_special (trim t) \<or>
         reserved_word (trim t)
      then status (foods_handler usdaApiKey fetch req) = 400 \<and>
           response_error_type (foods_handler usdaApiKey fetch req) = Some ''FoodTypeError''
      else prepare usdaApiKey req = Inr (key, trim t, limit_of req))"
proof
  assume h: "validateFoodsQuery req = [] \<and> usdaApiKey = Some key \<and> key \<noteq> [] \<and>
    type_param req = Some t"
  then have "prepare usdaApiKey req =
    (if length (trim t) < 2 then
       Inl (FoodTypeError
         ''Food type must be at least 2 characters long for meaningful search results.'')
     else if only_digits (trim t) \<or> only_special (trim t) \<or> reserved_word (trim t) then
       Inl (FoodTypeError (''Invalid food type: '' @ quoted (trim t) @
         ''. Please provide a valid food name.''))
     else Inr (key, trim t, limit_of req))"
    by (simp add: prepare_valid)
  then show "if length (trim t) < 2 \<or> only_digits (trim t) \<or> only_special (trim t) \<or>
         reserved_word (trim t)
      then status (foods_handler usdaApiKey fetch req) = 400 \<and>
           response_error_type (foods_handler usdaApiKey fetch req) = Some ''FoodTypeError''
      else prepare usdaApiKey req = Inr (key, trim t, limit_of req)"
    by (simp add: foods_handler_def response_error_type_def status_json_def)
qed

theorem food_type_rejected_witness:
  "validateFoodsQuery \<lparr> type_param = Some ''a'', limit_param = None \<rparr> = [] \<and>
   length (trim ''a'') < 2 \<and>
   status (foods_handler (Some ''key'') (upstream_answers 200 (Inr apple_foods))
     \<lparr> type_param = Some ''a'', limit_param = None \<rparr>) = 400 \<and>
   response_error_type (foods_handler (Some ''key'') (upstream_answers 200 (Inr apple_foods))
     \<lparr> type_param = Some ''a'', limit_param = None \<rparr>) = Some ''FoodTypeError'' \<and>
   validateFoodsQuery \<lparr> type_param = Some ''123'', limit_param = Some ''5'' \<rparr> = [] \<and>
   only_digits (trim ''123'') \<and>
   status (foods_handler (Some ''key'') (upstream_answers 200 (Inr apple_foods))
     \<lparr> type_param = Some ''123'', limit_param = Some ''5'' \<rparr>) = 400 \<and>
   response_error_type (foods_handler (Some ''key'') (upstream_answers 200 (Inr apple_foods))
     \<lparr> type_param = Some ''123'', limit_param = Some ''5'' \<rparr>) = Some ''FoodTypeError'' \<and>
   validateFoodsQuery \<lparr> type_param = Some '' --- '', limit_param = None \<rparr> = [] \<and>
   only_special (trim '' --- '') \<and>
   status (foods_handler (Some ''key'') (upstream_answers 200 (Inr apple_foods))
     \<lparr> type_param = Some '' --- '', limit_param = None \<rparr>) = 400 \<and>
   validateFoodsQuery \<lparr> type_param = Some ''Admin'', limit_param = None \<rparr> = [] \<and>
   reserved_word (trim ''Admin'') \<and>
   status (foods_handler (Some ''key'') (upstream_answers 200 (Inr apple_foods))
     \<lparr> type_param = Some ''Admin'', limit_param = None \<rparr>) = 400 \<and>
   validateFoodsQuery apple_request = [] \<and>
   prepare (Some ''key'') apple_request = Inr (''key'', ''apple'', Fin 10)"
proof -
  let ?f = "upstream_answers 200 (Inr apple_foods)"
  have v: "validateFoodsQuery \<lparr> type_param = Some ''a'', limit_param = None \<rparr> = []"
    "validateFoodsQuery \<lparr> type_param = Some ''123'', limit_param = Some ''5'' \<rparr> = []"
    "validateFoodsQuery \<lparr> type_param = Some '' --- '', limit_param = None \<rparr> = []"
    "validateFoodsQuery \<lparr> type_param = Some ''Admin'', limit_param = None \<rparr> = []"
    "validateFoodsQuery apple_request = []"
    by code_simp+
  have c: "length (trim ''a'') < 2" "only_digits (trim ''123'')" "only_special (trim '' --- '')"
    "reserved_word (trim ''Admin'')"
    by code_simp+
  have n: "\<not> (length (trim ''apple'') < 2 \<or> only_digits (trim ''apple'') \<or>
      only_special (trim ''apple'') \<or> reserved_word (trim ''apple''))"
    "trim ''apple'' = ''apple''" "limit_of apple_request = Fin 10"
    "type_param apple_request = Some ''apple''"
    by code_simp+
  have r1: "status (foods_handler (Some ''key'') ?f
        \<lparr> type_param = Some ''a'', limit_param = None \<rparr>) = 400 \<and>
      response_error_type (foods_handler (Some ''key'') ?f
        \<lparr> type_param = Some ''a'', limit_param = None \<rparr>) = Some ''FoodTypeError''"
    using food_type_rejected
      [of "\<lparr> type_param = Some ''a'', limit_param = None \<rparr>" "Some ''key''" "''key''" "''a''" ?f]
      v(1) c(1)
    by simp
  have r2: "status (foods_handler (Some ''key'') ?f
        \<lparr> type_param = Some ''123'', limit_param = Some ''5'' \<rparr>) = 400 \<and>
      response_error_type (foods_handler (Some ''key'') ?f
        \<lparr> type_param = Some ''123'', limit_param = Some ''5'' \<rparr>) = Some ''FoodTypeError''"
    using food_type_rejected
      [of "\<lparr> type_param = Some ''123'', limit_param = Some ''5'' \<rparr>" "Some ''key''" "''key''"
        "''123''" ?f]
      v(2) c(2)
    by simp
  have r3: "status (foods_handler (Some ''key'') ?f
        \<lparr> type_param = Some '' --- '', limit_param = None \<rparr>) = 400"
    using food_type_rejected
      [of "\<lparr> type_param = Some '' --- '', limit_param = None \<rparr>" "Some ''key''" "''key''"
        "'' --- ''" ?f]
      v(3) c(3)
    by simp
  have r4: "status (foods_handler (Some ''key'') ?f
        \<lparr> type_param = Some ''Admin'', limit_param = None \<rparr>) = 400"
    using food_type_rejected
      [of "\<lparr> type_param = Some ''Admin'', limit_param = None \<rparr>" "Some ''key''" "''key''"
        "''Admin''" ?f]
      v(4) c(4)
    by simp
  have r5: "prepare (Some ''key'') apple_request = Inr (''key'', ''apple'', Fin 10)"
    using food_type_rejected [of apple_request "Some ''key''" "''key''" "''apple''" ?f]
      v(5) n
    by simp
  from v c r1 r2 r3 r4 r5 show ?thesis by simp
qed

section \<open>Errors of the upstream API\<close>

text \<open>
  Claim C7, as stated, fails: 304 is a status that is not a success, and when the upstream
  API answers 304 the response has the status 304 and no body, so it carries no
  \<open>upstream_status\<close> and no message.
\<close>

theorem upstream_304_without_body:
  "\<not> ok 304 \<and>
   foods_handler (Some ''key'') (upstream_answers 304 (Inr Null)) apple_request =
     \<lparr> status = 304, body = NoBody \<rparr>"
  by code_simp

text \<open>
  Claim C7, amended. When the upstream API answers with a status \<open>s\<close> that is not a
  success and with which a body is sent (\<open>s\<close> from 300 on, other than 304),
  the response is that of an \<open>UpstreamAPIError\<close>: its \<open>upstream_status\<close> is \<open>s\<close>,
  its message is the entry of the table for 400, 401, 403, 404, 429, 500, 502, 503 and 504
  and the generic message for any other status, and its HTTP status is \<open>s\<close> below 500
  and 503 from 500 on. An upstream 429 gives a response 429 with \<open>upstream_status\<close> 429.
\<close>

theorem upstream_status_mapped:
  "(prepare usdaApiKey req = Inr (key, query, limit) \<and>
    fetch key query (Number_toString limit) = Resolved r \<and> \<not> ok (up_status r) \<and>
    200 \<le> up_status r \<and> up_status r \<noteq> 304 \<longrightarrow>
      foods_handler usdaApiKey fetch req =
        \<lparr> status = (if 500 \<le> up_status r then 503 else up_status r),
          body = Failure
            \<lparr> err_error = status_message (up_status r),
              err_type = ''UpstreamAPIError'',
              upstream_status = Some (up_status r),
              upstream_details =
                (case up_json r of
                   Inl e \<Rightarrow> Some (Obj [(''message'', Str ''Unknown upstream error'')])
                 | Inr errorBody \<Rightarrow> if truthy errorBody then Some errorBody else None),
              original_error = None \<rparr> \<rparr>) \<and>
   map status_message [400, 401, 403, 404, 429, 500, 502, 503, 504] =
     [''Invalid request sent to USDA API'', ''USDA API authentication failed'',
      ''Access to USDA API denied'', ''USDA API endpoint not found'',
      ''USDA API rate limit exceeded'', ''USDA API internal server error'',
      ''USDA API gateway error'', ''USDA API service unavailable'',
      ''USDA API gateway timeout''] \<and>
   (s \<notin> {400, 401, 403, 404, 429, 500, 502, 503, 504} \<longrightarrow>
      status_message s = ''USDA API error occurred'')"
proof (intro conjI impI)
  assume h: "prepare usdaApiKey req = Inr (key, query, limit) \<and>
    fetch key query (Number_toString limit) = Resolved r \<and> \<not> ok (up_status r) \<and>
    200 \<le> up_status r \<and> up_status r \<noteq> 304"
  then have s: "300 \<le> up_status r"
    by (auto simp add: ok_def)
  have c: "status_json (if 500 \<le> up_status r then 503 else up_status r) b =
      \<lparr> status = (if 500 \<le> up_status r then 503 else up_status r), body = b \<rparr>" for b
    using h s by (simp add: status_json_def)
  from h c show "foods_handler usdaApiKey fetch req =
        \<lparr> status = (if 500 \<le> up_status r then 503 else up_status r),
          body = Failure
            \<lparr> err_error = status_message (up_status r),
              err_type = ''UpstreamAPIError'',
              upstream_status = Some (up_status r),
              upstream_details =
                (case up_json r of
                   Inl e \<Rightarrow> Some (Obj [(''message'', Str ''Unknown upstream error'')])
                 | Inr errorBody \<Rightarrow> if truthy errorBody then Some errorBody else None),
              original_error = None \<rparr> \<rparr>"
    by (cases "up_json r") (simp_all add: foods_handler_def handle_upstream_def)
next
  show "map status_message [400, 401, 403, 404, 429, 500, 502, 503, 504] =
     [''Invalid request sent to USDA API'', ''USDA API authentication failed'',
      ''Access to USDA API denied'', ''USDA API endpoint not found'',
      ''USDA API rate limit exceeded'', ''USDA API internal server error'',
      ''USDA API gateway error'', ''USDA API service unavailable'',
      ''USDA API gateway timeout'']"
    by (simp add: status_message_def statusMessages_def)
next
  assume "s \<notin> {400, 401, 403, 404, 429, 500, 502, 503, 504}"
  then show "status_message s = ''USDA API error occurred''"
    by (simp add: status_message_def statusMessages_def)
qed

theorem upstream_status_mapped_witness:
  "prepare (Some ''key'') apple_request = Inr (''key'', ''apple'', Fin 10) \<and>
   \<not> ok 429 \<and> \<not> ok 502 \<and> \<not> ok 418 \<and>
   foods_handler (Some ''key'') (upstream_answers 429 (Inl ''no JSON'')) apple_request =
     \<lparr> status = 429,
       body = Failure
         \<lparr> err_error = ''USDA API rate limit exceeded'', err_type = ''UpstreamAPIError'',
           upstream_status = Some 429,
           upstream_details = Some (Obj [(''message'', Str ''Unknown upstream error'')]),
           original_error = None \<rparr> \<rparr> \<and>
   foods_handler (Some ''key'') (upstream_answers 502 (Inr Null)) apple_request =
     \<lparr> status = 503,
       body = Failure
         \<lparr> err_error = ''USDA API gateway error'', err_type = ''UpstreamAPIError'',
           upstream_status = Some 502, upstream_details = None, original_error = None \<rparr> \<rparr> \<and>
   418 \<notin> {400, 401, 403, 404, 429, 500, 502, 503, 504 :: int} \<and>
   status_message 418 = ''USDA API error occurred''"
proof -
  have p: "prepare (Some ''key'') apple_request = Inr (''key'', ''apple'', Fin 10)"
    by code_simp
  have o: "\<not> ok 429" "\<not> ok 502" "\<not> ok 418"
    by (simp_all add: ok_def)
  have m: "status_message 429 = ''USDA API rate limit exceeded''"
    "status_message 502 = ''USDA API gateway error''"
    by (simp_all add: status_message_def statusMessages_def)
  have r1: "foods_handler (Some ''key'') (upstream_answers 429 (Inl ''no JSON'')) apple_request =
     \<lparr> status = 429,
       body = Failure
         \<lparr> err_error = ''USDA API rate limit exceeded'', err_type = ''UpstreamAPIError'',
           upstream_status = Some 429,
           upstream_details = Some (Obj [(''message'', Str ''Unknown upstream error'')]),
           original_error = None \<rparr> \<rparr>"
    using upstream_status_mapped
      [of "Some ''key''" apple_request "''key''" "''apple''" "Fin 10"
        "upstream_answers 429 (Inl ''no JSON'')" "\<lparr> up_status = 429, up_json = Inl ''no JSON'' \<rparr>"]
      p o m
    by (simp add: upstream_answers_def)
  have r2: "foods_handler (Some ''key'') (upstream_answers 502 (Inr Null)) apple_request =
     \<lparr> status = 503,
       body = Failure
         \<lparr> err_error = ''USDA API gateway error'', err_type = ''UpstreamAPIError'',
           upstream_status = Some 502, upstream_details = None, original_error = None \<rparr> \<rparr>"
    using upstream_status_mapped
      [of "Some ''key''" apple_request "''key''" "''apple''" "Fin 10"
        "upstream_answers 502 (Inr Null)" "\<lparr> up_status = 502, up_json = Inr Null \<rparr>"]
      p o m
    by (simp add: upstream_answers_def)
  have n: "418 \<notin> {400, 401, 403, 404, 429, 500, 502, 503, 504 :: int}"
    by simp
  have r3: "status_message 418 = ''USDA API error occurred''"
    using upstream_status_mapped [where s = 418] n by blast
  from p o r1 r2 n r3 show ?thesis by blast
qed

section \<open>The body of a successful upstream response\<close>

text \<open>
  Claim C8, as stated, fails: a JSON array is not an object, and a body that parses to an
  array does not give a \<open>ParsingError\<close>. It passes the test of the handler, has no
  \<open>foods\<close>, and is answered 200 with an empty list.
\<close>

theorem array_body_accepted:
  "\<not> json_object (Arr [food_with_energy]) \<and>
   foods_handler (Some ''key'') (upstream_answers 200 (Inr (Arr [food_with_energy])))
     apple_request =
     \<lparr> status = 200,
       body = Foods \<lparr> res_query = ''apple'', res_limit = Fin 10, res_count = 0,
         res_foods = [] \<rparr> \<rparr>"
  by code_simp

text \<open>
  Claim C8, amended. When the upstream API answers with a success status, a body that does
  not parse as JSON, or whose parsed value is neither an object nor an array (it is
  \<open>null\<close>, a boolean, a number or a string), gives the response of a
  \<open>ParsingError\<close>, with status 422. A body that parses to an object or to an array,
  and no other, is normalized and answered with 200.
\<close>

theorem upstream_body_parsed:
  "prepare usdaApiKey req = Inr (key, query, limit) \<and>
   fetch key query (Number_toString limit) = Resolved r \<and> ok (up_status r) \<longrightarrow>
     (case up_json r of
        Inl e \<Rightarrow>
          status (foods_handler usdaApiKey fetch req) = 422 \<and>
          response_error_type (foods_handler usdaApiKey fetch req) = Some ''ParsingError''
      | Inr data \<Rightarrow>
          if object_or_array data then
            foods_handler usdaApiKey fetch req =
              \<lparr> status = 200,
                body = Foods
                  \<lparr> res_query = query, res_limit = limit,
                    res_count = length (response_foods data),
                    res_foods = map normalize_item (response_foods data) \<rparr> \<rparr>
          else
            status (foods_handler usdaApiKey fetch req) = 422 \<and>
            response_error_type (foods_handler usdaApiKey fetch req) = Some ''ParsingError'')"
proof
  assume h: "prepare usdaApiKey req = Inr (key, query, limit) \<and>
    fetch key query (Number_toString limit) = Resolved r \<and> ok (up_status r)"
  show "case up_json r of
        Inl e \<Rightarrow>
          status (foods_handler usdaApiKey fetch req) = 422 \<and>
          response_error_type (foods_handler usdaApiKey fetch req) = Some ''ParsingError''
      | Inr data \<Rightarrow>
          if object_or_array data then
            foods_handler usdaApiKey fetch req =
              \<lparr> status = 200,
                body = Foods
                  \<lparr> res_query = query, res_limit = limit,
                    res_count = length (response_foods data),
                    res_foods = map normalize_item (response_foods data) \<rparr> \<rparr>
          else
            status (foods_handler usdaApiKey fetch req) = 422 \<and>
            response_error_type (foods_handler usdaApiKey fetch req) = Some ''ParsingError''"
  proof (cases "up_json r")
    case (Inl e)
    with h show ?thesis
      by (simp add: foods_handler_def handle_upstream_def response_error_type_def status_json_def)
  next
    case (Inr data)
    show ?thesis
    proof (cases "object_or_array data")
      case True
      then have "truthy data \<and> typeof data = ''object''" by (simp add: object_or_array_iff)
      with h Inr True show ?thesis
        by (simp add: foods_handler_def handle_upstream_def Let_def status_json_def)
    next
      case False
      then have "\<not> truthy data \<or> typeof data \<noteq> ''object''"
        using object_or_array_iff [of data] by blast
      with h Inr False show ?thesis
        by (auto simp add: foods_handler_def handle_upstream_def response_error_type_def status_json_def)
    qed
  qed
qed

theorem upstream_body_parsed_witness:
  "prepare (Some ''key'') apple_request = Inr (''key'', ''apple'', Fin 10) \<and> ok 200 \<and>
   status (foods_handler (Some ''key'') (upstream_answers 200 (Inl ''Unexpected token''))
     apple_request) = 422 \<and>
   response_error_type (foods_handler (Some ''key'')
     (upstream_answers 200 (Inl ''Unexpected token'')) apple_request) = Some ''ParsingError'' \<and>
   status (foods_handler (Some ''key'') (upstream_answers 200 (Inr (Str ''foods'')))
     apple_request) = 422 \<and>
   status (foods_handler (Some ''key'') (upstream_answers 200 (Inr Null)) apple_request) = 422 \<and>
   object_or_array apple_foods \<and>
   foods_handler (Some ''key'') (upstream_answers 200 (Inr apple_foods)) apple_request =
     \<lparr> status = 200, body = Foods apple_result \<rparr> \<and>
   status (foods_handler (Some ''key'') (upstream_answers 200 (Inr (Arr []))) apple_request)
     = 200"
proof -
  have p: "prepare (Some ''key'') apple_request = Inr (''key'', ''apple'', Fin 10)"
    by code_simp
  have o: "ok 200"
    by (simp add: ok_def)
  have a: "response_foods apple_foods = [food_with_energy, food_without_macros]"
    by code_simp
  have j: "object_or_array apple_foods"
    by code_simp
  have r: "(case b of
        Inl e \<Rightarrow>
          status (foods_handler (Some ''key'') (upstream_answers 200 b) apple_request) = 422 \<and>
          response_error_type (foods_handler (Some ''key'') (upstream_answers 200 b)
            apple_request) = Some ''ParsingError''
      | Inr data \<Rightarrow>
          if object_or_array data then
            foods_handler (Some ''key'') (upstream_answers 200 b) apple_request =
              \<lparr> status = 200,
                body = Foods
                  \<lparr> res_query = ''apple'', res_limit = Fin 10,
                    res_count = length (response_foods data),
                    res_foods = map normalize_item (response_foods data) \<rparr> \<rparr>
          else
            status (foods_handler (Some ''key'') (upstream_answers 200 b) apple_request) = 422 \<and>
            response_error_type (foods_handler (Some ''key'') (upstream_answers 200 b)
              apple_request) = Some ''ParsingError'')" for b
    using upstream_body_parsed
      [of "Some ''key''" apple_request "''key''" "''apple''" "Fin 10" "upstream_answers 200 b"
        "\<lparr> up_status = 200, up_json = b \<rparr>"]
      p o
    by (simp add: upstream_answers_def)
  from r [of "Inl ''Unexpected token''"] r [of "Inr (Str ''foods'')"] r [of "Inr Null"]
    r [of "Inr apple_foods"] r [of "Inr (Arr [])"] p o a j
  show ?thesis
    by (simp add: apple_result_def)
qed

end
